(* ===== verification/Rust_Base.thy ===== *)
theory Rust_Base
  imports Main "HOL-Library.Word"
begin

text \<open>
  The part of the Rust language and its standard library that the modelled sources use:
  fixed-width integers with saturating and checked arithmetic, the \<open>?\<close> operator on
  results, byte-order conversions, UTF-8 strings as byte lists (\<open>trim\<close>, \<open>split\<close>,
  \<open>parse\<close>), and slices. Every later theory imports this one. The collections
  \<open>result_simps\<close> and \<open>byte_simps\<close> carry the facts that component proofs share.
\<close>

unbundle bit_operations_syntax

named_theorems result_simps
named_theorems byte_simps

section \<open>Integers\<close>

type_synonym u8 = "8 word"
type_synonym u16 = "16 word"
type_synonym u32 = "32 word"
type_synonym u64 = "64 word"
type_synonym i16 = "16 word"
type_synonym i64 = "64 word"

text \<open>\<open>saturating_add\<close> and \<open>checked_add\<close> of the unsigned types.\<close>

definition saturating_add :: "'a::len word \<Rightarrow> 'a word \<Rightarrow> 'a word" where
  "saturating_add a b = (if unat a + unat b < 2 ^ LENGTH('a) then a + b else - 1)"

definition checked_add :: "'a::len word \<Rightarrow> 'a word \<Rightarrow> 'a word option" where
  "checked_add a b = (if unat a + unat b < 2 ^ LENGTH('a) then Some (a + b) else None)"

lemma unat_saturating_add:
  "unat (saturating_add a b) = min (unat a + unat b) (2 ^ LENGTH('a) - 1)"
  for a b :: "'a::len word"
proof (cases "unat a + unat b < 2 ^ LENGTH('a)")
  case True
  then have "unat (a + b) = unat a + unat b"
    by (simp add: unat_word_ariths)
  with True show ?thesis by (simp add: saturating_add_def)
next
  case False
  then have "2 ^ LENGTH('a) - 1 \<le> unat a + unat b" by linarith
  with False show ?thesis
    by (simp add: saturating_add_def min_absorb2 unsigned_minus_1_eq_mask mask_eq_exp_minus_1)
qed

lemma saturating_add_mono: "a \<le> saturating_add a b"
  for a b :: "'a::len word"
proof -
  have "unat a \<le> 2 ^ LENGTH('a) - 1"
    using unsigned_less [of a] by (metis Suc_pred' less_Suc_eq_le zero_less_numeral zero_less_power)
  then have "unat a \<le> unat (saturating_add a b)"
    by (simp add: unat_saturating_add)
  then show ?thesis by (simp add: word_le_nat_alt)
qed

lemma checked_add_Some:
  "checked_add a b = Some c \<longleftrightarrow> unat a + unat b < 2 ^ LENGTH('a) \<and> c = a + b"
  for a b :: "'a::len word"
  by (auto simp: checked_add_def)

lemma checked_add_unat:
  "checked_add a b = Some c \<Longrightarrow> unat c = unat a + unat b"
  for a b :: "'a::len word"
  by (simp add: checked_add_Some unat_word_ariths)

text \<open>\<open>div_ceil\<close> on the small quantities the sources divide.\<close>

definition div_ceil :: "nat \<Rightarrow> nat \<Rightarrow> nat" where
  "div_ceil a b = (if a mod b = 0 then a div b else a div b + 1)"

lemma div_ceil_8_less: "i < q \<Longrightarrow> i div 8 < div_ceil q 8"
  by (auto simp: div_ceil_def)

section \<open>Results\<close>

text \<open>A \<open>Result\<close> is a sum with the error on the left; \<open>rbind m f\<close> is \<open>m?\<close> followed by \<open>f\<close>.\<close>

definition rbind :: "'e + 'a \<Rightarrow> ('a \<Rightarrow> 'e + 'b) \<Rightarrow> 'e + 'b" where
  "rbind m f = (case m of Inl e \<Rightarrow> Inl e | Inr x \<Rightarrow> f x)"

definition map_err :: "('e \<Rightarrow> 'f) \<Rightarrow> 'e + 'a \<Rightarrow> 'f + 'a" where
  "map_err g m = (case m of Inl e \<Rightarrow> Inl (g e) | Inr x \<Rightarrow> Inr x)"

definition ok_or :: "'e \<Rightarrow> 'a option \<Rightarrow> 'e + 'a" where
  "ok_or e m = (case m of None \<Rightarrow> Inl e | Some x \<Rightarrow> Inr x)"

text \<open>The first result of a function on the elements of a list, \<open>Iterator::find_map\<close>.\<close>

fun find_map :: "('a \<Rightarrow> 'b option) \<Rightarrow> 'a list \<Rightarrow> 'b option" where
  "find_map f [] = None"
| "find_map f (x # xs) = (case f x of Some y \<Rightarrow> Some y | None \<Rightarrow> find_map f xs)"

fun collect :: "('a \<Rightarrow> 'e + 'b) \<Rightarrow> 'a list \<Rightarrow> 'e + 'b list" where
  "collect f [] = Inr []"
| "collect f (x # xs) =
     (case f x of Inl e \<Rightarrow> Inl e
      | Inr y \<Rightarrow> (case collect f xs of Inl e \<Rightarrow> Inl e | Inr ys \<Rightarrow> Inr (y # ys)))"

lemma rbind_simps [simp]:
  "rbind (Inl e) f = Inl e" "rbind (Inr x) f = f x"
  by (simp_all add: rbind_def)

lemma map_err_simps [simp]:
  "map_err g (Inl e) = Inl (g e)" "map_err g (Inr x) = Inr x"
  by (simp_all add: map_err_def)

lemma ok_or_simps [simp]:
  "ok_or e None = Inl e" "ok_or e (Some x) = Inr x"
  by (simp_all add: ok_or_def)

lemma rbind_Inr [result_simps]:
  "rbind m f = Inr y \<longleftrightarrow> (\<exists>x. m = Inr x \<and> f x = Inr y)"
  by (cases m) auto

lemma rbind_Inl [result_simps]:
  "rbind m f = Inl e \<longleftrightarrow> m = Inl e \<or> (\<exists>x. m = Inr x \<and> f x = Inl e)"
  by (cases m) auto

lemma map_err_Inr [result_simps]: "map_err g m = Inr x \<longleftrightarrow> m = Inr x"
  by (cases m) auto

lemma ok_or_Inr [result_simps]: "ok_or e m = Inr x \<longleftrightarrow> m = Some x"
  by (cases m) auto

lemma if_Inl_Inr [result_simps]: "(if b then Inl e else m) = Inr y \<longleftrightarrow> \<not> b \<and> m = Inr y"
  by auto

lemma collect_Inr:
  "collect f xs = Inr ys \<longleftrightarrow> list_all2 (\<lambda>x y. f x = Inr y) xs ys"
proof (induction xs arbitrary: ys)
  case Nil
  then show ?case by auto
next
  case (Cons x xs)
  show ?case
    using Cons.IH by (cases ys; cases "f x"; cases "collect f xs") auto
qed

lemma collect_length: "collect f xs = Inr ys \<Longrightarrow> length ys = length xs"
  by (simp add: collect_Inr list_all2_lengthD)

lemma collect_Inl: "collect f xs = Inl e \<Longrightarrow> \<exists>x \<in> set xs. f x = Inl e"
  by (induction xs) (auto split: sum.splits)

lemma isl_rbind [simp]: "isl r \<Longrightarrow> isl (rbind r f)"
  by (cases r) simp_all

section \<open>Bytes and byte order\<close>

definition to_be_bytes16 :: "u16 \<Rightarrow> u8 list" where
  "to_be_bytes16 w = [ucast (drop_bit 8 w), ucast w]"

definition to_le_bytes16 :: "u16 \<Rightarrow> u8 list" where
  "to_le_bytes16 w = [ucast w, ucast (drop_bit 8 w)]"

definition from_be_bytes16 :: "u8 \<Rightarrow> u8 \<Rightarrow> u16" where
  "from_be_bytes16 a b = push_bit 8 (ucast a) OR ucast b"

definition from_le_bytes16 :: "u8 \<Rightarrow> u8 \<Rightarrow> u16" where
  "from_le_bytes16 a b = from_be_bytes16 b a"

definition to_le_bytes32 :: "u32 \<Rightarrow> u8 list" where
  "to_le_bytes32 w = [ucast w, ucast (drop_bit 8 w), ucast (drop_bit 16 w), ucast (drop_bit 24 w)]"

definition from_le_bytes32 :: "u8 \<Rightarrow> u8 \<Rightarrow> u8 \<Rightarrow> u8 \<Rightarrow> u32" where
  "from_le_bytes32 a b c d =
     ucast a OR push_bit 8 (ucast b) OR push_bit 16 (ucast c) OR push_bit 24 (ucast d)"

lemma not_bit_u8 [simp]: "\<not> bit b (8 + n)" for b :: u8
  using bit_imp_le_length [of b "8 + n"] by auto

lemma from_be_to_be16 [byte_simps]:
  "from_be_bytes16 (ucast (drop_bit 8 w)) (ucast w) = w"
proof (rule bit_word_eqI)
  fix n
  assume "n < LENGTH(16)"
  then show "bit (from_be_bytes16 (ucast (drop_bit 8 w)) (ucast w)) n = bit w n"
    by (auto simp: from_be_bytes16_def bit_simps)
qed

lemma to_be_from_be16 [byte_simps]:
  "ucast (drop_bit 8 (from_be_bytes16 a b)) = a" "ucast (from_be_bytes16 a b) = b"
  by (auto intro!: bit_word_eqI simp: from_be_bytes16_def bit_simps)

lemma ucast_up_down_u8: "ucast (ucast x :: u16) = x" for x :: u8
  by (auto intro!: bit_word_eqI simp: bit_simps)

lemma from_le_to_le32 [byte_simps]:
  "from_le_bytes32 (ucast w) (ucast (drop_bit 8 w)) (ucast (drop_bit 16 w)) (ucast (drop_bit 24 w)) = w"
proof (rule bit_word_eqI)
  fix n
  assume "n < LENGTH(32)"
  then consider "n < 8" | "8 \<le> n" "n < 16" | "16 \<le> n" "n < 24" | "24 \<le> n" "n < 32"
    by fastforce
  then show "bit (from_le_bytes32 (ucast w) (ucast (drop_bit 8 w)) (ucast (drop_bit 16 w))
      (ucast (drop_bit 24 w))) n = bit w n"
    by cases (auto simp: from_le_bytes32_def bit_simps)
qed

text \<open>\<open>chunks_exact(2)\<close>: a trailing odd byte is dropped.\<close>

fun chunks2 :: "'a list \<Rightarrow> ('a \<times> 'a) list" where
  "chunks2 (a # b # r) = (a, b) # chunks2 r"
| "chunks2 _ = []"

lemma length_chunks2: "length (chunks2 xs) = length xs div 2"
  by (induction xs rule: chunks2.induct) auto

text \<open>The slice \<open>xs.get(i..j)\<close> and the panic-free reads of a byte.\<close>

definition slice_get :: "'a list \<Rightarrow> nat \<Rightarrow> nat \<Rightarrow> 'a list option" where
  "slice_get xs i j = (if i \<le> j \<and> j \<le> length xs then Some (take (j - i) (drop i xs)) else None)"

fun position :: "('a \<Rightarrow> bool) \<Rightarrow> 'a list \<Rightarrow> nat option" where
  "position P [] = None"
| "position P (x # xs) = (if P x then Some 0 else map_option Suc (position P xs))"

lemma position_None [simp]: "position P xs = None \<longleftrightarrow> (\<forall>x \<in> set xs. \<not> P x)"
  by (induction xs) auto

lemma position_Some:
  "position P xs = Some i \<Longrightarrow> i < length xs \<and> P (xs ! i) \<and> (\<forall>x \<in> set (take i xs). \<not> P x)"
proof (induction xs arbitrary: i)
  case Nil
  then show ?case by simp
next
  case (Cons x xs)
  then show ?case by (cases i) (auto split: if_splits)
qed

lemma position_append_skip:
  "\<forall>x \<in> set pre. \<not> P x \<Longrightarrow> P y \<Longrightarrow> position P (pre @ y # ys) = Some (length pre)"
  by (induction pre) auto

text \<open>The additive checksum of the serial protocols, with \<open>wrapping_add\<close>.\<close>

definition wrapping_sum :: "u8 list \<Rightarrow> u8" where
  "wrapping_sum bs = foldl (+) 0 bs"

lemma foldl_plus_acc: "foldl (+) a bs = a + foldl (+) 0 bs" for a :: u8
proof (induction bs arbitrary: a)
  case Nil
  then show ?case by simp
next
  case (Cons b bs)
  have "foldl (+) (a + b) bs = a + b + foldl (+) 0 bs"
    by (rule Cons.IH)
  moreover have "foldl (+) b bs = b + foldl (+) 0 bs"
    by (rule Cons.IH)
  ultimately show ?case by (simp add: add.assoc)
qed

lemma wrapping_sum_simps [simp]:
  "wrapping_sum [] = 0" "wrapping_sum (b # bs) = b + wrapping_sum bs"
  using foldl_plus_acc [of b bs] by (simp_all add: wrapping_sum_def)

lemma wrapping_sum_append: "wrapping_sum (xs @ ys) = wrapping_sum xs + wrapping_sum ys"
  by (induction xs) (simp_all add: add.assoc)

text \<open>One changed byte always changes the sum.\<close>

lemma wrapping_sum_update:
  assumes "i < length bs" and "b \<noteq> bs ! i"
  shows "wrapping_sum (bs[i := b]) \<noteq> wrapping_sum bs"
  using assms
proof (induction bs arbitrary: i)
  case Nil
  then show ?case by simp
next
  case (Cons a bs)
  then show ?case by (cases i) auto
qed

lemma find_append:
  "find P (xs @ ys) = (case find P xs of Some x \<Rightarrow> Some x | None \<Rightarrow> find P ys)"
  by (induction xs) simp_all

section \<open>Strings\<close>

text \<open>
  A Rust string is its UTF-8 bytes: \<open>len()\<close> counts bytes, as \<open>length\<close> does here.
  \<open>ws_len s\<close> is the number of bytes of the \<open>White_Space\<close> code point at the front of
  \<open>s\<close>, 0 if there is none: U+0009..000D, U+0020, U+0085, U+00A0, U+1680,
  U+2000..200A, U+2028, U+2029, U+202F, U+205F and U+3000. The lead bytes tested never occur
  inside another code point of a valid UTF-8 string.
\<close>

definition ws_len :: "string \<Rightarrow> nat" where
  "ws_len s = (case map (of_char :: char \<Rightarrow> nat) (take 3 s) of
       [] \<Rightarrow> 0
     | a # r \<Rightarrow>
         if (9 \<le> a \<and> a \<le> 13) \<or> a = 32 then 1
         else (case r of
             [] \<Rightarrow> 0
           | b # r' \<Rightarrow>
               if a = 194 \<and> (b = 133 \<or> b = 160) then 2
               else (case r' of
                   [] \<Rightarrow> 0
                 | c # _ \<Rightarrow>
                     if (a = 225 \<and> b = 154 \<and> c = 128)
                        \<or> (a = 226 \<and> b = 128 \<and> ((128 \<le> c \<and> c \<le> 138) \<or> c = 168 \<or> c = 169 \<or> c = 175))
                        \<or> (a = 226 \<and> b = 129 \<and> c = 159)
                        \<or> (a = 227 \<and> b = 128 \<and> c = 128)
                     then 3 else 0)))"

lemma ws_len_Nil [simp]: "ws_len [] = 0"
  by (simp add: ws_len_def)

function trim_start :: "string \<Rightarrow> string" where
  "trim_start s = (if ws_len s = 0 then s else trim_start (drop (ws_len s) s))"
  by pat_completeness auto
termination
proof (relation "measure length")
  fix s :: string
  assume "ws_len s \<noteq> 0"
  moreover from this have "s \<noteq> []" by auto
  ultimately show "(drop (ws_len s) s, s) \<in> measure length" by simp
qed simp

declare trim_start.simps [simp del]

definition ws_suffix_len :: "string \<Rightarrow> nat" where
  "ws_suffix_len s = (let n = length s in
     if 1 \<le> n \<and> ws_len (drop (n - 1) s) = 1 then 1
     else if 2 \<le> n \<and> ws_len (drop (n - 2) s) = 2 then 2
     else if 3 \<le> n \<and> ws_len (drop (n - 3) s) = 3 then 3 else 0)"

function trim_end :: "string \<Rightarrow> string" where
  "trim_end s = (if ws_suffix_len s = 0 then s else trim_end (take (length s - ws_suffix_len s) s))"
  by pat_completeness auto
termination
proof (relation "measure length")
  fix s :: string
  assume "ws_suffix_len s \<noteq> 0"
  moreover from this have "s \<noteq> []" by (auto simp: ws_suffix_len_def)
  ultimately show "(take (length s - ws_suffix_len s) s, s) \<in> measure length" by simp
qed simp

declare trim_end.simps [simp del]

definition trim :: "string \<Rightarrow> string" where
  "trim s = trim_end (trim_start s)"

definition has_whitespace :: "string \<Rightarrow> bool" where
  "has_whitespace s = list_ex (\<lambda>i. ws_len (drop i s) \<noteq> 0) [0..<length s]"

lemma trim_start_length: "length (trim_start s) \<le> length s"
proof (induction s rule: trim_start.induct)
  case (1 s)
  then show ?case
    by (cases "ws_len s = 0") (auto simp: trim_start.simps [of s])
qed

lemma trim_end_length: "length (trim_end s) \<le> length s"
proof (induction s rule: trim_end.induct)
  case (1 s)
  then show ?case
    by (cases "ws_suffix_len s = 0") (auto simp: trim_end.simps [of s])
qed

lemma trim_Nil [simp]: "trim [] = []"
  by (simp add: trim_def trim_start.simps trim_end.simps ws_suffix_len_def)

text \<open>\<open>split(c)\<close> and \<open>split_once(c)\<close>.\<close>

fun split_on :: "char \<Rightarrow> string \<Rightarrow> string list" where
  "split_on c [] = [[]]"
| "split_on c (x # xs) =
     (if x = c then [] # split_on c xs
      else (case split_on c xs of [] \<Rightarrow> [[x]] | p # ps \<Rightarrow> (x # p) # ps))"

definition split_once :: "char \<Rightarrow> string \<Rightarrow> (string \<times> string) option" where
  "split_once c s = map_option (\<lambda>i. (take i s, drop (Suc i) s)) (position (\<lambda>x. x = c) s)"

lemma split_on_no_sep: "c \<notin> set s \<Longrightarrow> split_on c s = [s]"
  by (induction s) auto

lemma split_on_sep:
  "c \<notin> set s \<Longrightarrow> split_on c (s @ c # t) = s # split_on c t"
  by (induction s) auto

lemma split_once_sep:
  assumes "c \<notin> set s"
  shows "split_once c (s @ c # t) = Some (s, t)"
proof -
  have "position (\<lambda>x. x = c) (s @ c # t) = Some (length s)"
    using assms by (intro position_append_skip) auto
  then show ?thesis by (simp add: split_once_def)
qed

text \<open>\<open>str::parse\<close> for the unsigned types and \<open>from_str_radix\<close>: one optional plus sign, then
  one or more digits of the radix, and the value must fit.\<close>

definition digit_val :: "char \<Rightarrow> nat option" where
  "digit_val c = (let n = of_char c :: nat in
     if 48 \<le> n \<and> n \<le> 57 then Some (n - 48)
     else if 65 \<le> n \<and> n \<le> 90 then Some (n - 55)
     else if 97 \<le> n \<and> n \<le> 122 then Some (n - 87) else None)"

fun digits_val :: "nat \<Rightarrow> string \<Rightarrow> nat \<Rightarrow> nat option" where
  "digits_val r [] acc = Some acc"
| "digits_val r (c # cs) acc =
     (case digit_val c of
        None \<Rightarrow> None
      | Some d \<Rightarrow> if d < r then digits_val r cs (acc * r + d) else None)"

definition parse_uint :: "nat \<Rightarrow> nat \<Rightarrow> string \<Rightarrow> nat option" where
  "parse_uint r bound s =
     (let ds = (case s of c # cs \<Rightarrow> if c = CHR ''+'' then cs else s | [] \<Rightarrow> []) in
      if ds = [] then None
      else (case digits_val r ds 0 of
              Some v \<Rightarrow> if v < bound then Some v else None
            | None \<Rightarrow> None))"

definition parse_u8 :: "string \<Rightarrow> u8 option" where
  "parse_u8 s = map_option of_nat (parse_uint 10 (2 ^ 8) s)"

definition parse_u16 :: "string \<Rightarrow> u16 option" where
  "parse_u16 s = map_option of_nat (parse_uint 10 (2 ^ 16) s)"

definition parse_u32 :: "string \<Rightarrow> u32 option" where
  "parse_u32 s = map_option of_nat (parse_uint 10 (2 ^ 32) s)"

lemma parse_uint_bound: "parse_uint r b s = Some v \<Longrightarrow> v < b"
  by (auto simp: parse_uint_def Let_def split: option.splits if_splits)

text \<open>Decimal printing of an unsigned integer (\<open>to_string\<close>, \<open>format!\<close>).\<close>

fun show_nat :: "nat \<Rightarrow> string" where
  "show_nat n = (if n < 10 then [char_of (48 + n)] else show_nat (n div 10) @ [char_of (48 + n mod 10)])"

declare show_nat.simps [simp del]

definition is_ascii_digit :: "char \<Rightarrow> bool" where
  "is_ascii_digit c = (let n = of_char c :: nat in 48 \<le> n \<and> n \<le> 57)"

lemma digit_char: "d < 10 \<Longrightarrow> digit_val (char_of (48 + d)) = Some d"
  by (simp add: digit_val_def)

lemma digits_val_append:
  "digits_val r (xs @ ys) acc = Option.bind (digits_val r xs acc) (digits_val r ys)"
  by (induction xs arbitrary: acc) (auto split: option.splits)

lemma digits_val_show_nat: "digits_val 10 (show_nat n) 0 = Some n"
proof (induction n rule: show_nat.induct)
  case (1 n)
  show ?case
  proof (cases "n < 10")
    case True
    then show ?thesis by (simp add: show_nat.simps [of n] digit_char)
  next
    case False
    then show ?thesis
      using 1 by (simp add: show_nat.simps [of n] digits_val_append digit_char)
  qed
qed

lemma show_nat_digits: "\<forall>c \<in> set (show_nat n). is_ascii_digit c"
proof (induction n rule: show_nat.induct)
  case (1 n)
  show ?case
  proof (cases "n < 10")
    case True
    then show ?thesis by (simp add: show_nat.simps [of n] is_ascii_digit_def)
  next
    case False
    then show ?thesis
      using 1 by (simp add: show_nat.simps [of n] is_ascii_digit_def)
  qed
qed

lemma show_nat_nonempty [simp]: "show_nat n \<noteq> []"
  by (simp add: show_nat.simps)

lemma show_nat_no_plus: "CHR ''+'' \<notin> set (show_nat n)"
  using show_nat_digits [of n] by (auto simp: is_ascii_digit_def)

lemma show_nat_no_colon: "CHR '':'' \<notin> set (show_nat n)"
  using show_nat_digits [of n] by (auto simp: is_ascii_digit_def)

text \<open>Printing then parsing gives the number back.\<close>

lemma parse_show_nat: "n < b \<Longrightarrow> parse_uint 10 b (show_nat n) = Some n"
proof -
  assume n: "n < b"
  have "(case show_nat n of c # cs \<Rightarrow> if c = CHR ''+'' then cs else show_nat n | [] \<Rightarrow> []) = show_nat n"
    using show_nat_no_plus [of n] by (cases "show_nat n") auto
  with n show ?thesis
    by (simp add: parse_uint_def digits_val_show_nat)
qed

text \<open>\<open>contains\<close>, \<open>starts_with\<close> and \<open>to_ascii_lowercase\<close>.\<close>

definition starts_with :: "string \<Rightarrow> string \<Rightarrow> bool" where
  "starts_with s p = (take (length p) s = p)"

fun str_contains :: "string \<Rightarrow> string \<Rightarrow> bool" where
  "str_contains [] p = (p = [])"
| "str_contains (c # s) p = (starts_with (c # s) p \<or> str_contains s p)"

definition ascii_lower :: "char \<Rightarrow> char" where
  "ascii_lower c = (let n = of_char c :: nat in if 65 \<le> n \<and> n \<le> 90 then char_of (n + 32) else c)"

definition to_ascii_lowercase :: "string \<Rightarrow> string" where
  "to_ascii_lowercase s = map ascii_lower s"

definition eq_ignore_ascii_case :: "string \<Rightarrow> string \<Rightarrow> bool" where
  "eq_ignore_ascii_case s t = (to_ascii_lowercase s = to_ascii_lowercase t)"

text \<open>\<open>strip_prefix\<close>, \<open>rsplit_once(c)\<close>, \<open>split_once\<close> with a string pattern, and
  \<open>trim_matches\<close> with a set of ASCII characters.\<close>

definition strip_prefix :: "string \<Rightarrow> string \<Rightarrow> string option" where
  "strip_prefix p s = (if take (length p) s = p then Some (drop (length p) s) else None)"

definition rsplit_once :: "char \<Rightarrow> string \<Rightarrow> (string \<times> string) option" where
  "rsplit_once c s = map_option (\<lambda>(a, b). (rev b, rev a)) (split_once c (rev s))"

fun split_once_str :: "string \<Rightarrow> string \<Rightarrow> (string \<times> string) option" where
  "split_once_str p s = (case strip_prefix p s of
       Some t \<Rightarrow> Some ([], t)
     | None \<Rightarrow> (case s of
           [] \<Rightarrow> None
         | x # xs \<Rightarrow> map_option (\<lambda>(a, b). (x # a, b)) (split_once_str p xs)))"

definition trim_matches :: "(char \<Rightarrow> bool) \<Rightarrow> string \<Rightarrow> string" where
  "trim_matches P s = rev (dropWhile P (rev (dropWhile P s)))"

lemma rsplit_once_sep:
  "c \<notin> set t \<Longrightarrow> rsplit_once c (s @ c # t) = Some (s, t)"
  by (simp add: rsplit_once_def split_once_sep)

lemma split_once_Some: "split_once c s = Some (a, b) \<longleftrightarrow> s = a @ c # b \<and> c \<notin> set a"
proof
  assume h: "split_once c s = Some (a, b)"
  then obtain i where i: "position (\<lambda>x. x = c) s = Some i" "a = take i s" "b = drop (Suc i) s"
    by (auto simp: split_once_def)
  from position_Some [OF i(1)] show "s = a @ c # b \<and> c \<notin> set a"
    using i(2,3) id_take_nth_drop [of i s] by auto
next
  assume "s = a @ c # b \<and> c \<notin> set a"
  then show "split_once c s = Some (a, b)" by (simp add: split_once_sep)
qed

lemma split_once_None: "split_once c s = None \<longleftrightarrow> c \<notin> set s"
  by (auto simp: split_once_def)

lemma ws_len_plain: "ws_len (c # s) = 0"
  if "32 < (of_char c :: nat)" "(of_char c :: nat) < 128"
  using that by (auto simp: ws_len_def split: list.splits)

lemma ws_suffix_len_plain: "ws_suffix_len (s @ [c]) = 0"
  if "32 < (of_char c :: nat)" "(of_char c :: nat) < 128"
proof -
  have two: "ws_len [a, c] \<noteq> 2" for a
    using that by (simp add: ws_len_def)
  have three: "ws_len [a, b, c] \<noteq> 3" for a b
    using that by (simp add: ws_len_def)
  have d2: "\<exists>a. drop (length s - 1) s = [a]" if "1 \<le> length s"
    using that by (cases s rule: rev_cases) auto
  have d3: "\<exists>a b. drop (length s - 2) s = [a, b]" if "2 \<le> length s"
  proof -
    have "length (drop (length s - 2) s) = Suc (Suc 0)" using that by simp
    then show ?thesis by (auto simp only: length_Suc_conv length_0_conv)
  qed
  show ?thesis
    using that d2 d3 two three
    by (auto simp: ws_suffix_len_def Let_def ws_len_plain)
qed

lemma trim_plain:
  assumes "s \<noteq> []" "32 < (of_char (hd s) :: nat)" "(of_char (hd s) :: nat) < 128"
    "32 < (of_char (last s) :: nat)" "(of_char (last s) :: nat) < 128"
  shows "trim s = s"
proof -
  have "ws_len s = 0" using assms(1-3) ws_len_plain [of "hd s" "tl s"] by simp
  moreover have "ws_suffix_len s = 0"
    using assms(1,4,5) ws_suffix_len_plain [of "last s" "butlast s"] by simp
  ultimately show ?thesis by (simp add: trim_def trim_start.simps [of s] trim_end.simps [of s])
qed

lemma no_whitespace_ws_len: "\<not> has_whitespace s \<Longrightarrow> ws_len (drop i s) = 0"
  by (cases "i < length s") (auto simp: has_whitespace_def list_ex_iff)

lemma trim_no_whitespace: "\<not> has_whitespace s \<Longrightarrow> trim s = s"
  using no_whitespace_ws_len [of s] no_whitespace_ws_len [of s 0]
  by (simp add: trim_def trim_start.simps [of s] trim_end.simps [of s] ws_suffix_len_def Let_def)

lemma trim_matches_id:
  "s \<noteq> [] \<Longrightarrow> \<not> P (hd s) \<Longrightarrow> \<not> P (last s) \<Longrightarrow> trim_matches P s = s"
  using dropWhile_eq_self_iff [of P s] dropWhile_eq_self_iff [of P "rev s"]
  by (simp add: trim_matches_def hd_rev)

lemma strip_prefix_append [simp]: "strip_prefix p (p @ s) = Some s"
  by (simp add: strip_prefix_def)

lemma parse_u16_show_nat: "n < 65536 \<Longrightarrow> parse_u16 (show_nat n) = Some (of_nat n)"
  by (simp add: parse_u16_def parse_show_nat)

lemma last_show_nat: "32 < (of_char (last (show_nat n)) :: nat)" "(of_char (last (show_nat n)) :: nat) < 128"
  using bspec [OF show_nat_digits last_in_set [OF show_nat_nonempty], of n] by (auto simp: is_ascii_digit_def Let_def)

text \<open>\<open>str::parse::<Ipv4Addr>\<close>: four octets of one to three decimal digits without a leading
  zero. The value is the list of the octets.\<close>

definition parse_octet :: "string \<Rightarrow> u8 option" where
  "parse_octet s =
     (if s = [] \<or> 3 < length s \<or> (1 < length s \<and> hd s = CHR ''0'') then None
      else (case digits_val 10 s 0 of
              Some v \<Rightarrow> if v < 256 then Some (of_nat v) else None
            | None \<Rightarrow> None))"

definition parse_ipv4 :: "string \<Rightarrow> u8 list option" where
  "parse_ipv4 s = (let ps = split_on (CHR ''.'') s in
     if length ps = 4 then those (map parse_octet ps) else None)"

definition parse_socket_addr_v4 :: "string \<Rightarrow> (u8 list \<times> u16) option" where
  "parse_socket_addr_v4 s = (case split_once (CHR '':'') s of
       None \<Rightarrow> None
     | Some (host, port) \<Rightarrow> (case parse_ipv4 host of
           None \<Rightarrow> None
         | Some ip \<Rightarrow>
             if port = [] then None
             else (case digits_val 10 port 0 of
                     Some v \<Rightarrow> if v < 2 ^ 16 then Some (ip, of_nat v) else None
                   | None \<Rightarrow> None)))"

section \<open>State machines\<close>

text \<open>
  A component is driven by a sequence of events; \<open>outputs\<close> lists what it answers. An
  \<open>invariant_system\<close> keeps an invariant at every step. A \<open>simulation\<close> relates it to
  an abstract machine that gives the same answers.
\<close>

fun outputs :: "('s \<Rightarrow> 'e \<Rightarrow> 's) \<Rightarrow> ('s \<Rightarrow> 'e \<Rightarrow> 'o) \<Rightarrow> 's \<Rightarrow> 'e list \<Rightarrow> 'o list" where
  "outputs step out s [] = []"
| "outputs step out s (e # es) = out s e # outputs step out (step s e) es"

locale invariant_system =
  fixes inv :: "'s \<Rightarrow> bool" and step :: "'s \<Rightarrow> 'e \<Rightarrow> 's"
  assumes step_inv: "inv s \<Longrightarrow> inv (step s e)"
begin

lemma run_inv: "inv s \<Longrightarrow> inv (foldl step s es)"
  by (induction es arbitrary: s) (simp_all add: step_inv)

end

locale simulation = invariant_system inv step
  for inv :: "'s \<Rightarrow> bool" and step :: "'s \<Rightarrow> 'e \<Rightarrow> 's" +
  fixes out :: "'s \<Rightarrow> 'e \<Rightarrow> 'o"
    and abs :: "'s \<Rightarrow> 'a" and astep :: "'a \<Rightarrow> 'e \<Rightarrow> 'a" and aout :: "'a \<Rightarrow> 'e \<Rightarrow> 'o"
  assumes step_abs: "inv s \<Longrightarrow> abs (step s e) = astep (abs s) e"
    and out_abs: "inv s \<Longrightarrow> out s e = aout (abs s) e"
begin

lemma run_abs: "inv s \<Longrightarrow> abs (foldl step s es) = foldl astep (abs s) es"
  by (induction es arbitrary: s) (simp_all add: step_inv step_abs)

lemma run_outputs: "inv s \<Longrightarrow> outputs step out s es = outputs astep aout (abs s) es"
  by (induction es arbitrary: s) (simp_all add: step_inv step_abs out_abs)

end

end
