(* ===== verification/Soft_Float.thy ===== *)
theory Soft_Float
  imports Rust_Base
begin

text \<open>
  The floating-point types of Rust, \<open>f32\<close> and \<open>f64\<close>, as their bit patterns with the
  IEEE 754 operations the sources use: decoding into a sign, an integer significand and
  a power of two, rounding to nearest with ties to even, comparison, conversion from and to
  integers and between the two widths, and the arithmetic operations, each rounded once. A
  result that is a NaN is the quiet NaN \<open>f64_nan\<close>; Rust leaves its payload open and no
  theorem of the library depends on it. The library facts are that rounding is exact on
  representable values and that integers below \<open>2 ^ 53\<close> are represented exactly.
\<close>

type_synonym f32 = "32 word"
type_synonym f64 = "64 word"

section \<open>Rounding\<close>

fun ilog2 :: "nat \<Rightarrow> nat" where
  "ilog2 n = (if n < 2 then 0 else Suc (ilog2 (n div 2)))"

declare ilog2.simps [simp del]

text \<open>Round \<open>n / d\<close> to the nearest integer, ties to even.\<close>

definition rne :: "nat \<Rightarrow> nat \<Rightarrow> nat" where
  "rne n d = (let q = n div d; r = n mod d in
     if 2 * r < d then q else if d < 2 * r then q + 1 else if even q then q else q + 1)"

text \<open>The exponent of the leading bit of \<open>n / d\<close>.\<close>

definition flog2 :: "nat \<Rightarrow> nat \<Rightarrow> int" where
  "flog2 n d = (let e = int (ilog2 n) - int (ilog2 d) in
     if (if 0 \<le> e then d * 2 ^ nat e \<le> n else d \<le> n * 2 ^ nat (- e)) then e else e - 1)"

text \<open>
  A format has \<open>p\<close> significand bits, the hidden one included, and \<open>w\<close> exponent bits.
  \<open>round_mag p w n d e\<close> is the magnitude (the bits below the sign) of the value of the
  format nearest to \<open>n / d * 2 ^ e\<close>, for \<open>0 < n\<close>; beyond the largest finite value it is infinity.
\<close>

definition emin :: "nat \<Rightarrow> int" where
  "emin w = 2 - 2 ^ (w - 1)"

definition inf_mag :: "nat \<Rightarrow> nat \<Rightarrow> nat" where
  "inf_mag p w = (2 ^ w - 1) * 2 ^ (p - 1)"

definition round_mag :: "nat \<Rightarrow> nat \<Rightarrow> nat \<Rightarrow> nat \<Rightarrow> int \<Rightarrow> nat" where
  "round_mag p w n d e =
     (let E = max (flog2 n d + e) (emin w);
          sh = E - int (p - 1) - e;
          m = (if sh \<le> 0 then rne (n * 2 ^ nat (- sh)) d else rne n (d * 2 ^ nat sh))
      in min (nat (E - emin w) * 2 ^ (p - 1) + m) (inf_mag p w))"

definition dec_mag :: "nat \<Rightarrow> nat \<Rightarrow> nat \<Rightarrow> nat \<times> int" where
  "dec_mag p w b =
     (let E = b div 2 ^ (p - 1); f = b mod 2 ^ (p - 1) in
      if E = 0 then (f, emin w - int (p - 1))
      else (2 ^ (p - 1) + f, int E + emin w - int p))"

lemma ilog2_bounds: "0 < n \<Longrightarrow> 2 ^ ilog2 n \<le> n \<and> n < 2 * 2 ^ ilog2 n"
proof (induction n rule: ilog2.induct)
  case (1 n)
  show ?case
  proof (cases "n < 2")
    case True
    with 1 show ?thesis by (simp add: ilog2.simps [of n])
  next
    case False
    with 1 have "2 ^ ilog2 (n div 2) \<le> n div 2 \<and> n div 2 < 2 * 2 ^ ilog2 (n div 2)" by simp
    with False show ?thesis by (auto simp: ilog2.simps [of n])
  qed
qed

lemma ilog2_eqI:
  assumes "2 ^ k \<le> n" and "n < 2 * 2 ^ k"
  shows "ilog2 n = k"
proof -
  have "0 < n" using assms(1) by (cases n) auto
  then have b: "2 ^ ilog2 n \<le> n" "n < 2 * 2 ^ ilog2 n" using ilog2_bounds by auto
  have "(2::nat) ^ ilog2 n < 2 ^ Suc k" using b(1) assms(2) by simp
  moreover have "(2::nat) ^ k < 2 ^ Suc (ilog2 n)" using b(2) assms(1) by simp
  ultimately show ?thesis
    by (simp add: power_strict_increasing_iff del: power_Suc)
qed

lemma ilog2_shift: "0 < n \<Longrightarrow> ilog2 (n * 2 ^ k) = ilog2 n + k"
  using ilog2_bounds [of n] by (intro ilog2_eqI) (auto simp: power_add)

lemma ilog2_less: "0 < n \<Longrightarrow> n < 2 ^ k \<Longrightarrow> ilog2 n < k"
proof -
  assume "0 < n" "n < 2 ^ k"
  then have "(2::nat) ^ ilog2 n < 2 ^ k" using ilog2_bounds [of n] by (meson le_less_trans)
  then show ?thesis by (rule power_less_imp_less_exp [rotated]) simp
qed

lemma ilog2_1 [simp]: "ilog2 (Suc 0) = 0" "ilog2 1 = 0"
  by (simp_all add: ilog2.simps)

lemma rne_1 [simp]: "rne n (Suc 0) = n" "rne n 1 = n"
  by (simp_all add: rne_def)

lemma rne_scale:
  assumes "0 < c"
  shows "rne (n * c) (d * c) = rne n d"
proof -
  have "2 * (n * c mod (d * c)) < d * c \<longleftrightarrow> 2 * (n mod d) < d"
    and "d * c < 2 * (n * c mod (d * c)) \<longleftrightarrow> d < 2 * (n mod d)"
    using assms by (simp_all add: mod_mult_mult2 flip: mult.assoc)
  moreover have "n * c div (d * c) = n div d" using assms by simp
  ultimately show ?thesis by (simp add: rne_def Let_def)
qed

lemma flog2_1 [simp]: "0 < n \<Longrightarrow> flog2 n (Suc 0) = int (ilog2 n)"
  using ilog2_bounds [of n] by (simp add: flog2_def)

text \<open>Rounding depends on the value only, not on how it is split into significand and exponent.\<close>

lemma round_mag_shift:
  assumes "0 < n"
  shows "round_mag p w (n * 2 ^ k) (Suc 0) (e - int k) = round_mag p w n (Suc 0) e"
proof -
  define E where "E = max (int (ilog2 n) + e) (emin w)"
  define sh where "sh = E - int (p - 1) - e"
  have fl: "flog2 (n * 2 ^ k) (Suc 0) + (e - int k) = int (ilog2 n) + e"
    using assms by (simp add: ilog2_shift)
  have "(if sh + int k \<le> 0 then rne (n * 2 ^ k * 2 ^ nat (- (sh + int k))) (Suc 0)
          else rne (n * 2 ^ k) (Suc 0 * 2 ^ nat (sh + int k)))
      = (if sh \<le> 0 then rne (n * 2 ^ nat (- sh)) (Suc 0) else rne n (Suc 0 * 2 ^ nat sh))"
  proof -
    consider "sh + int k \<le> 0" | "sh \<le> 0" "0 < sh + int k" | "0 < sh" by linarith
    then show ?thesis
    proof cases
      case 1
      then have "nat (- sh) = k + nat (- (sh + int k))" by simp
      with 1 show ?thesis by (simp add: power_add)
    next
      case 2
      then have k: "k = nat (- sh) + nat (sh + int k)" by simp
      have "n * 2 ^ k = n * 2 ^ nat (- sh) * 2 ^ nat (sh + int k)"
        by (subst k) (simp add: power_add)
      then have "rne (n * 2 ^ k) (2 ^ nat (sh + int k))
          = rne (n * 2 ^ nat (- sh) * 2 ^ nat (sh + int k)) (1 * 2 ^ nat (sh + int k))"
        by (simp only: mult_1)
      also have "\<dots> = rne (n * 2 ^ nat (- sh)) 1"
        by (rule rne_scale) simp
      finally have "rne (n * 2 ^ k) (2 ^ nat (sh + int k)) = rne (n * 2 ^ nat (- sh)) 1" .
      with 2 show ?thesis by simp
    next
      case 3
      then have "nat (sh + int k) = nat sh + k" by simp
      with 3 show ?thesis
        using rne_scale [of "2 ^ k" n "2 ^ nat sh"] by (simp add: power_add)
    qed
  qed
  moreover have "max (flog2 (n * 2 ^ k) (Suc 0) + (e - int k)) (emin w) = E"
    by (simp only: fl E_def)
  moreover have "max (flog2 n (Suc 0) + e) (emin w) = E"
    using assms by (simp add: E_def)
  moreover have "E - int (p - 1) - (e - int k) = sh + int k"
    by (simp add: sh_def)
  ultimately show ?thesis
    by (simp only: round_mag_def Let_def sh_def [symmetric])
qed

text \<open>Rounding a decoded value gives its bits back.\<close>

lemma round_dec_mag:
  assumes "dec_mag p w b = (m, e)" and "0 < m" and "b \<le> inf_mag p w" and "1 < p"
  shows "round_mag p w m (Suc 0) e = b"
proof (cases "b div 2 ^ (p - 1) = 0")
  case True
  with assms have m: "m = b" and e: "e = emin w - int (p - 1)" and lt: "b < 2 ^ (p - 1)"
    by (auto simp: dec_mag_def Let_def div_eq_0_iff)
  have "ilog2 b < p - 1" using lt assms(2) m by (auto intro: ilog2_less)
  then have "max (int (ilog2 b) + e) (emin w) = emin w" using e by simp
  with m e assms(2,3) show ?thesis by (simp add: round_mag_def)
next
  case False
  define E where "E = b div 2 ^ (p - 1)"
  define f where "f = b mod 2 ^ (p - 1)"
  have bE: "b = E * 2 ^ (p - 1) + f" unfolding E_def f_def by (rule div_mult_mod_eq [symmetric])
  from False assms have m: "m = 2 ^ (p - 1) + f" and e: "e = int E + emin w - int p"
    by (auto simp: dec_mag_def Let_def E_def f_def)
  have "f < 2 ^ (p - 1)" by (simp add: f_def)
  then have "ilog2 m = p - 1" unfolding m by (intro ilog2_eqI) auto
  moreover have "1 \<le> E" using False by (simp add: E_def)
  ultimately have E': "max (int (ilog2 m) + e) (emin w) = emin w + (int E - 1)"
    using e assms(4) by (simp add: of_nat_diff)
  have sh: "emin w + (int E - 1) - int (p - 1) - e = 0"
    using e assms(4) by (simp add: of_nat_diff)
  have "nat (int E - 1) * 2 ^ (p - 1) + m = b"
    using \<open>1 \<le> E\<close> bE m by (cases E) auto
  then show ?thesis
    using assms(2,3) E' sh by (simp add: round_mag_def Let_def)
qed

lemma div_mod_digit:
  "r < c \<Longrightarrow> (a * c + r) div c = a" "r < c \<Longrightarrow> (a * c + r) mod c = r" for a c r :: nat
  by simp_all

text \<open>A significand that fits is represented exactly, normalised to \<open>p\<close> bits.\<close>

lemma round_mag_exact:
  assumes "0 < m" and "m < 2 ^ p" and "1 < p" and "0 < w"
    and L: "L = ilog2 m" and lo: "emin w \<le> int L + e" and hi: "int L + e \<le> 2 ^ (w - 1) - 1"
  shows "round_mag p w m (Suc 0) e = nat (int L + e - emin w) * 2 ^ (p - 1) + m * 2 ^ (p - 1 - L)"
    and "nat (int L + e - emin w) * 2 ^ (p - 1) + m * 2 ^ (p - 1 - L) < inf_mag p w"
    and "dec_mag p w (round_mag p w m (Suc 0) e)
      = (m * 2 ^ (p - 1 - L), e - int (p - 1 - L))"
proof -
  define E where "E = int L + e"
  define mm where "mm = m * 2 ^ (p - 1 - L)"
  have Lp: "L \<le> p - 1" using ilog2_less [OF assms(1,2)] L by simp
  have b: "2 ^ L \<le> m" "m < 2 * 2 ^ L" using ilog2_bounds [OF assms(1)] L by auto
  have pow: "(2::nat) ^ (p - 1) = 2 ^ L * 2 ^ (p - 1 - L)" using Lp by (simp flip: power_add)
  have mm: "2 ^ (p - 1) \<le> mm" "mm < 2 * 2 ^ (p - 1)"
    using b unfolding mm_def pow by simp_all
  have max: "max E (emin w) = E" using lo by (simp add: E_def)
  have sh: "E - int (p - 1) - e = - int (p - 1 - L)" using Lp by (simp add: E_def of_nat_diff)
  have wpow: "(2::int) ^ w = 2 * 2 ^ (w - 1)" using assms(4) by (simp flip: power_Suc)
  have "E - emin w \<le> 2 ^ w - 3" using hi wpow by (simp add: E_def emin_def)
  then have "nat (E - emin w) + 2 \<le> nat (2 ^ w - 1)" using lo by (simp add: E_def)
  then have nE: "nat (E - emin w) + 2 \<le> 2 ^ w - 1" by (simp add: nat_diff_distrib nat_power_eq)
  show lt: "nat (int L + e - emin w) * 2 ^ (p - 1) + m * 2 ^ (p - 1 - L) < inf_mag p w"
  proof -
    have "nat (E - emin w) * 2 ^ (p - 1) + mm < (nat (E - emin w) + 2) * 2 ^ (p - 1)"
      using mm(2) by (simp add: algebra_simps)
    also have "\<dots> \<le> (2 ^ w - 1) * 2 ^ (p - 1)" using nE by (rule mult_le_mono1)
    finally show ?thesis by (simp add: inf_mag_def E_def mm_def)
  qed
  show val: "round_mag p w m (Suc 0) e
      = nat (int L + e - emin w) * 2 ^ (p - 1) + m * 2 ^ (p - 1 - L)"
    using lt max sh assms(1) L unfolding E_def by (simp add: round_mag_def Let_def)
  have "round_mag p w m (Suc 0) e = (nat (E - emin w) + 1) * 2 ^ (p - 1) + (mm - 2 ^ (p - 1))"
    using mm(1) unfolding val by (simp add: E_def mm_def algebra_simps)
  moreover have "mm - 2 ^ (p - 1) < 2 ^ (p - 1)" using mm by simp
  ultimately have "round_mag p w m (Suc 0) e div 2 ^ (p - 1) = nat (E - emin w) + 1"
    and "round_mag p w m (Suc 0) e mod 2 ^ (p - 1) = mm - 2 ^ (p - 1)"
    by (simp_all only: div_mod_digit)
  then show "dec_mag p w (round_mag p w m (Suc 0) e)
      = (m * 2 ^ (p - 1 - L), e - int (p - 1 - L))"
    using mm(1) Lp assms(3) lo
    by (simp add: dec_mag_def Let_def E_def mm_def of_nat_diff)
qed

section \<open>The two formats\<close>

definition f64_sign :: "f64 \<Rightarrow> bool" where
  "f64_sign x = (2 ^ 63 \<le> unat x)"

definition f64_mag :: "f64 \<Rightarrow> nat" where
  "f64_mag x = unat x mod 2 ^ 63"

definition f64_make :: "bool \<Rightarrow> nat \<Rightarrow> f64" where
  "f64_make s b = of_nat (b + (if s then 2 ^ 63 else 0))"

definition f32_sign :: "f32 \<Rightarrow> bool" where
  "f32_sign x = (2 ^ 31 \<le> unat x)"

definition f32_mag :: "f32 \<Rightarrow> nat" where
  "f32_mag x = unat x mod 2 ^ 31"

definition f32_make :: "bool \<Rightarrow> nat \<Rightarrow> f32" where
  "f32_make s b = of_nat (b + (if s then 2 ^ 31 else 0))"

abbreviation f64_inf_mag :: nat where
  "f64_inf_mag \<equiv> inf_mag 53 11"

abbreviation f32_inf_mag :: nat where
  "f32_inf_mag \<equiv> inf_mag 24 8"

definition f64_nan :: f64 where
  "f64_nan = 0x7FF8000000000000"

definition f64_is_nan :: "f64 \<Rightarrow> bool" where
  "f64_is_nan x = (f64_inf_mag < f64_mag x)"

definition f64_is_inf :: "f64 \<Rightarrow> bool" where
  "f64_is_inf x = (f64_mag x = f64_inf_mag)"

definition f64_is_finite :: "f64 \<Rightarrow> bool" where
  "f64_is_finite x = (f64_mag x < f64_inf_mag)"

definition f32_is_finite :: "f32 \<Rightarrow> bool" where
  "f32_is_finite x = (f32_mag x < f32_inf_mag)"

abbreviation f64_dec :: "f64 \<Rightarrow> nat \<times> int" where
  "f64_dec x \<equiv> dec_mag 53 11 (f64_mag x)"

abbreviation f32_dec :: "f32 \<Rightarrow> nat \<times> int" where
  "f32_dec x \<equiv> dec_mag 24 8 (f32_mag x)"

lemma inf_mag_numerals [simp]:
  "inf_mag 53 11 = 2047 * 2 ^ 52" "inf_mag 24 8 = 255 * 2 ^ 23"
  by (simp_all add: inf_mag_def)

lemma f64_mag_less: "f64_mag x < 2 ^ 63"
  by (simp add: f64_mag_def)

lemma f64_make_sign_mag [simp]: "f64_make (f64_sign x) (f64_mag x) = x"
proof -
  have lt: "unat x < 2 ^ 64" using unsigned_less [of x] by simp
  have "unat x mod 2 ^ 63 + (if 2 ^ 63 \<le> unat x then 2 ^ 63 else 0) = unat x"
  proof (cases "2 ^ 63 \<le> unat x")
    case True
    then have "unat x mod 2 ^ 63 = unat x - 2 ^ 63"
      using lt by (simp add: mod_if)
    with True show ?thesis by simp
  qed simp
  then show ?thesis by (simp add: f64_make_def f64_sign_def f64_mag_def)
qed

lemma f64_make_parts:
  assumes "b < 2 ^ 63"
  shows "f64_mag (f64_make s b) = b" "f64_sign (f64_make s b) = s"
proof -
  have u: "unat (f64_make s b) = b + (if s then 2 ^ 63 else 0)"
    unfolding f64_make_def unat_of_nat using assms by simp
  show "f64_mag (f64_make s b) = b"
    using assms by (simp add: f64_mag_def u)
  show "f64_sign (f64_make s b) = s"
    using assms by (simp add: f64_sign_def u)
qed

section \<open>Comparison\<close>

text \<open>Sign and magnitude order the non-NaN values; the two zeros have the same key.\<close>

definition f64_key :: "f64 \<Rightarrow> int" where
  "f64_key x = (if f64_sign x then - int (f64_mag x) else int (f64_mag x))"

definition f64_eq :: "f64 \<Rightarrow> f64 \<Rightarrow> bool" where
  "f64_eq x y = (\<not> f64_is_nan x \<and> \<not> f64_is_nan y \<and> f64_key x = f64_key y)"

definition f64_lt :: "f64 \<Rightarrow> f64 \<Rightarrow> bool" where
  "f64_lt x y = (\<not> f64_is_nan x \<and> \<not> f64_is_nan y \<and> f64_key x < f64_key y)"

definition f64_le :: "f64 \<Rightarrow> f64 \<Rightarrow> bool" where
  "f64_le x y = (\<not> f64_is_nan x \<and> \<not> f64_is_nan y \<and> f64_key x \<le> f64_key y)"

lemma f64_le_refl: "f64_le x x \<longleftrightarrow> \<not> f64_is_nan x"
  by (auto simp: f64_le_def)

lemma f64_le_trans: "f64_le x y \<Longrightarrow> f64_le y z \<Longrightarrow> f64_le x z"
  by (auto simp: f64_le_def)

lemma f64_total: "\<not> f64_is_nan x \<Longrightarrow> \<not> f64_is_nan y \<Longrightarrow> f64_le x y \<or> f64_lt y x"
  by (auto simp: f64_le_def f64_lt_def)

section \<open>Arithmetic\<close>

text \<open>A finite value as a signed significand and an exponent.\<close>

definition f64_num :: "f64 \<Rightarrow> int \<times> int" where
  "f64_num x = (let (m, e) = f64_dec x in (if f64_sign x then - int m else int m, e))"

text \<open>\<open>f64_round z n d e\<close> rounds \<open>n / d * 2 ^ e\<close>; \<open>z\<close> is the sign of a zero result.\<close>

definition f64_round :: "bool \<Rightarrow> int \<Rightarrow> nat \<Rightarrow> int \<Rightarrow> f64" where
  "f64_round z n d e =
     (if n = 0 then f64_make z 0
      else f64_make (n < 0) (round_mag 53 11 (nat \<bar>n\<bar>) d e))"

definition dy_add :: "int \<times> int \<Rightarrow> int \<times> int \<Rightarrow> int \<times> int" where
  "dy_add x y = (case (x, y) of ((m, e), (n, f)) \<Rightarrow>
     if m = 0 then (n, f) else if n = 0 then (m, e)
     else if e \<le> f then (m + n * 2 ^ nat (f - e), e)
     else (m * 2 ^ nat (e - f) + n, f))"

definition f64_neg :: "f64 \<Rightarrow> f64" where
  "f64_neg x = f64_make (\<not> f64_sign x) (f64_mag x)"

definition f64_abs :: "f64 \<Rightarrow> f64" where
  "f64_abs x = f64_make False (f64_mag x)"

definition f64_add :: "f64 \<Rightarrow> f64 \<Rightarrow> f64" where
  "f64_add x y =
     (if f64_is_nan x \<or> f64_is_nan y then f64_nan
      else if f64_is_inf x then (if f64_is_inf y \<and> f64_sign x \<noteq> f64_sign y then f64_nan else x)
      else if f64_is_inf y then y
      else (case dy_add (f64_num x) (f64_num y) of
              (n, e) \<Rightarrow> f64_round (f64_sign x \<and> f64_sign y) n 1 e))"

definition f64_sub :: "f64 \<Rightarrow> f64 \<Rightarrow> f64" where
  "f64_sub x y = f64_add x (f64_neg y)"

definition f64_mul :: "f64 \<Rightarrow> f64 \<Rightarrow> f64" where
  "f64_mul x y = (let s = (f64_sign x \<noteq> f64_sign y) in
     if f64_is_nan x \<or> f64_is_nan y then f64_nan
     else if f64_is_inf x \<or> f64_is_inf y
       then (if f64_mag x = 0 \<or> f64_mag y = 0 then f64_nan else f64_make s f64_inf_mag)
     else (case (f64_num x, f64_num y) of
             ((m, e), (n, f)) \<Rightarrow> f64_round s (m * n) 1 (e + f)))"

definition f64_div :: "f64 \<Rightarrow> f64 \<Rightarrow> f64" where
  "f64_div x y = (let s = (f64_sign x \<noteq> f64_sign y) in
     if f64_is_nan x \<or> f64_is_nan y then f64_nan
     else if f64_is_inf x then (if f64_is_inf y then f64_nan else f64_make s f64_inf_mag)
     else if f64_is_inf y then f64_make s 0
     else if f64_mag y = 0 then (if f64_mag x = 0 then f64_nan else f64_make s f64_inf_mag)
     else (case (f64_num x, f64_num y) of
             ((m, e), (n, f)) \<Rightarrow> f64_round s (if s then - \<bar>m\<bar> else \<bar>m\<bar>) (nat \<bar>n\<bar>) (e - f)))"

text \<open>\<open>a.mul_add(b, c)\<close>: one rounding of \<open>a * b + c\<close>.\<close>

definition f64_mul_add :: "f64 \<Rightarrow> f64 \<Rightarrow> f64 \<Rightarrow> f64" where
  "f64_mul_add x y c = (let s = (f64_sign x \<noteq> f64_sign y) in
     if f64_is_nan x \<or> f64_is_nan y \<or> f64_is_nan c then f64_nan
     else if f64_is_inf x \<or> f64_is_inf y
       then (if f64_mag x = 0 \<or> f64_mag y = 0 then f64_nan
             else if f64_is_inf c \<and> f64_sign c \<noteq> s then f64_nan
             else f64_make s f64_inf_mag)
     else if f64_is_inf c then c
     else (case (f64_num x, f64_num y) of
             ((m, e), (n, f)) \<Rightarrow>
               (case dy_add (m * n, e + f) (f64_num c) of
                  (k, g) \<Rightarrow> f64_round (s \<and> f64_sign c) k 1 g)))"

section \<open>Conversions\<close>

definition f64_of_int :: "int \<Rightarrow> f64" where
  "f64_of_int i = f64_round False i 1 0"

text \<open>The integer part, towards zero, of a finite value.\<close>

definition f64_trunc_int :: "f64 \<Rightarrow> int" where
  "f64_trunc_int x = (let (m, e) = f64_dec x;
       t = (if 0 \<le> e then int m * 2 ^ nat e else int m div 2 ^ nat (- e))
     in if f64_sign x then - t else t)"

definition f64_trunc :: "f64 \<Rightarrow> f64" where
  "f64_trunc x = (if f64_is_finite x then f64_round (f64_sign x) (f64_trunc_int x) 1 0 else x)"

text \<open>\<open>fract()\<close> is \<open>self - self.trunc()\<close>.\<close>

definition f64_fract :: "f64 \<Rightarrow> f64" where
  "f64_fract x = f64_sub x (f64_trunc x)"

text \<open>\<open>as\<close> casts to an integer type truncate, saturate and send NaN to zero.\<close>

definition f64_as_int :: "int \<Rightarrow> int \<Rightarrow> f64 \<Rightarrow> int" where
  "f64_as_int lo hi x =
     (if f64_is_nan x then 0
      else if f64_is_inf x then (if f64_sign x then lo else hi)
      else max lo (min hi (f64_trunc_int x)))"

definition f64_of_f32 :: "f32 \<Rightarrow> f64" where
  "f64_of_f32 x =
     (if f32_inf_mag < f32_mag x then f64_nan
      else if f32_mag x = f32_inf_mag then f64_make (f32_sign x) f64_inf_mag
      else (case f32_dec x of (m, e) \<Rightarrow>
              f64_round (f32_sign x) (if f32_sign x then - int m else int m) 1 e))"

definition f32_nan :: f32 where
  "f32_nan = 0x7FC00000"

definition f32_of_f64 :: "f64 \<Rightarrow> f32" where
  "f32_of_f64 x =
     (if f64_is_nan x then f32_nan
      else if f64_is_inf x then f32_make (f64_sign x) f32_inf_mag
      else (case f64_dec x of (m, e) \<Rightarrow>
              if m = 0 then f32_make (f64_sign x) 0
              else f32_make (f64_sign x) (round_mag 24 8 m 1 e)))"

definition f64_zero :: f64 where
  "f64_zero = 0"

definition f64_one :: f64 where
  "f64_one = 0x3FF0000000000000"

section \<open>Exactness\<close>

lemma f64_finite_mag: "f64_is_finite x \<Longrightarrow> \<not> f64_is_nan x \<and> \<not> f64_is_inf x"
  by (auto simp: f64_is_finite_def f64_is_nan_def f64_is_inf_def)

lemma dec_mag_0: "fst (dec_mag p w b) = 0 \<longleftrightarrow> b = 0"
proof -
  have "b div 2 ^ (p - 1) = 0 \<Longrightarrow> b mod 2 ^ (p - 1) = b" by (simp add: div_eq_0_iff)
  then show ?thesis by (cases "b = 0") (auto simp: dec_mag_def Let_def)
qed

lemma f64_num_0: "fst (f64_num x) = 0 \<longleftrightarrow> f64_mag x = 0"
  using dec_mag_0 [of 53 11 "f64_mag x"] by (auto simp: f64_num_def split: prod.splits)

lemma f64_round_num:
  assumes "f64_is_finite x" and "f64_num x = (m, e)" and "m \<noteq> 0"
  shows "f64_round z (m * 2 ^ k) 1 (e - int k) = x"
proof -
  obtain n where n: "f64_dec x = (n, e)" and m: "m = (if f64_sign x then - int n else int n)"
    using assms(2) by (cases "f64_dec x") (auto simp: f64_num_def)
  have "0 < n" using assms(3) m by (cases "n = 0") (simp_all split: if_splits)
  have abs: "nat \<bar>m * 2 ^ k\<bar> = n * 2 ^ k" using m by (simp add: abs_mult nat_mult_distrib nat_power_eq)
  have sgn: "m * 2 ^ k < 0 \<longleftrightarrow> f64_sign x" using m \<open>0 < n\<close> by (simp add: mult_less_0_iff)
  have "round_mag 53 11 (n * 2 ^ k) (Suc 0) (e - int k) = f64_mag x"
    using round_mag_shift [OF \<open>0 < n\<close>] round_dec_mag [OF n \<open>0 < n\<close>] assms(1)
    by (simp add: f64_is_finite_def)
  then show ?thesis using assms(3) by (simp add: f64_round_def abs sgn)
qed

lemma f64_num_one: "f64_num f64_one = (2 ^ 52, - 52)"
  by (simp add: f64_num_def f64_mag_def f64_sign_def dec_mag_def emin_def f64_one_def)

lemma f64_one_finite: "f64_is_finite f64_one" "\<not> f64_sign f64_one"
  by (simp_all add: f64_is_finite_def f64_mag_def f64_sign_def f64_one_def)

lemma f64_zero_parts [simp]:
  "f64_mag f64_zero = 0" "\<not> f64_sign f64_zero" "f64_is_finite f64_zero"
  by (simp_all add: f64_zero_def f64_mag_def f64_sign_def f64_is_finite_def)

lemma f64_make_0: "f64_make False 0 = f64_zero"
  by (simp add: f64_make_def f64_zero_def)

text \<open>Scale 1 and offset 0 leave every finite value unchanged, but for the sign of zero.\<close>

lemma f64_mul_add_id:
  assumes "f64_is_finite x"
  shows "f64_mul_add x f64_one f64_zero = (if f64_mag x = 0 then f64_zero else x)"
proof -
  obtain m e where num: "f64_num x = (m, e)" by (cases "f64_num x")
  obtain g where z: "f64_num f64_zero = (0, g)"
    using f64_num_0 [of f64_zero] by (cases "f64_num f64_zero") auto
  have fin: "\<not> f64_is_nan x" "\<not> f64_is_inf x" "\<not> f64_is_nan f64_one" "\<not> f64_is_inf f64_one"
    "\<not> f64_is_nan f64_zero" "\<not> f64_is_inf f64_zero"
    using assms f64_one_finite(1) f64_zero_parts(3) f64_finite_mag by blast+
  have m0: "m = 0 \<longleftrightarrow> f64_mag x = 0" using f64_num_0 [of x] num by simp
  show ?thesis
  proof (cases "m = 0")
    case True
    then show ?thesis
      using fin num z m0
      by (simp add: f64_mul_add_def Let_def f64_num_one dy_add_def f64_round_def f64_make_0)
  next
    case False
    then show ?thesis
      using fin num z m0 f64_round_num [OF assms num False, of _ 52]
      by (simp add: f64_mul_add_def Let_def f64_num_one dy_add_def)
  qed
qed

lemma f64_neg_parts:
  "f64_mag (f64_neg x) = f64_mag x" "f64_sign (f64_neg x) \<longleftrightarrow> \<not> f64_sign x"
  unfolding f64_neg_def using f64_make_parts [OF f64_mag_less] by simp_all

lemma f64_sub_self:
  assumes "f64_is_finite x"
  shows "f64_sub x x = f64_zero"
proof -
  obtain m e where num: "f64_num x = (m, e)" by (cases "f64_num x")
  have neg: "f64_num (f64_neg x) = (- m, e)"
    using num by (auto simp: f64_num_def f64_neg_parts split: prod.splits if_splits)
  have "\<not> f64_is_nan x" "\<not> f64_is_inf x" "\<not> f64_is_nan (f64_neg x)" "\<not> f64_is_inf (f64_neg x)"
    using f64_finite_mag [OF assms] by (simp_all add: f64_is_nan_def f64_is_inf_def f64_neg_parts)
  then show ?thesis
    using num neg
    by (simp add: f64_sub_def f64_add_def dy_add_def f64_neg_parts f64_round_def f64_make_0)
qed

text \<open>Integers below \<open>2 ^ 53\<close> in absolute value are represented exactly.\<close>

lemma f64_of_int_exact:
  assumes "\<bar>i\<bar> < 2 ^ 53"
  shows "f64_is_finite (f64_of_int i)" and "f64_trunc_int (f64_of_int i) = i"
    and "f64_sign (f64_of_int i) = (i < 0)" and "f64_mag (f64_of_int i) = 0 \<longleftrightarrow> i = 0"
proof -
  have "f64_is_finite (f64_of_int i) \<and> f64_trunc_int (f64_of_int i) = i
      \<and> f64_sign (f64_of_int i) = (i < 0) \<and> (f64_mag (f64_of_int i) = 0 \<longleftrightarrow> i = 0)"
  proof (cases "i = 0")
    case True
    then show ?thesis
      by (simp add: f64_of_int_def f64_round_def f64_make_0 f64_trunc_int_def dec_mag_def)
  next
    case False
    define m where "m = nat \<bar>i\<bar>"
    define L where "L = ilog2 m"
    have m: "0 < m" "m < 2 ^ 53" using False assms by (auto simp: m_def)
    have Lb: "L \<le> 52" using ilog2_less [OF m] by (simp add: L_def)
    have em: "emin 11 \<le> int L + 0" "int L + 0 \<le> 2 ^ (11 - 1) - 1" using Lb by (simp_all add: emin_def)
    note ex = round_mag_exact [OF m _ _ L_def em]
    have mag: "f64_of_int i = f64_make (i < 0) (round_mag 53 11 m (Suc 0) 0)"
      using False by (simp add: f64_of_int_def f64_round_def m_def)
    have fin: "round_mag 53 11 m (Suc 0) 0 < inf_mag 53 11" using ex(1,2) by simp
    then have lt: "round_mag 53 11 m (Suc 0) 0 < 2 ^ 63" by simp
    define j where "j = 52 - L"
    have dec: "dec_mag 53 11 (round_mag 53 11 m (Suc 0) 0) = (m * 2 ^ j, - int j)"
      using ex(3) by (simp add: j_def)
    have nz: "round_mag 53 11 m (Suc 0) 0 \<noteq> 0"
      using dec_mag_0 [of 53 11 "round_mag 53 11 m (Suc 0) 0"] dec m(1) by simp
    have t: "(if 0 \<le> - int j then int (m * 2 ^ j) * 2 ^ nat (- int j)
        else int (m * 2 ^ j) div 2 ^ nat (- (- int j))) = int m"
      by simp
    have "f64_trunc_int (f64_of_int i) = (if i < 0 then - int m else int m)"
      unfolding f64_trunc_int_def mag f64_make_parts [OF lt] dec by (simp only: Let_def prod.case t)
    then have "f64_trunc_int (f64_of_int i) = i" by (simp add: m_def)
    then show ?thesis
      using fin nz False by (simp add: mag f64_make_parts [OF lt] f64_is_finite_def)
  qed
  then show "f64_is_finite (f64_of_int i)" "f64_trunc_int (f64_of_int i) = i"
    "f64_sign (f64_of_int i) = (i < 0)" "f64_mag (f64_of_int i) = 0 \<longleftrightarrow> i = 0" by simp_all
qed

lemma f64_of_int_0 [simp]: "f64_of_int 0 = f64_zero"
  by (simp add: f64_of_int_def f64_round_def f64_make_0)

lemma f64_of_int_mul_add_id:
  "\<bar>i\<bar> < 2 ^ 53 \<Longrightarrow> f64_mul_add (f64_of_int i) f64_one f64_zero = f64_of_int i"
  using f64_mul_add_id f64_of_int_exact(1,4) by fastforce

lemma f64_of_int_fract:
  assumes "\<bar>i\<bar> < 2 ^ 53"
  shows "f64_fract (f64_of_int i) = f64_zero"
proof -
  have "f64_trunc (f64_of_int i) = f64_of_int i"
    using f64_of_int_exact [OF assms]
    by (cases "i = 0") (simp_all add: f64_trunc_def f64_of_int_def f64_round_def)
  then show ?thesis
    using f64_of_int_exact(1) [OF assms] by (simp add: f64_fract_def f64_sub_self)
qed

lemma f64_of_int_as_int:
  assumes "\<bar>i\<bar> < 2 ^ 53" and "lo \<le> i" and "i \<le> hi"
  shows "f64_as_int lo hi (f64_of_int i) = i"
  using assms f64_of_int_exact [OF assms(1)] f64_finite_mag [OF f64_of_int_exact(1) [OF assms(1)]]
  by (simp add: f64_as_int_def)

section \<open>Order, limits and single precision\<close>

text \<open>A power of two in the denominator only moves the exponent.\<close>

lemma round_mag_pow2_den:
  assumes "0 < n"
  shows "round_mag p w n (2 ^ k) (e + int k) = round_mag p w n (Suc 0) e"
proof -
  have log: "ilog2 (2 ^ k) = k" using ilog2_shift [of 1 k] by simp
  have "2 ^ k * 2 ^ nat (int (ilog2 n) - int k) \<le> n" if "k \<le> ilog2 n"
    using ilog2_bounds [OF assms] that by (simp add: nat_diff_distrib flip: power_add)
  moreover have "2 ^ k \<le> n * 2 ^ nat (int k - int (ilog2 n))" if "ilog2 n < k"
  proof -
    have "(2 :: nat) ^ k = 2 ^ ilog2 n * 2 ^ (k - ilog2 n)" using that by (simp flip: power_add)
    then show ?thesis using ilog2_bounds [OF assms] that by (simp add: nat_diff_distrib)
  qed
  ultimately have fl: "flog2 n (2 ^ k) + (e + int k) = int (ilog2 n) + e"
    by (auto simp: flog2_def Let_def log)
  define E where "E = max (int (ilog2 n) + e) (emin w)"
  define sh where "sh = E - int (p - 1) - e"
  have sh': "E - int (p - 1) - (e + int k) = sh - int k" by (simp add: sh_def)
  have "(if sh - int k \<le> 0 then rne (n * 2 ^ nat (- (sh - int k))) (2 ^ k)
          else rne n (2 ^ k * 2 ^ nat (sh - int k)))
      = (if sh \<le> 0 then rne (n * 2 ^ nat (- sh)) (Suc 0) else rne n (Suc 0 * 2 ^ nat sh))"
  proof (cases "sh \<le> 0")
    case True
    then have "nat (- (sh - int k)) = nat (- sh) + k" by simp
    then have "n * 2 ^ nat (- (sh - int k)) = n * 2 ^ nat (- sh) * 2 ^ k" by (simp only: power_add mult.assoc)
    then have "rne (n * 2 ^ nat (- (sh - int k))) (2 ^ k) = rne (n * 2 ^ nat (- sh)) (Suc 0)"
      using rne_scale [of "2 ^ k" "n * 2 ^ nat (- sh)" "Suc 0"] by (simp only: mult_Suc mult_0 add_0_right) simp
    with True show ?thesis by simp
  next
    case False
    show ?thesis
    proof (cases "sh \<le> int k")
      case True
      define c where "c = nat (int k - sh)"
      have "k = nat sh + c" using False True by (simp add: c_def)
      then have "(2 :: nat) ^ k = 2 ^ nat sh * 2 ^ c" by (simp only: power_add)
      moreover have "nat (- (sh - int k)) = c" by (simp add: c_def)
      ultimately show ?thesis using False True rne_scale [of "2 ^ c" n "2 ^ nat sh"] by simp
    next
      case gt: False
      then have "k + nat (sh - int k) = nat sh" by simp
      then have "(2 :: nat) ^ k * 2 ^ nat (sh - int k) = 2 ^ nat sh" by (simp only: power_add [symmetric])
      with gt False show ?thesis by simp
    qed
  qed
  then show ?thesis
    unfolding round_mag_def Let_def fl flog2_1 [OF assms] E_def [symmetric] sh' sh_def [symmetric] by simp
qed

lemma f64_finite_neg: "f64_is_finite (f64_neg x) \<longleftrightarrow> f64_is_finite x"
  by (simp add: f64_is_finite_def f64_neg_parts)

lemma f64_sub_zero:
  assumes "f64_is_finite x"
  shows "f64_sub x f64_zero = x"
proof -
  obtain m e where num: "f64_num x = (m, e)" by (cases "f64_num x")
  obtain g where z: "f64_num (f64_neg f64_zero) = (0, g)"
    using f64_num_0 [of "f64_neg f64_zero"]
    by (cases "f64_num (f64_neg f64_zero)") (auto simp: f64_neg_parts)
  have fin: "\<not> f64_is_nan x" "\<not> f64_is_inf x" "\<not> f64_is_nan (f64_neg f64_zero)" "\<not> f64_is_inf (f64_neg f64_zero)"
    using f64_finite_mag [OF assms] f64_finite_mag [of "f64_neg f64_zero"] by (simp_all add: f64_finite_neg)
  show ?thesis
  proof (cases "m = 0")
    case True
    then have "f64_mag x = 0" using f64_num_0 [of x] num by simp
    then have "f64_make (f64_sign x) 0 = x" by (metis f64_make_sign_mag)
    with True show ?thesis
      using fin num z by (simp add: f64_sub_def f64_add_def dy_add_def f64_round_def f64_neg_parts)
  next
    case False
    with fin num z show ?thesis
      using f64_round_num [OF assms num False, of "f64_sign x" 0]
      by (simp add: f64_sub_def f64_add_def dy_add_def f64_neg_parts)
  qed
qed

lemma f64_div_one:
  assumes "f64_is_finite x"
  shows "f64_div x f64_one = x"
proof -
  obtain m e where num: "f64_num x = (m, e)" by (cases "f64_num x")
  have fin: "\<not> f64_is_nan x" "\<not> f64_is_inf x" "\<not> f64_is_nan f64_one" "\<not> f64_is_inf f64_one"
    using f64_finite_mag [OF assms] f64_finite_mag [OF f64_one_finite(1)] by blast+
  have one: "f64_mag f64_one \<noteq> 0" by (simp add: f64_mag_def f64_one_def)
  obtain n where dec: "f64_dec x = (n, e)" and m: "m = (if f64_sign x then - int n else int n)"
    using num by (cases "f64_dec x") (auto simp: f64_num_def)
  define sm where "sm = (if f64_sign x then - \<bar>m\<bar> else \<bar>m\<bar>)"
  have sm: "sm = m" using m by (simp add: sm_def)
  have sgn: "(f64_sign x \<noteq> f64_sign f64_one) = f64_sign x" using f64_one_finite(2) by simp
  have "f64_div x f64_one = f64_round (f64_sign x) sm (nat \<bar>2 ^ 52\<bar>) (e - - 52)"
    unfolding f64_div_def Let_def sgn num f64_num_one using fin one
    by (simp only: if_False simp_thms prod.case sm_def)
  also have "\<dots> = f64_round (f64_sign x) m (2 ^ 52) (e + int 52)"
    unfolding sm by simp
  also have "\<dots> = x"
  proof (cases "n = 0")
    case True
    then have "f64_mag x = 0" using dec dec_mag_0 [of 53 11 "f64_mag x"] by simp
    then have "f64_make (f64_sign x) 0 = x" by (metis f64_make_sign_mag)
    with True m show ?thesis by (simp add: f64_round_def)
  next
    case False
    then have pos: "0 < n" by simp
    have "f64_mag x \<le> f64_inf_mag" using assms by (simp add: f64_is_finite_def)
    then have "round_mag 53 11 n (2 ^ 52) (e + int 52) = f64_mag x"
      unfolding round_mag_pow2_den [OF pos] using round_dec_mag [OF dec pos] by simp
    then show ?thesis using m pos f64_make_sign_mag [of x] by (cases "f64_sign x") (simp_all add: f64_round_def)
  qed
  finally show ?thesis .
qed

text \<open>Magnitudes are ordered as the values they stand for.\<close>

definition mag_val :: "nat \<Rightarrow> nat" where
  "mag_val b = (if b div 2 ^ 52 = 0 then b mod 2 ^ 52 else (2 ^ 52 + b mod 2 ^ 52) * 2 ^ (b div 2 ^ 52 - 1))"

lemma mag_val_mono: "b \<le> c \<Longrightarrow> mag_val b \<le> mag_val c"
proof (rule lift_Suc_mono_le [of mag_val])
  fix b :: nat
  define E f where "E = b div 4503599627370496" and "f = b mod 4503599627370496"
  have b: "b = E * 2 ^ 52 + f" and f: "f < 2 ^ 52" by (simp_all add: E_def f_def)
  show "mag_val b \<le> mag_val (Suc b)"
  proof (cases "Suc f < 2 ^ 52")
    case True
    have "Suc b div 2 ^ 52 = E" "Suc b mod 2 ^ 52 = Suc f"
      using div_mod_digit [OF True, of E] by (simp_all add: b)
    then show ?thesis by (simp add: mag_val_def flip: E_def f_def)
  next
    case False
    with f have f': "f = 2 ^ 52 - 1" by simp
    then have "Suc b = Suc E * 2 ^ 52 + 0" by (simp add: b)
    then have "Suc b div 2 ^ 52 = Suc E" "Suc b mod 2 ^ 52 = 0"
      using div_mod_digit [of 0 "2 ^ 52" "Suc E"] by simp_all
    then show ?thesis
      by (cases E) (simp_all add: mag_val_def f' flip: E_def f_def)
  qed
qed

lemma trunc_mag_val:
  "\<bar>f64_trunc_int x\<bar> = int (mag_val (f64_mag x) div 2 ^ 1074)"
proof -
  obtain m e where dec: "f64_dec x = (m, e)" by fastforce
  define E f where "E = f64_mag x div 4503599627370496" and "f = f64_mag x mod 4503599627370496"
  have e: "- 1074 \<le> e" and v: "mag_val (f64_mag x) = m * 2 ^ nat (e + 1074)"
  proof -
    have me: "(m, e) = (if E = 0 then (f, - 1074) else (2 ^ 52 + f, int E - 1075))"
      using dec by (cases "E = 0") (simp_all add: dec_mag_def emin_def flip: E_def f_def)
    show "- 1074 \<le> e" using me by (cases E) auto
    show "mag_val (f64_mag x) = m * 2 ^ nat (e + 1074)"
      using me by (cases E) (auto simp: mag_val_def nat_add_distrib simp flip: E_def f_def)
  qed
  have q: "(if 0 \<le> e then m * 2 ^ nat e else m div 2 ^ nat (- e)) = m * 2 ^ nat (e + 1074) div 2 ^ 1074"
  proof (cases "0 \<le> e")
    case True
    then have "nat (e + 1074) = nat e + 1074" by simp
    then have "m * 2 ^ nat (e + 1074) = m * 2 ^ nat e * 2 ^ 1074" by (simp only: power_add mult.assoc)
    then show ?thesis using True by (simp only: if_True) simp
  next
    case False
    define k where "k = nat (- e)"
    define j where "j = nat (e + 1074)"
    have "1074 = k + j" using e False by (simp add: k_def j_def)
    then have eq: "(2 :: nat) ^ 1074 = 2 ^ k * 2 ^ j" by (simp only: power_add)
    have "m * 2 ^ j div 2 ^ 1074 = m div 2 ^ k" unfolding eq by simp
    then show ?thesis using False by (simp add: k_def j_def)
  qed
  have "\<bar>f64_trunc_int x\<bar> = int (if 0 \<le> e then m * 2 ^ nat e else m div 2 ^ nat (- e))"
    using dec by (auto simp: f64_trunc_int_def Let_def zdiv_int div_int_pos_iff)
  then show ?thesis unfolding v q .
qed

lemma f64_le_of_trunc:
  assumes "f64_is_finite x" "f64_is_finite y" "f64_trunc_int x < f64_trunc_int y"
  shows "f64_le x y"
proof -
  have sgn: "f64_trunc_int z \<le> 0" if "f64_sign z" for z
    using that by (auto simp: f64_trunc_int_def Let_def div_int_pos_iff split: prod.splits)
  have nsgn: "0 \<le> f64_trunc_int z" if "\<not> f64_sign z" for z
    using that by (auto simp: f64_trunc_int_def Let_def div_int_pos_iff split: prod.splits)
  have mono: "f64_mag u < f64_mag v" if "\<bar>f64_trunc_int u\<bar> < \<bar>f64_trunc_int v\<bar>" for u v
  proof (rule ccontr)
    assume "\<not> f64_mag u < f64_mag v"
    then have "mag_val (f64_mag v) div 2 ^ 1074 \<le> mag_val (f64_mag u) div 2 ^ 1074"
      by (intro div_le_mono mag_val_mono) simp
    with that show False unfolding trunc_mag_val by simp
  qed
  have "f64_key x \<le> f64_key y"
    using assms(3) sgn [of x] sgn [of y] nsgn [of x] nsgn [of y] mono [of x y] mono [of y x]
    by (cases "f64_sign x"; cases "f64_sign y") (auto simp: f64_key_def)
  then show ?thesis using f64_finite_mag [OF assms(1)] f64_finite_mag [OF assms(2)] by (simp add: f64_le_def)
qed

lemma f64_of_int_between:
  assumes "\<bar>i\<bar> < 2 ^ 53" "lo \<le> i" "i \<le> hi"
    and "f64_is_finite (f64_of_int lo)" "f64_trunc_int (f64_of_int lo) \<le> lo"
    and "f64_is_finite (f64_of_int hi)" "hi \<le> f64_trunc_int (f64_of_int hi)"
  shows "f64_le (f64_of_int lo) (f64_of_int i)" "f64_le (f64_of_int i) (f64_of_int hi)"
proof -
  note ex = f64_of_int_exact [OF assms(1)]
  have nan: "\<not> f64_is_nan (f64_of_int i)" using f64_finite_mag [OF ex(1)] by blast
  show "f64_le (f64_of_int lo) (f64_of_int i)"
    using f64_le_of_trunc [OF assms(4) ex(1)] ex(2) assms(2,5) nan
    by (cases "lo = i") (auto simp: f64_le_refl)
  show "f64_le (f64_of_int i) (f64_of_int hi)"
    using f64_le_of_trunc [OF ex(1) assms(6)] ex(2) assms(3,7) nan
    by (cases "hi = i") (auto simp: f64_le_refl)
qed

text \<open>The limits of the integer types as floating-point numbers.\<close>

lemma f64_int_limits:
  "f64_of_int (- (2 ^ 63)) = 0xC3E0000000000000" "f64_of_int (2 ^ 63 - 1) = 0x43E0000000000000"
  "f64_of_int (2 ^ 64 - 1) = 0x43F0000000000000"
  by (simp_all add: f64_of_int_def f64_round_def f64_make_def round_mag_def Let_def ilog2.simps emin_def
      flog2_def rne_def)

lemma f64_limit_parts:
  "f64_is_finite 0xC3E0000000000000" "f64_trunc_int 0xC3E0000000000000 = - (2 ^ 63)"
  "f64_is_finite 0x43E0000000000000" "f64_trunc_int 0x43E0000000000000 = 2 ^ 63"
  "f64_is_finite 0x43F0000000000000" "f64_trunc_int 0x43F0000000000000 = 2 ^ 64"
  by (simp_all add: f64_is_finite_def f64_mag_def f64_trunc_int_def dec_mag_def emin_def f64_sign_def)

text \<open>Single precision embeds in double precision.\<close>

lemma f32_make_sign_mag [simp]: "f32_make (f32_sign x) (f32_mag x) = x"
proof -
  have lt: "unat x < 2 ^ 32" using unsigned_less [of x] by simp
  have "unat x mod 2 ^ 31 + (if 2 ^ 31 \<le> unat x then 2 ^ 31 else 0) = unat x"
  proof (cases "2 ^ 31 \<le> unat x")
    case True
    then have "unat x mod 2 ^ 31 = unat x - 2 ^ 31"
      using lt by (simp add: mod_if)
    with True show ?thesis by simp
  qed simp
  then show ?thesis by (simp add: f32_make_def f32_sign_def f32_mag_def)
qed

lemma f32_widen:
  assumes "f32_is_finite x"
  shows "f64_is_finite (f64_of_f32 x)" "f32_of_f64 (f64_of_f32 x) = x"
    "f64_mag (f64_of_f32 x) = 0 \<longleftrightarrow> f32_mag x = 0"
proof -
  obtain m e where dec: "f32_dec x = (m, e)" by fastforce
  have mag: "f32_mag x < 255 * 2 ^ 23" using assms by (simp add: f32_is_finite_def)
  have m0: "m = 0 \<longleftrightarrow> f32_mag x = 0" using dec dec_mag_0 [of 24 8 "f32_mag x"] by simp
  have widen: "f64_of_f32 x = f64_round (f32_sign x) (if f32_sign x then - int m else int m) 1 e"
    using mag dec by (simp add: f64_of_f32_def)
  have "f64_is_finite (f64_of_f32 x) \<and> f32_of_f64 (f64_of_f32 x) = x \<and>
     (f64_mag (f64_of_f32 x) = 0 \<longleftrightarrow> f32_mag x = 0)"
  proof (cases "m = 0")
    case True
    have "f64_mag (f64_make (f32_sign x) 0) = 0" "f64_sign (f64_make (f32_sign x) 0) = f32_sign x"
      by (simp_all add: f64_make_parts)
    moreover have "f32_make (f32_sign x) 0 = x" using True m0 f32_make_sign_mag [of x] by simp
    ultimately show ?thesis
      using True m0 widen
      by (simp add: f64_round_def f32_of_f64_def f64_is_nan_def f64_is_inf_def f64_is_finite_def dec_mag_def)
  next
    case False
    define L where "L = ilog2 m"
    define b where "b = round_mag 53 11 m (Suc 0) e"
    define E f where "E = f32_mag x div 8388608" and "f = f32_mag x mod 8388608"
    have me: "(m, e) = (if E = 0 then (f, - 149) else (2 ^ 23 + f, int E - 150))"
      using dec by (cases "E = 0") (simp_all add: dec_mag_def emin_def flip: E_def f_def)
    have f: "f < 2 ^ 23" by (simp add: f_def)
    have E: "E < 255" using mag by (simp add: E_def less_mult_imp_div_less)
    have m: "0 < m" "m < 2 ^ 24" using False me f by (auto split: if_splits)
    have L: "L < 24" using ilog2_less [OF m] by (simp add: L_def)
    have e: "- 149 \<le> e" "e \<le> 104" using me E by (auto split: if_splits)
    have ex: "b < f64_inf_mag" "dec_mag 53 11 b = (m * 2 ^ (52 - L), e - int (52 - L))"
      using round_mag_exact [of m 53 11 L e] m L_def L e by (simp_all add: b_def emin_def)
    have bl: "b < 2 ^ 63" using ex(1) by simp
    have y: "f64_of_f32 x = f64_make (f32_sign x) b"
      using widen m(1) by (auto simp: f64_round_def b_def)
    have parts: "f64_mag (f64_of_f32 x) = b" "f64_sign (f64_of_f32 x) = f32_sign x"
      unfolding y using f64_make_parts [OF bl] by simp_all
    have "round_mag 24 8 (m * 2 ^ (52 - L)) (Suc 0) (e - int (52 - L)) = f32_mag x"
      unfolding round_mag_shift [OF m(1)]
      using round_dec_mag [OF dec m(1)] mag by simp
    moreover have "b \<noteq> 0" using ex(2) m(1) dec_mag_0 [of 53 11 b] by auto
    ultimately show ?thesis
      using parts ex m m0
      by (simp add: f32_of_f64_def f64_is_nan_def f64_is_inf_def f64_is_finite_def)
  qed
  then show "f64_is_finite (f64_of_f32 x)" "f32_of_f64 (f64_of_f32 x) = x"
    "f64_mag (f64_of_f32 x) = 0 \<longleftrightarrow> f32_mag x = 0" by simp_all
qed

end
