(* ===== verification/Edge_Model.thy ===== *)
theory Edge_Model
  imports Soft_Float
begin

text \<open>
  The domain contracts of crates/edge-core: telemetry values, samples and their quality codes
  (model.rs), device specifications, command candidates and the policy gate that
  every command passes (policy.rs), and the device shadow (shadow.rs). Timestamps are
  nanoseconds since the epoch; ids of commands are opaque.
\<close>

section \<open>Telemetry\<close>

datatype telemetry_type = TyFloat | TyInteger | TyBoolean | TyText

datatype telemetry_value = Float f64 | Integer i64 | Boolean bool | Text string

definition as_f64 :: "telemetry_value \<Rightarrow> f64 option" where
  "as_f64 v = (case v of
       Float x \<Rightarrow> Some x
     | Integer i \<Rightarrow> Some (f64_of_int (sint i))
     | Boolean _ \<Rightarrow> None
     | Text _ \<Rightarrow> None)"

text \<open>The derived \<open>PartialEq\<close>: floating-point values compare by IEEE equality.\<close>

fun tv_eq :: "telemetry_value \<Rightarrow> telemetry_value \<Rightarrow> bool" where
  "tv_eq (Float x) (Float y) = f64_eq x y"
| "tv_eq (Integer i) (Integer j) = (i = j)"
| "tv_eq (Boolean a) (Boolean b) = (a = b)"
| "tv_eq (Text s) (Text t) = (s = t)"
| "tv_eq _ _ = False"

record number_range =
  nr_min :: f64
  nr_max :: f64

definition range_contains :: "number_range \<Rightarrow> f64 \<Rightarrow> bool" where
  "range_contains r x = (f64_le (nr_min r) x \<and> f64_le x (nr_max r))"

datatype data_quality = QGood | QUncertain | QBad

datatype data_quality_code =
    CGood
  | UncertainProtocol | UncertainLastKnown | UncertainOutOfRange
  | UncertainSubstituted | UncertainOverflow
  | BadCommunication | BadTimeout | BadProtocol | BadDecode
  | BadConfiguration | BadOutOfService

definition quality_of_code :: "data_quality_code \<Rightarrow> data_quality" where
  "quality_of_code c = (case c of
       CGood \<Rightarrow> QGood
     | UncertainProtocol \<Rightarrow> QUncertain
     | UncertainLastKnown \<Rightarrow> QUncertain
     | UncertainOutOfRange \<Rightarrow> QUncertain
     | UncertainSubstituted \<Rightarrow> QUncertain
     | UncertainOverflow \<Rightarrow> QUncertain
     | BadCommunication \<Rightarrow> QBad
     | BadTimeout \<Rightarrow> QBad
     | BadProtocol \<Rightarrow> QBad
     | BadDecode \<Rightarrow> QBad
     | BadConfiguration \<Rightarrow> QBad
     | BadOutOfService \<Rightarrow> QBad)"

definition default_code_for :: "data_quality \<Rightarrow> data_quality_code" where
  "default_code_for q = (case q of
       QGood \<Rightarrow> CGood | QUncertain \<Rightarrow> UncertainProtocol | QBad \<Rightarrow> BadProtocol)"

definition quality_code_as_str :: "data_quality_code \<Rightarrow> string" where
  "quality_code_as_str c = (case c of
       CGood \<Rightarrow> ''good''
     | UncertainProtocol \<Rightarrow> ''uncertain_protocol''
     | UncertainLastKnown \<Rightarrow> ''uncertain_last_known''
     | UncertainOutOfRange \<Rightarrow> ''uncertain_out_of_range''
     | UncertainSubstituted \<Rightarrow> ''uncertain_substituted''
     | UncertainOverflow \<Rightarrow> ''uncertain_overflow''
     | BadCommunication \<Rightarrow> ''bad_communication''
     | BadTimeout \<Rightarrow> ''bad_timeout''
     | BadProtocol \<Rightarrow> ''bad_protocol''
     | BadDecode \<Rightarrow> ''bad_decode''
     | BadConfiguration \<Rightarrow> ''bad_configuration''
     | BadOutOfService \<Rightarrow> ''bad_out_of_service'')"

type_synonym timestamp = int

record telemetry_sample =
  ts_device_id :: string
  ts_telemetry_id :: string
  ts_value :: telemetry_value
  ts_quality :: data_quality
  ts_quality_code :: "data_quality_code option"
  ts_timestamp :: timestamp

definition sample_new ::
  "string \<Rightarrow> string \<Rightarrow> telemetry_value \<Rightarrow> data_quality \<Rightarrow> timestamp \<Rightarrow> telemetry_sample" where
  "sample_new dev tel v q t =
     \<lparr>ts_device_id = dev, ts_telemetry_id = tel, ts_value = v, ts_quality = q,
      ts_quality_code = Some (default_code_for q), ts_timestamp = t\<rparr>"

definition with_quality_code :: "telemetry_sample \<Rightarrow> data_quality_code \<Rightarrow> telemetry_sample" where
  "with_quality_code s c = s\<lparr>ts_quality := quality_of_code c, ts_quality_code := Some c\<rparr>"

definition inherit_quality :: "telemetry_sample \<Rightarrow> telemetry_sample \<Rightarrow> telemetry_sample" where
  "inherit_quality s src = s\<lparr>ts_quality := ts_quality src, ts_quality_code := ts_quality_code src\<rparr>"

text \<open>A sample's code, when it has one, agrees with its quality.\<close>

definition sample_ok :: "telemetry_sample \<Rightarrow> bool" where
  "sample_ok s = (case ts_quality_code s of None \<Rightarrow> True | Some c \<Rightarrow> quality_of_code c = ts_quality s)"

lemma quality_of_default [simp]: "quality_of_code (default_code_for q) = q"
  by (cases q) (simp_all add: default_code_for_def quality_of_code_def)

lemma sample_new_ok [simp]: "sample_ok (sample_new dev tel v q t)"
  by (simp add: sample_ok_def sample_new_def)

lemma with_quality_code_ok [simp]: "sample_ok (with_quality_code s c)"
  by (simp add: sample_ok_def with_quality_code_def)

lemma inherit_quality_ok: "sample_ok src \<Longrightarrow> sample_ok (inherit_quality s src)"
  by (auto simp: sample_ok_def inherit_quality_def split: option.splits)

lemma quality_code_as_str_inj: "quality_code_as_str c = quality_code_as_str d \<Longrightarrow> c = d"
  by (cases c; cases d) (simp_all add: quality_code_as_str_def)

section \<open>Device specifications and commands\<close>

datatype command_risk = RiskLow | RiskMedium | RiskHigh | RiskCritical

record command_parameter =
  cp_id :: string
  cp_value_type :: telemetry_type
  cp_range :: "number_range option"

record command_spec =
  cs_id :: string
  cs_risk :: command_risk
  cs_parameters :: "command_parameter list"
  cs_requires_confirmation :: bool

definition command_spec_new :: "string \<Rightarrow> command_risk \<Rightarrow> command_spec" where
  "command_spec_new i r =
     \<lparr>cs_id = i, cs_risk = r, cs_parameters = [],
      cs_requires_confirmation = (r = RiskHigh \<or> r = RiskCritical)\<rparr>"

definition with_parameter :: "command_spec \<Rightarrow> command_parameter \<Rightarrow> command_spec" where
  "with_parameter c p = c\<lparr>cs_parameters := cs_parameters c @ [p]\<rparr>"

definition requiring_confirmation :: "command_spec \<Rightarrow> command_spec" where
  "requiring_confirmation c = c\<lparr>cs_requires_confirmation := True\<rparr>"

record telemetry_point =
  tp_id :: string
  tp_value_type :: telemetry_type
  tp_unit :: "string option"
  tp_range :: "number_range option"
  tp_description :: "string option"

datatype event_severity = SevInfo | SevWarning | SevCritical

record event_spec =
  es_id :: string
  es_severity :: event_severity

record device_spec =
  ds_device_type :: string
  ds_version :: string
  ds_telemetry :: "telemetry_point list"
  ds_commands :: "command_spec list"
  ds_events :: "event_spec list"

definition spec_command :: "device_spec \<Rightarrow> string \<Rightarrow> command_spec option" where
  "spec_command d i = find (\<lambda>c. cs_id c = i) (ds_commands d)"

definition spec_telemetry :: "device_spec \<Rightarrow> string \<Rightarrow> telemetry_point option" where
  "spec_telemetry d i = find (\<lambda>p. tp_id p = i) (ds_telemetry d)"

record 'uuid command_candidate =
  cc_id :: 'uuid
  cc_edge_id :: string
  cc_device_id :: string
  cc_command :: string
  cc_parameters :: "string \<rightharpoonup> telemetry_value"
  cc_requested_by :: string
  cc_confirmation_token :: "string option"

text \<open>\<open>CommandCandidate::new\<close>; the fresh id is an argument.\<close>

definition candidate_new ::
  "'uuid \<Rightarrow> string \<Rightarrow> string \<Rightarrow> string \<Rightarrow> (string \<rightharpoonup> telemetry_value) \<Rightarrow> 'uuid command_candidate" where
  "candidate_new u edge dev cmd ps =
     \<lparr>cc_id = u, cc_edge_id = edge, cc_device_id = dev, cc_command = cmd, cc_parameters = ps,
      cc_requested_by = ''unknown'', cc_confirmation_token = None\<rparr>"

section \<open>The policy gate\<close>

datatype policy_violation =
    UnknownCommand string
  | MissingParameter string
  | ParameterNotNumeric string
  | ParameterOutOfRange string f64 number_range
  | ConfirmationRequired string

definition check_parameter ::
  "(string \<rightharpoonup> telemetry_value) \<Rightarrow> command_parameter \<Rightarrow> policy_violation + unit" where
  "check_parameter ps p = (case ps (cp_id p) of
       None \<Rightarrow> Inl (MissingParameter (cp_id p))
     | Some v \<Rightarrow> (case cp_range p of
           None \<Rightarrow> Inr ()
         | Some r \<Rightarrow> (case as_f64 v of
               None \<Rightarrow> Inl (ParameterNotNumeric (cp_id p))
             | Some x \<Rightarrow> if \<not> range_contains r x
                 then Inl (ParameterOutOfRange (cp_id p) x r) else Inr ())))"

fun check_parameters ::
  "(string \<rightharpoonup> telemetry_value) \<Rightarrow> command_parameter list \<Rightarrow> policy_violation + unit" where
  "check_parameters ps [] = Inr ()"
| "check_parameters ps (p # rest) = rbind (check_parameter ps p) (\<lambda>_. check_parameters ps rest)"

definition validate_command ::
  "device_spec \<Rightarrow> 'uuid command_candidate \<Rightarrow> policy_violation + unit" where
  "validate_command spec cand =
     rbind (ok_or (UnknownCommand (cc_command cand)) (spec_command spec (cc_command cand))) (\<lambda>command.
       if cs_requires_confirmation command \<and> cc_confirmation_token cand = None
       then Inl (ConfirmationRequired (cs_id command))
       else check_parameters (cc_parameters cand) (cs_parameters command))"

text \<open>What the gate promises, without the order in which it looks.\<close>

definition parameter_allowed :: "(string \<rightharpoonup> telemetry_value) \<Rightarrow> command_parameter \<Rightarrow> bool" where
  "parameter_allowed ps p = (\<exists>v. ps (cp_id p) = Some v \<and>
     (\<forall>r. cp_range p = Some r \<longrightarrow> (\<exists>x. as_f64 v = Some x \<and> range_contains r x)))"

definition policy_allows :: "device_spec \<Rightarrow> 'uuid command_candidate \<Rightarrow> bool" where
  "policy_allows spec cand = (\<exists>c. spec_command spec (cc_command cand) = Some c \<and>
     (cs_requires_confirmation c \<longrightarrow> cc_confirmation_token cand \<noteq> None) \<and>
     (\<forall>p \<in> set (cs_parameters c). parameter_allowed (cc_parameters cand) p))"

lemma check_parameter_iff: "check_parameter ps p = Inr () \<longleftrightarrow> parameter_allowed ps p"
  by (auto simp: check_parameter_def parameter_allowed_def split: option.splits)

lemma check_parameters_iff:
  "check_parameters ps qs = Inr () \<longleftrightarrow> (\<forall>p \<in> set qs. parameter_allowed ps p)"
proof (induction qs)
  case Nil
  then show ?case by simp
next
  case (Cons q qs)
  then show ?case
    by (cases "check_parameter ps q") (auto simp flip: check_parameter_iff)
qed

text \<open>The first parameter that is not allowed decides the error.\<close>

lemma check_parameters_first_error:
  "check_parameters ps qs = Inl e \<longleftrightarrow>
     (\<exists>xs p ys. qs = xs @ p # ys \<and> (\<forall>x \<in> set xs. parameter_allowed ps x) \<and> check_parameter ps p = Inl e)"
proof (induction qs)
  case Nil
  then show ?case by simp
next
  case (Cons q qs)
  show ?case
  proof (cases "check_parameter ps q")
    case (Inl e')
    then have "\<not> parameter_allowed ps q" by (simp flip: check_parameter_iff)
    with Inl show ?thesis by (fastforce simp: Cons_eq_append_conv)
  next
    case (Inr u)
    then have ok: "parameter_allowed ps q" by (simp flip: check_parameter_iff)
    have "check_parameters ps (q # qs) = Inl e \<longleftrightarrow> check_parameters ps qs = Inl e"
      using Inr by simp
    also have "\<dots> \<longleftrightarrow> (\<exists>xs p ys. q # qs = xs @ p # ys \<and>
        (\<forall>x \<in> set xs. parameter_allowed ps x) \<and> check_parameter ps p = Inl e)" (is "_ \<longleftrightarrow> ?R")
    proof
      assume "check_parameters ps qs = Inl e"
      then obtain xs p ys where "qs = xs @ p # ys" "\<forall>x \<in> set xs. parameter_allowed ps x"
        "check_parameter ps p = Inl e" unfolding Cons.IH by blast
      with ok show ?R by (intro exI [of _ "q # xs"] exI [of _ p] exI [of _ ys]) simp
    next
      assume ?R
      with Inr show "check_parameters ps qs = Inl e"
        unfolding Cons.IH by (fastforce simp: Cons_eq_append_conv)
    qed
    finally show ?thesis .
  qed
qed

text \<open>
  C26. The command gate accepts a candidate exactly when the policy allows it: the command is
  declared, a required confirmation token is present, and every declared parameter is given and, if
  ranged, numeric and inside its range.
\<close>

theorem validate_command_correct:
  "validate_command spec cand = Inr () \<longleftrightarrow> policy_allows spec cand"
  by (cases "spec_command spec (cc_command cand)")
    (auto simp: validate_command_def policy_allows_def check_parameters_iff)

section \<open>The device shadow\<close>

record device_shadow =
  sh_edge_id :: string
  sh_device_id :: string
  sh_updated_at :: "timestamp option"
  sh_telemetry :: "string \<rightharpoonup> telemetry_sample"

definition shadow_new :: "string \<Rightarrow> string \<Rightarrow> device_shadow" where
  "shadow_new e d = \<lparr>sh_edge_id = e, sh_device_id = d, sh_updated_at = None, sh_telemetry = Map.empty\<rparr>"

definition shadow_update :: "telemetry_sample \<Rightarrow> device_shadow \<Rightarrow> device_shadow" where
  "shadow_update s sh = sh\<lparr>sh_updated_at := Some (ts_timestamp s),
     sh_telemetry := (sh_telemetry sh)(ts_telemetry_id s \<mapsto> s)\<rparr>"

definition shadow_latest :: "device_shadow \<Rightarrow> string \<Rightarrow> telemetry_sample option" where
  "shadow_latest sh i = sh_telemetry sh i"

definition shadow_latest_value :: "device_shadow \<Rightarrow> string \<Rightarrow> telemetry_value option" where
  "shadow_latest_value sh i = map_option ts_value (shadow_latest sh i)"

lemma shadow_fold_latest:
  "shadow_latest (fold shadow_update ss sh) i =
     (case find (\<lambda>s. ts_telemetry_id s = i) (rev ss) of
        Some s \<Rightarrow> Some s | None \<Rightarrow> shadow_latest sh i)"
proof (induction ss arbitrary: sh)
  case Nil
  then show ?case by simp
next
  case (Cons s ss)
  show ?case
    using Cons.IH [of "shadow_update s sh"]
    by (auto simp: find_append shadow_latest_def shadow_update_def split: option.splits)
qed

end
