(* ===== verification/Connections.thy ===== *)
theory Connections
  imports Edge_Model
begin

text \<open>
  The protocol connections of crates/edge-core/src/config.rs: the settings of every protocol, the
  circuit-breaker policy, and the validation that a connection passes before it is used. A
  validator returns its error message on the left.
\<close>

section \<open>Circuit-breaker policy\<close>

record circuit_breaker_config =
  cb_enabled :: bool
  cb_failure_threshold :: u32
  cb_open_duration_ms :: u64
  cb_half_open_success_threshold :: u32

definition circuit_breaker_default :: circuit_breaker_config where
  "circuit_breaker_default = \<lparr>cb_enabled = True, cb_failure_threshold = 5,
     cb_open_duration_ms = 30000, cb_half_open_success_threshold = 1\<rparr>"

definition circuit_breaker_validate :: "circuit_breaker_config \<Rightarrow> string + unit" where
  "circuit_breaker_validate c =
     (if \<not> (1 \<le> cb_failure_threshold c \<and> cb_failure_threshold c \<le> 100)
      then Inl ''circuit breaker failure threshold must be between 1 and 100''
      else if \<not> (100 \<le> cb_open_duration_ms c \<and> cb_open_duration_ms c \<le> 3600000)
      then Inl ''circuit breaker open duration must be between 100 and 3600000 ms''
      else if \<not> (1 \<le> cb_half_open_success_threshold c \<and> cb_half_open_success_threshold c \<le> 10)
      then Inl ''circuit breaker half-open success threshold must be between 1 and 10''
      else Inr ())"

lemma circuit_breaker_default_valid: "circuit_breaker_validate circuit_breaker_default = Inr ()"
  by (simp add: circuit_breaker_validate_def circuit_breaker_default_def)

section \<open>Protocol settings\<close>

datatype protocol_type =
    Simulated | ModbusTcp | ModbusRtu | Dlt645 | Iec101 | Iec104 | CustomSerial
  | OpcUa | BacnetIp | SiemensS7 | OmronFins

record serial_settings =
  sr_port :: string
  sr_baud_rate :: u32
  sr_data_bits :: u8
  sr_stop_bits :: u8
  sr_parity :: string

definition serial_settings_new :: "string \<Rightarrow> u32 \<Rightarrow> serial_settings" where
  "serial_settings_new p b =
     \<lparr>sr_port = p, sr_baud_rate = b, sr_data_bits = 8, sr_stop_bits = 1, sr_parity = ''none''\<rparr>"

record iec101_settings =
  i1_cp56_timezone_offset_minutes :: i16

definition iec101_settings_validate :: "iec101_settings \<Rightarrow> string + unit" where
  "iec101_settings_validate s =
     (if \<not> (- 840 \<le> sint (i1_cp56_timezone_offset_minutes s) \<and> sint (i1_cp56_timezone_offset_minutes s) \<le> 840)
      then Inl ''IEC 101 CP56Time2a timezone offset must be between -840 and 840 minutes''
      else Inr ())"

record iec104_settings =
  i4_cp56_timezone_offset_minutes :: i16

definition iec104_settings_validate :: "iec104_settings \<Rightarrow> string + unit" where
  "iec104_settings_validate s =
     (if \<not> (- 840 \<le> sint (i4_cp56_timezone_offset_minutes s) \<and> sint (i4_cp56_timezone_offset_minutes s) \<le> 840)
      then Inl ''IEC 104 CP56Time2a timezone offset must be between -840 and 840 minutes''
      else Inr ())"

subsection \<open>Omron FINS\<close>

datatype omron_word_order = HighWordFirst | LowWordFirst

datatype omron_transport = Udp | Tcp

record omron_settings =
  of_transport :: omron_transport
  of_source_network :: u8
  of_source_node :: u8
  of_source_unit :: u8
  of_destination_network :: u8
  of_destination_node :: u8
  of_destination_unit :: u8
  of_timeout_ms :: u64
  of_word_order :: omron_word_order

definition omron_settings_default :: omron_settings where
  "omron_settings_default = \<lparr>of_transport = Udp, of_source_network = 0, of_source_node = 1,
     of_source_unit = 0, of_destination_network = 0, of_destination_node = 0,
     of_destination_unit = 0, of_timeout_ms = 2000, of_word_order = LowWordFirst\<rparr>"

definition omron_settings_validate :: "omron_settings \<Rightarrow> string + unit" where
  "omron_settings_validate s =
     (if of_source_network s > 127 \<or> of_destination_network s > 127
      then Inl ''Omron FINS network address must be between 0 and 127''
      else if of_source_node s = - 1 \<or> (of_transport s = Udp \<and> of_source_node s = 0)
      then Inl (case of_transport s of
             Udp \<Rightarrow> ''Omron FINS/UDP source node must be between 1 and 254''
           | Tcp \<Rightarrow> ''Omron FINS/TCP source node must be between 0 and 254'')
      else if of_destination_node s = - 1
      then Inl ''Omron FINS destination node must be between 0 and 254''
      else if \<not> (100 \<le> of_timeout_ms s \<and> of_timeout_ms s \<le> 120000)
      then Inl ''Omron FINS timeout must be between 100 and 120000 ms''
      else Inr ())"

definition parse_omron_fins_endpoint :: "string \<Rightarrow> string + string \<times> u16" where
  "parse_omron_fins_endpoint value0 =
     (let value1 = trim value0;
          value = (case strip_prefix ''fins://'' value1 of Some v \<Rightarrow> v | None \<Rightarrow> value1)
      in rbind (ok_or ''Omron FINS endpoint must be host:port or fins://host:port''
                 (rsplit_once (CHR '':'') value)) (\<lambda>(host0, port0).
         let host = trim_matches (\<lambda>c. c = CHR ''['' \<or> c = CHR '']'') (trim host0)
         in if host = [] \<or> has_whitespace host
            then Inl ''Omron FINS endpoint host is required''
            else rbind (ok_or ''Omron FINS endpoint port must be between 1 and 65535''
                         (parse_u16 port0)) (\<lambda>port.
              if port = 0 then Inl ''Omron FINS endpoint port must be between 1 and 65535''
              else Inr (host, port))))"

subsection \<open>Siemens S7\<close>

record siemens_settings =
  s7_rack :: u8
  s7_slot :: u8
  s7_pdu_size :: u16
  s7_connect_timeout_ms :: u64
  s7_request_timeout_ms :: u64

definition siemens_settings_default :: siemens_settings where
  "siemens_settings_default = \<lparr>s7_rack = 0, s7_slot = 1, s7_pdu_size = 480,
     s7_connect_timeout_ms = 5000, s7_request_timeout_ms = 10000\<rparr>"

definition siemens_settings_validate :: "siemens_settings \<Rightarrow> string + unit" where
  "siemens_settings_validate s =
     (if s7_rack s > 7 then Inl ''Siemens S7 rack must be between 0 and 7''
      else if s7_slot s > 31 then Inl ''Siemens S7 slot must be between 0 and 31''
      else if s7_pdu_size s \<notin> set [240, 480, 960]
      then Inl ''Siemens S7 PDU size must be 240, 480 or 960 bytes''
      else if \<not> (100 \<le> s7_connect_timeout_ms s \<and> s7_connect_timeout_ms s \<le> 120000)
      then Inl ''Siemens S7 connect timeout must be between 100 and 120000 ms''
      else if \<not> (100 \<le> s7_request_timeout_ms s \<and> s7_request_timeout_ms s \<le> 120000)
      then Inl ''Siemens S7 request timeout must be between 100 and 120000 ms''
      else Inr ())"

definition parse_siemens_s7_endpoint :: "string \<Rightarrow> string + string \<times> u16" where
  "parse_siemens_s7_endpoint value0 =
     (let value1 = trim value0;
          value = (case strip_prefix ''s7://'' value1 of Some v \<Rightarrow> v | None \<Rightarrow> value1)
      in rbind (ok_or ''Siemens S7 endpoint must be host:port or s7://host:port''
                 (rsplit_once (CHR '':'') value)) (\<lambda>(host0, port0).
         let host = trim_matches (\<lambda>c. c = CHR ''['' \<or> c = CHR '']'') (trim host0)
         in if host = [] \<or> has_whitespace host
            then Inl ''Siemens S7 endpoint host is required''
            else rbind (ok_or ''Siemens S7 endpoint port must be between 1 and 65535''
                         (parse_u16 port0)) (\<lambda>port.
              if port = 0 then Inl ''Siemens S7 endpoint port must be between 1 and 65535''
              else Inr (host, port))))"

subsection \<open>BACnet/IP\<close>

record bacnet_foreign_device =
  bf_bbmd_address :: string
  bf_ttl_seconds :: u16

record bacnet_cov =
  bc_lifetime_seconds :: u32
  bc_confirmed_notifications :: bool
  bc_fallback_poll_interval_ms :: u64

record bacnet_settings =
  bi_bind_address :: string
  bi_local_port :: u16
  bi_broadcast_address :: string
  bi_apdu_timeout_ms :: u64
  bi_apdu_retries :: u8
  bi_discovery_timeout_ms :: u64
  bi_max_apdu_length :: u16
  bi_foreign_device :: "bacnet_foreign_device option"
  bi_cov :: "bacnet_cov option"

definition bacnet_settings_default :: bacnet_settings where
  "bacnet_settings_default = \<lparr>bi_bind_address = ''0.0.0.0'', bi_local_port = 0,
     bi_broadcast_address = ''255.255.255.255'', bi_apdu_timeout_ms = 3000, bi_apdu_retries = 3,
     bi_discovery_timeout_ms = 1000, bi_max_apdu_length = 1476, bi_foreign_device = None,
     bi_cov = None\<rparr>"

definition parse_bacnet_ip_endpoint :: "string \<Rightarrow> string + u8 list \<times> u16" where
  "parse_bacnet_ip_endpoint value0 =
     (let value1 = trim value0;
          value = (case strip_prefix ''bacnet://'' value1 of Some v \<Rightarrow> v | None \<Rightarrow> value1)
      in ok_or ''BACnet/IP endpoint must be an IPv4 host:port or bacnet://host:port''
           (parse_socket_addr_v4 value))"

definition bacnet_foreign_device_validate :: "bacnet_foreign_device \<Rightarrow> string + unit" where
  "bacnet_foreign_device_validate f =
     rbind (map_err (\<lambda>_. ''BACnet/IP BBMD address must be an IPv4 host:port'')
             (parse_bacnet_ip_endpoint (bf_bbmd_address f))) (\<lambda>_.
       if \<not> 30 \<le> bf_ttl_seconds f
       then Inl ''BACnet/IP foreign device TTL must be between 30 and 65535 seconds''
       else Inr ())"

definition bacnet_cov_validate :: "bacnet_cov \<Rightarrow> string + unit" where
  "bacnet_cov_validate c =
     (if \<not> (60 \<le> bc_lifetime_seconds c \<and> bc_lifetime_seconds c \<le> 86400)
      then Inl ''BACnet/IP COV lifetime must be between 60 and 86400 seconds''
      else if \<not> (1000 \<le> bc_fallback_poll_interval_ms c \<and> bc_fallback_poll_interval_ms c \<le> 3600000)
      then Inl ''BACnet/IP COV fallback poll interval must be between 1000 and 3600000 ms''
      else Inr ())"

definition bacnet_settings_validate :: "bacnet_settings \<Rightarrow> string + unit" where
  "bacnet_settings_validate s =
     rbind (ok_or ''BACnet/IP bind address must be an IPv4 address'' (parse_ipv4 (bi_bind_address s))) (\<lambda>_.
     rbind (ok_or ''BACnet/IP broadcast address must be an IPv4 address''
             (parse_ipv4 (bi_broadcast_address s))) (\<lambda>_.
     if \<not> (100 \<le> bi_apdu_timeout_ms s \<and> bi_apdu_timeout_ms s \<le> 120000)
     then Inl ''BACnet/IP APDU timeout must be between 100 and 120000 ms''
     else if bi_apdu_retries s > 10 then Inl ''BACnet/IP APDU retries cannot exceed 10''
     else if \<not> (100 \<le> bi_discovery_timeout_ms s \<and> bi_discovery_timeout_ms s \<le> 30000)
     then Inl ''BACnet/IP discovery timeout must be between 100 and 30000 ms''
     else if bi_max_apdu_length s \<notin> set [50, 128, 206, 480, 1024, 1476]
     then Inl ''BACnet/IP max APDU length must be 50, 128, 206, 480, 1024 or 1476''
     else rbind (case bi_foreign_device s of None \<Rightarrow> Inr () | Some f \<Rightarrow> bacnet_foreign_device_validate f) (\<lambda>_.
       case bi_cov s of None \<Rightarrow> Inr () | Some c \<Rightarrow> bacnet_cov_validate c)))"

subsection \<open>OPC UA\<close>

datatype opcua_security_policy =
  PolicyNone | Basic256Sha256 | Aes128Sha256RsaOaep | Aes256Sha256RsaPss

datatype opcua_message_security_mode = ModeNone | Sign | SignAndEncrypt

datatype opcua_auth_mode = Anonymous | Username | X509

record opcua_settings =
  ou_security_policy :: opcua_security_policy
  ou_message_security_mode :: opcua_message_security_mode
  ou_auth_mode :: opcua_auth_mode
  ou_username :: "string option"
  ou_password_env :: "string option"
  ou_user_certificate_path :: "string option"
  ou_user_private_key_path :: "string option"
  ou_pki_dir :: string
  ou_trust_server_certs :: bool
  ou_verify_server_certs :: bool
  ou_connect_timeout_ms :: u64
  ou_request_timeout_ms :: u64
  ou_session_timeout_ms :: u32
  ou_session_retry_limit :: u32

definition opcua_settings_default :: opcua_settings where
  "opcua_settings_default = \<lparr>ou_security_policy = PolicyNone, ou_message_security_mode = ModeNone,
     ou_auth_mode = Anonymous, ou_username = None, ou_password_env = None,
     ou_user_certificate_path = None, ou_user_private_key_path = None,
     ou_pki_dir = ''./data/opcua-pki'', ou_trust_server_certs = False,
     ou_verify_server_certs = True, ou_connect_timeout_ms = 5000, ou_request_timeout_ms = 5000,
     ou_session_timeout_ms = 60000, ou_session_retry_limit = 3\<rparr>"

definition required_non_empty :: "string option \<Rightarrow> string \<Rightarrow> string + unit" where
  "required_non_empty value label =
     (if (case value of None \<Rightarrow> True | Some v \<Rightarrow> trim v = [])
      then Inl (label @ '' is required'') else Inr ())"

definition opcua_auth_validate :: "opcua_settings \<Rightarrow> string + unit" where
  "opcua_auth_validate s = (case ou_auth_mode s of
       Anonymous \<Rightarrow>
         if ou_username s \<noteq> None \<or> ou_password_env s \<noteq> None
            \<or> ou_user_certificate_path s \<noteq> None \<or> ou_user_private_key_path s \<noteq> None
         then Inl ''anonymous OPC UA authentication cannot define credentials''
         else Inr ()
     | Username \<Rightarrow>
         rbind (required_non_empty (ou_username s) ''OPC UA username'') (\<lambda>_.
         rbind (required_non_empty (ou_password_env s) ''OPC UA password environment variable'') (\<lambda>_.
         if ou_user_certificate_path s \<noteq> None \<or> ou_user_private_key_path s \<noteq> None
         then Inl ''username OPC UA authentication cannot define X.509 credentials''
         else Inr ()))
     | X509 \<Rightarrow>
         rbind (required_non_empty (ou_user_certificate_path s) ''OPC UA user certificate path'') (\<lambda>_.
         rbind (required_non_empty (ou_user_private_key_path s) ''OPC UA user private key path'') (\<lambda>_.
         if ou_username s \<noteq> None \<or> ou_password_env s \<noteq> None
         then Inl ''X.509 OPC UA authentication cannot define username credentials''
         else Inr ())))"

definition opcua_settings_validate :: "opcua_settings \<Rightarrow> string + unit" where
  "opcua_settings_validate s =
     (if ou_security_policy s = PolicyNone \<and> ou_message_security_mode s \<noteq> ModeNone
      then Inl ''OPC UA None security policy requires None message mode''
      else if ou_security_policy s \<noteq> PolicyNone \<and> ou_message_security_mode s = ModeNone
      then Inl ''secured OPC UA policy requires Sign or SignAndEncrypt mode''
      else rbind (opcua_auth_validate s) (\<lambda>_.
        if trim (ou_pki_dir s) = [] then Inl ''OPC UA PKI directory is required''
        else if \<not> (100 \<le> ou_connect_timeout_ms s \<and> ou_connect_timeout_ms s \<le> 120000)
        then Inl ''OPC UA connect timeout must be between 100 and 120000 ms''
        else if \<not> (100 \<le> ou_request_timeout_ms s \<and> ou_request_timeout_ms s \<le> 120000)
        then Inl ''OPC UA request timeout must be between 100 and 120000 ms''
        else if \<not> (1000 \<le> ou_session_timeout_ms s \<and> ou_session_timeout_ms s \<le> 3600000)
        then Inl ''OPC UA session timeout must be between 1000 and 3600000 ms''
        else if ou_session_retry_limit s > 100
        then Inl ''OPC UA session retry limit must not exceed 100''
        else Inr ()))"

subsection \<open>IEC 104\<close>

definition validate_iec104_endpoint :: "string \<Rightarrow> string + unit" where
  "validate_iec104_endpoint endpoint =
     (let target = (case strip_prefix ''tcp://'' endpoint of Some t \<Rightarrow> t | None \<Rightarrow> endpoint) in
      if str_contains endpoint ''://'' \<and> target = endpoint
      then Inl ''IEC 104 endpoint must use host:port or tcp://host:port''
      else rbind (case strip_prefix ''['' target of
             Some bracketed \<Rightarrow> ok_or ''IEC 104 IPv6 endpoint must use [address]:port''
                                 (split_once_str '']:'' bracketed)
           | None \<Rightarrow> ok_or ''IEC 104 endpoint must include a TCP port''
                       (rsplit_once (CHR '':'') target)) (\<lambda>(host, port0).
        if trim host = [] \<or> has_whitespace host then Inl ''IEC 104 endpoint host is invalid''
        else rbind (ok_or ''IEC 104 endpoint port is invalid'' (parse_u16 port0)) (\<lambda>port.
          if port = 0 then Inl ''IEC 104 endpoint port must be greater than zero''
          else Inr ())))"

section \<open>Protocol connections\<close>

record protocol_connection =
  pc_connection_id :: string
  pc_protocol :: protocol_type
  pc_endpoint :: "string option"
  pc_serial :: "serial_settings option"
  pc_iec101 :: "iec101_settings option"
  pc_iec104 :: "iec104_settings option"
  pc_opc_ua :: "opcua_settings option"
  pc_bacnet_ip :: "bacnet_settings option"
  pc_siemens_s7 :: "siemens_settings option"
  pc_omron_fins :: "omron_settings option"
  pc_circuit_breaker :: circuit_breaker_config

definition connection_simulated :: "string \<Rightarrow> protocol_connection" where
  "connection_simulated i = \<lparr>pc_connection_id = i, pc_protocol = Simulated, pc_endpoint = None,
     pc_serial = None, pc_iec101 = None, pc_iec104 = None, pc_opc_ua = None, pc_bacnet_ip = None,
     pc_siemens_s7 = None, pc_omron_fins = None, pc_circuit_breaker = circuit_breaker_default\<rparr>"

definition connection_modbus_rtu_serial :: "string \<Rightarrow> serial_settings \<Rightarrow> protocol_connection" where
  "connection_modbus_rtu_serial i s = \<lparr>pc_connection_id = i, pc_protocol = ModbusRtu,
     pc_endpoint = Some (sr_port s), pc_serial = Some s, pc_iec101 = None, pc_iec104 = None,
     pc_opc_ua = None, pc_bacnet_ip = None, pc_siemens_s7 = None, pc_omron_fins = None,
     pc_circuit_breaker = circuit_breaker_default\<rparr>"

definition connection_modbus_tcp :: "string \<Rightarrow> string \<Rightarrow> protocol_connection" where
  "connection_modbus_tcp i e = \<lparr>pc_connection_id = i, pc_protocol = ModbusTcp,
     pc_endpoint = Some e, pc_serial = None, pc_iec101 = None, pc_iec104 = None,
     pc_opc_ua = None, pc_bacnet_ip = None, pc_siemens_s7 = None, pc_omron_fins = None,
     pc_circuit_breaker = circuit_breaker_default\<rparr>"

definition other_settings_validate :: "protocol_connection \<Rightarrow> string + unit" where
  "other_settings_validate c =
     (if pc_iec101 c \<noteq> None then Inl ''IEC 101 settings are only valid for IEC 101 connections''
      else if pc_iec104 c \<noteq> None then Inl ''IEC 104 settings are only valid for IEC 104 connections''
      else if pc_opc_ua c \<noteq> None then Inl ''OPC UA settings are only valid for OPC UA connections''
      else if pc_bacnet_ip c \<noteq> None then Inl ''BACnet/IP settings are only valid for BACnet/IP connections''
      else if pc_siemens_s7 c \<noteq> None then Inl ''Siemens S7 settings are only valid for Siemens S7 connections''
      else if pc_omron_fins c \<noteq> None then Inl ''Omron FINS settings are only valid for Omron FINS connections''
      else Inr ())"

definition connection_validate :: "protocol_connection \<Rightarrow> string + unit" where
  "connection_validate c =
     rbind (circuit_breaker_validate (pc_circuit_breaker c)) (\<lambda>_.
     case pc_protocol c of
       Iec101 \<Rightarrow> iec101_settings_validate
         (case pc_iec101 c of Some s \<Rightarrow> s | None \<Rightarrow> \<lparr>i1_cp56_timezone_offset_minutes = 0\<rparr>)
     | Iec104 \<Rightarrow>
         rbind (ok_or ''IEC 104 endpoint is required'' (pc_endpoint c)) (\<lambda>e.
         rbind (validate_iec104_endpoint e) (\<lambda>_.
         iec104_settings_validate
           (case pc_iec104 c of Some s \<Rightarrow> s | None \<Rightarrow> \<lparr>i4_cp56_timezone_offset_minutes = 0\<rparr>)))
     | OpcUa \<Rightarrow>
         rbind (ok_or ''OPC UA endpoint is required'' (pc_endpoint c)) (\<lambda>e.
         if \<not> starts_with e ''opc.tcp://'' then Inl ''OPC UA endpoint must use opc.tcp://''
         else rbind (ok_or ''OPC UA settings are required'' (pc_opc_ua c)) opcua_settings_validate)
     | BacnetIp \<Rightarrow>
         rbind (case pc_endpoint c of
                  Some e \<Rightarrow> rbind (parse_bacnet_ip_endpoint e) (\<lambda>_. Inr ())
                | None \<Rightarrow> Inr ()) (\<lambda>_.
         rbind (ok_or ''BACnet/IP settings are required'' (pc_bacnet_ip c)) bacnet_settings_validate)
     | SiemensS7 \<Rightarrow>
         rbind (ok_or ''Siemens S7 endpoint is required'' (pc_endpoint c)) (\<lambda>e.
         rbind (parse_siemens_s7_endpoint e) (\<lambda>_.
         rbind (ok_or ''Siemens S7 settings are required'' (pc_siemens_s7 c)) siemens_settings_validate))
     | OmronFins \<Rightarrow>
         rbind (ok_or ''Omron FINS endpoint is required'' (pc_endpoint c)) (\<lambda>e.
         rbind (parse_omron_fins_endpoint e) (\<lambda>_.
         rbind (ok_or ''Omron FINS settings are required'' (pc_omron_fins c)) omron_settings_validate))
     | _ \<Rightarrow> other_settings_validate c)"

section \<open>What the validators accept\<close>

text \<open>The authentication mode of OPC UA and the credentials that go with it.\<close>

definition opcua_credentials_ok :: "opcua_settings \<Rightarrow> bool" where
  "opcua_credentials_ok s = (case ou_auth_mode s of
       Anonymous \<Rightarrow> ou_username s = None \<and> ou_password_env s = None
         \<and> ou_user_certificate_path s = None \<and> ou_user_private_key_path s = None
     | Username \<Rightarrow> (\<exists>u p. ou_username s = Some u \<and> trim u \<noteq> [] \<and> ou_password_env s = Some p \<and> trim p \<noteq> [])
         \<and> ou_user_certificate_path s = None \<and> ou_user_private_key_path s = None
     | X509 \<Rightarrow> (\<exists>c k. ou_user_certificate_path s = Some c \<and> trim c \<noteq> []
           \<and> ou_user_private_key_path s = Some k \<and> trim k \<noteq> [])
         \<and> ou_username s = None \<and> ou_password_env s = None)"

lemma required_non_empty_ok:
  "required_non_empty v l = Inr () \<longleftrightarrow> (\<exists>s. v = Some s \<and> trim s \<noteq> [])"
  by (cases v) (simp_all add: required_non_empty_def)

lemma rbind_unit_ok: "rbind r (\<lambda>_. f) = Inr y \<longleftrightarrow> r = Inr () \<and> f = Inr y" for r :: "'e + unit"
  by (cases r) simp_all

lemma opcua_auth_validate_ok: "opcua_auth_validate s = Inr () \<longleftrightarrow> opcua_credentials_ok s"
  by (cases "ou_auth_mode s")
    (auto simp: opcua_auth_validate_def opcua_credentials_ok_def rbind_unit_ok required_non_empty_ok)

text \<open>
  OPC UA settings are accepted exactly when the security policy and the message mode are both
  \<open>None\<close> or both secured, the credentials are those of the authentication mode and no
  others, the PKI directory is not blank, and the timeouts and the retry limit are in range.
\<close>

theorem opcua_settings_validate_correct:
  "opcua_settings_validate s = Inr () \<longleftrightarrow>
     (ou_security_policy s = PolicyNone \<longleftrightarrow> ou_message_security_mode s = ModeNone)
     \<and> opcua_credentials_ok s \<and> trim (ou_pki_dir s) \<noteq> []
     \<and> ou_connect_timeout_ms s \<in> {100..120000} \<and> ou_request_timeout_ms s \<in> {100..120000}
     \<and> ou_session_timeout_ms s \<in> {1000..3600000} \<and> ou_session_retry_limit s \<le> 100"
  by (auto simp: opcua_settings_validate_def rbind_unit_ok opcua_auth_validate_ok linorder_not_less
      linorder_not_le)

lemma endpoint_text:
  assumes "host \<noteq> []" "pre \<noteq> []" "32 < (of_char (hd pre) :: nat)" "(of_char (hd pre) :: nat) < 128"
  shows "trim (pre @ host @ '':'' @ show_nat p) = pre @ host @ '':'' @ show_nat p"
  using assms last_show_nat [of p] by (intro trim_plain) simp_all

text \<open>
  A Siemens S7 endpoint that names a host and a non-zero port is read back as that host and
  that port.
\<close>

theorem siemens_s7_endpoint_roundtrip:
  assumes "host \<noteq> []" "\<not> has_whitespace host" "0 < p" "p < 65536"
    and "hd host \<notin> {CHR ''['', CHR '']''}" "last host \<notin> {CHR ''['', CHR '']''}"
  shows "parse_siemens_s7_endpoint (''s7://'' @ host @ '':'' @ show_nat p) = Inr (host, of_nat p)"
proof -
  have "rsplit_once (CHR '':'') (host @ '':'' @ show_nat p) = Some (host, show_nat p)"
    using show_nat_no_colon [of p] by (simp add: rsplit_once_sep)
  moreover have "trim_matches (\<lambda>c. c = CHR ''['' \<or> c = CHR '']'') (trim host) = host"
    using assms by (simp add: trim_no_whitespace trim_matches_id)
  moreover have "(of_nat p :: u16) \<noteq> 0"
    using assms(3,4) by (simp add: of_nat_eq_0_iff word_of_nat_eq_0_iff nat_dvd_not_less)
  ultimately show ?thesis
    using assms endpoint_text [of host "''s7://''" p] strip_prefix_append [of "''s7://''" "host @ '':'' @ show_nat p"]
    by (simp add: parse_siemens_s7_endpoint_def Let_def parse_u16_show_nat)
qed

theorem siemens_s7_endpoint_roundtrip_witness:
  "parse_siemens_s7_endpoint (''s7://'' @ ''plc'' @ '':'' @ show_nat 102) = Inr (''plc'', of_nat 102)"
  by (rule siemens_s7_endpoint_roundtrip) (simp_all add: has_whitespace_def ws_len_def upt_rec)

end
