(* ===== verification/Points.thy ===== *)
theory Points
  imports Connections
begin

text \<open>
  The points of crates/edge-core/src/config.rs: protocol addresses, the Modbus, OPC UA,
  IEC 101/104 and BACnet options of a point, read transforms and the validation of a point
  against its protocol.
\<close>

section \<open>Point options\<close>

datatype modbus_byte_order = BigEndian | LittleEndian

datatype modbus_word_order = MHighWordFirst | MLowWordFirst

datatype modbus_encoding = EncU16 | EncI16 | EncU32 | EncI32 | EncU64 | EncI64 | EncF32 | EncF64

definition register_count :: "modbus_encoding \<Rightarrow> u16" where
  "register_count e = (case e of
       EncU16 \<Rightarrow> 1 | EncI16 \<Rightarrow> 1
     | EncU32 \<Rightarrow> 2 | EncI32 \<Rightarrow> 2 | EncF32 \<Rightarrow> 2
     | EncU64 \<Rightarrow> 4 | EncI64 \<Rightarrow> 4 | EncF64 \<Rightarrow> 4)"

definition encoding_is_float :: "modbus_encoding \<Rightarrow> bool" where
  "encoding_is_float e = (e = EncF32 \<or> e = EncF64)"

definition encoding_is_integer :: "modbus_encoding \<Rightarrow> bool" where
  "encoding_is_integer e = (\<not> encoding_is_float e)"

record modbus_options =
  mo_encoding :: "modbus_encoding option"
  mo_byte_order :: modbus_byte_order
  mo_word_order :: modbus_word_order
  mo_scale :: f64
  mo_offset :: f64
  mo_bit_index :: "u8 option"

definition modbus_options_default :: modbus_options where
  "modbus_options_default = \<lparr>mo_encoding = None, mo_byte_order = BigEndian,
     mo_word_order = MHighWordFirst, mo_scale = f64_one, mo_offset = f64_zero, mo_bit_index = None\<rparr>"

record point_address =
  pa_kind :: string
  pa_value :: string
  pa_modbus :: "modbus_options option"

datatype point_access = ReadOnly | ReadWrite | WriteOnly

definition is_readable :: "point_access \<Rightarrow> bool" where
  "is_readable a = (a = ReadOnly \<or> a = ReadWrite)"

definition is_writable :: "point_access \<Rightarrow> bool" where
  "is_writable a = (a = ReadWrite \<or> a = WriteOnly)"

definition debug_telemetry_type :: "telemetry_type \<Rightarrow> string" where
  "debug_telemetry_type t = (case t of
       TyFloat \<Rightarrow> ''Float'' | TyInteger \<Rightarrow> ''Integer'' | TyBoolean \<Rightarrow> ''Boolean'' | TyText \<Rightarrow> ''Text'')"

datatype opcua_write_type =
    WBoolean | WSByte | WByte | WInt16 | WUInt16 | WInt32 | WUInt32 | WInt64 | WUInt64
  | WFloat | WDouble | WString

definition opcua_write_default_for :: "telemetry_type \<Rightarrow> opcua_write_type" where
  "opcua_write_default_for t = (case t of
       TyBoolean \<Rightarrow> WBoolean | TyInteger \<Rightarrow> WInt32 | TyFloat \<Rightarrow> WFloat | TyText \<Rightarrow> WString)"

definition opcua_write_accepts :: "opcua_write_type \<Rightarrow> telemetry_type \<Rightarrow> bool" where
  "opcua_write_accepts w t = (case w of
       WBoolean \<Rightarrow> t = TyBoolean
     | WFloat \<Rightarrow> t = TyFloat | WDouble \<Rightarrow> t = TyFloat
     | WString \<Rightarrow> t = TyText
     | _ \<Rightarrow> t = TyInteger)"

definition debug_opcua_write_type :: "opcua_write_type \<Rightarrow> string" where
  "debug_opcua_write_type w = (case w of
       WBoolean \<Rightarrow> ''Boolean'' | WSByte \<Rightarrow> ''SByte'' | WByte \<Rightarrow> ''Byte'' | WInt16 \<Rightarrow> ''Int16''
     | WUInt16 \<Rightarrow> ''UInt16'' | WInt32 \<Rightarrow> ''Int32'' | WUInt32 \<Rightarrow> ''UInt32'' | WInt64 \<Rightarrow> ''Int64''
     | WUInt64 \<Rightarrow> ''UInt64'' | WFloat \<Rightarrow> ''Float'' | WDouble \<Rightarrow> ''Double'' | WString \<Rightarrow> ''String'')"

record opcua_point_options =
  uo_write_data_type :: opcua_write_type

definition opcua_point_options_validate ::
  "opcua_point_options \<Rightarrow> telemetry_type \<Rightarrow> string + unit" where
  "opcua_point_options_validate opts t =
     (if \<not> opcua_write_accepts (uo_write_data_type opts) t
      then Inl (''OPC UA write data type '' @ debug_opcua_write_type (uo_write_data_type opts) @
                '' is incompatible with '' @ debug_telemetry_type t @ '' telemetry'')
      else Inr ())"

datatype control_type = SingleCommand | DoubleCommand | SetpointFloat

definition control_default_for :: "telemetry_type \<Rightarrow> control_type option" where
  "control_default_for t = (case t of
       TyBoolean \<Rightarrow> Some SingleCommand | TyInteger \<Rightarrow> Some DoubleCommand
     | TyFloat \<Rightarrow> Some SetpointFloat | TyText \<Rightarrow> None)"

definition control_accepts :: "control_type \<Rightarrow> telemetry_type \<Rightarrow> bool" where
  "control_accepts c t =
     ((c = SingleCommand \<and> t = TyBoolean) \<or> (c = DoubleCommand \<and> t = TyInteger)
      \<or> (c = SetpointFloat \<and> t = TyFloat))"

definition debug_control_type :: "control_type \<Rightarrow> string" where
  "debug_control_type c = (case c of
       SingleCommand \<Rightarrow> ''SingleCommand'' | DoubleCommand \<Rightarrow> ''DoubleCommand''
     | SetpointFloat \<Rightarrow> ''SetpointFloat'')"

record iec_point_options =
  io_control_type :: control_type
  io_select_before_operate :: bool

definition iec_point_options_new :: "control_type \<Rightarrow> iec_point_options" where
  "iec_point_options_new c = \<lparr>io_control_type = c, io_select_before_operate = False\<rparr>"

definition iec104_point_options_validate ::
  "iec_point_options \<Rightarrow> telemetry_type \<Rightarrow> string + unit" where
  "iec104_point_options_validate opts t =
     (if \<not> control_accepts (io_control_type opts) t
      then Inl (''IEC 104 control type '' @ debug_control_type (io_control_type opts) @
                '' is incompatible with '' @ debug_telemetry_type t @ '' telemetry'')
      else Inr ())"

record bacnet_point_options =
  bo_write_priority :: u8

definition bacnet_point_options_validate :: "bacnet_point_options \<Rightarrow> string + unit" where
  "bacnet_point_options_validate opts =
     (if \<not> (1 \<le> bo_write_priority opts \<and> bo_write_priority opts \<le> 16)
      then Inl ''BACnet write priority must be between 1 and 16'' else Inr ())"

section \<open>Read transforms\<close>

datatype point_value_transform =
    Linear f64 f64
  | Clamp f64 f64
  | Round u8
  | Absolute
  | SquareRoot
  | Power f64
  | MapRange f64 f64 f64 f64 bool

definition transform_error :: "point_value_transform \<Rightarrow> string option" where
  "transform_error t = (case t of
       Linear factor offset \<Rightarrow>
         if \<not> f64_is_finite factor \<or> \<not> f64_is_finite offset
         then Some ''linear parameters must be finite'' else None
     | Clamp lo hi \<Rightarrow>
         if \<not> f64_is_finite lo \<or> \<not> f64_is_finite hi \<or> f64_lt hi lo
         then Some ''clamp range must be finite and ordered'' else None
     | Round decimals \<Rightarrow>
         if decimals > 12 then Some ''decimal places cannot exceed 12'' else None
     | Power exponent \<Rightarrow>
         if \<not> f64_is_finite exponent then Some ''power exponent must be finite'' else None
     | MapRange ilo ihi olo ohi _ \<Rightarrow>
         if \<not> f64_is_finite ilo \<or> \<not> f64_is_finite ihi \<or> \<not> f64_is_finite olo
            \<or> \<not> f64_is_finite ohi \<or> f64_eq ilo ihi
         then Some ''range mapping parameters must be finite and input bounds must differ''
         else None
     | Absolute \<Rightarrow> None
     | SquareRoot \<Rightarrow> None)"

fun check_transforms :: "nat \<Rightarrow> point_value_transform list \<Rightarrow> string + unit" where
  "check_transforms index [] = Inr ()"
| "check_transforms index (t # ts) = (case transform_error t of
       Some message \<Rightarrow> Inl (''read processing step '' @ show_nat (index + 1) @ '' '' @ message)
     | None \<Rightarrow> check_transforms (index + 1) ts)"

definition validate_point_read_transforms ::
  "point_value_transform list \<Rightarrow> telemetry_type \<Rightarrow> string + unit" where
  "validate_point_read_transforms ts ty =
     (if length ts > 16 then Inl ''point read processing cannot contain more than 16 steps''
      else if ts \<noteq> [] \<and> \<not> (ty = TyFloat \<or> ty = TyInteger)
      then Inl ''point read processing is only supported for numeric points''
      else check_transforms 0 ts)"

lemma check_transforms_ok: "check_transforms i ts = Inr () \<longleftrightarrow> (\<forall>t \<in> set ts. transform_error t = None)"
  by (induction ts arbitrary: i) (auto split: option.splits)

record telemetry_point_mapping =
  pm_point_id :: string
  pm_device_id :: string
  pm_semantic_id :: string
  pm_protocol_connection_id :: string
  pm_address :: point_address
  pm_value_type :: telemetry_type
  pm_access :: point_access
  pm_opc_ua :: "opcua_point_options option"
  pm_iec101 :: "iec_point_options option"
  pm_iec104 :: "iec_point_options option"
  pm_bacnet :: "bacnet_point_options option"
  pm_unit :: "string option"
  pm_range :: "number_range option"
  pm_read_transforms :: "point_value_transform list"
  pm_interval_ms :: u64

definition mapping_new ::
  "string \<Rightarrow> string \<Rightarrow> string \<Rightarrow> string \<Rightarrow> point_address \<Rightarrow> telemetry_type \<Rightarrow> telemetry_point_mapping" where
  "mapping_new point device semantic conn addr ty =
     \<lparr>pm_point_id = point, pm_device_id = device, pm_semantic_id = semantic,
      pm_protocol_connection_id = conn, pm_address = addr, pm_value_type = ty,
      pm_access = ReadOnly, pm_opc_ua = None, pm_iec101 = None, pm_iec104 = None,
      pm_bacnet = None, pm_unit = None, pm_range = None, pm_read_transforms = [],
      pm_interval_ms = 1000\<rparr>"

section \<open>Modbus points\<close>

definition validate_point_access :: "point_address \<Rightarrow> point_access \<Rightarrow> string + unit" where
  "validate_point_access addr access =
     (if is_writable access \<and> (pa_kind addr = ''input_register'' \<or> pa_kind addr = ''discrete_input'')
      then Inl (''Modbus '' @ pa_kind addr @ '' points are protocol-level read-only'')
      else if is_writable access
           \<and> (case pa_modbus addr of None \<Rightarrow> False | Some opts \<Rightarrow> mo_bit_index opts \<noteq> None)
      then Inl ''writable Modbus register bit fields require an atomic mask-write operation''
      else Inr ())"

definition modbus_bit_index_validate :: "modbus_options \<Rightarrow> telemetry_type \<Rightarrow> string + unit" where
  "modbus_bit_index_validate opts ty = (case mo_bit_index opts of
       None \<Rightarrow> Inr ()
     | Some bit_index \<Rightarrow>
         if bit_index > 15 then Inl ''Modbus register bit index must be between 0 and 15''
         else if ty \<noteq> TyBoolean then Inl ''Modbus register bit fields must use boolean telemetry type''
         else if mo_encoding opts \<noteq> None
         then Inl ''Modbus register bit fields cannot define a numeric encoding''
         else if \<not> f64_eq (mo_scale opts) f64_one \<or> \<not> f64_eq (mo_offset opts) f64_zero
         then Inl ''Modbus register bit fields cannot define scale or offset''
         else Inr ())"

definition validate_modbus_point_options ::
  "point_address \<Rightarrow> telemetry_type \<Rightarrow> point_access \<Rightarrow> string + unit" where
  "validate_modbus_point_options addr ty access =
     rbind (validate_point_access addr access) (\<lambda>_.
     case pa_modbus addr of
       None \<Rightarrow> Inr ()
     | Some opts \<Rightarrow>
         if \<not> (pa_kind addr = ''holding_register'' \<or> pa_kind addr = ''input_register'')
         then Inl ''Modbus decoding options are only valid for register points''
         else if \<not> f64_is_finite (mo_scale opts) \<or> f64_eq (mo_scale opts) f64_zero
                 \<or> \<not> f64_is_finite (mo_offset opts)
         then Inl ''Modbus scale must be finite and non-zero and offset must be finite''
         else rbind (modbus_bit_index_validate opts ty) (\<lambda>_.
           if ty = TyBoolean \<and> mo_encoding opts \<noteq> None
           then Inl ''boolean Modbus register points cannot define a numeric encoding''
           else if ty = TyText \<and> (mo_encoding opts \<noteq> None
                  \<or> \<not> f64_eq (mo_scale opts) f64_one \<or> \<not> f64_eq (mo_offset opts) f64_zero)
           then Inl ''text Modbus register points cannot define numeric decoding options''
           else (case mo_encoding opts of
               None \<Rightarrow> Inr ()
             | Some encoding \<Rightarrow>
                 if ty = TyFloat \<and> \<not> encoding_is_float encoding
                 then Inl ''float Modbus points require f32 or f64 register encoding''
                 else if ty = TyInteger \<and> \<not> encoding_is_integer encoding
                 then Inl ''integer Modbus points require an integer register encoding''
                 else Inr ())))"

section \<open>Protocol addresses\<close>

record dlt645_point_address =
  da_meter_address :: string
  da_data_identifier :: u32
  da_decimal_places :: u8
  da_value_bytes :: "u8 option"

definition dlt645_address_tail :: "string list \<Rightarrow> string + u8 \<times> u8 option" where
  "dlt645_address_tail parts =
     rbind (case parts of
          [] \<Rightarrow> Inr 0
        | text # _ \<Rightarrow> if text = [] then Inr 0
            else ok_or (''invalid DL/T 645 decimal places: '' @ text) (parse_u8 text)) (\<lambda>decimal_places.
     rbind (case drop 1 parts of
          [] \<Rightarrow> Inr None
        | text # _ \<Rightarrow> rbind (ok_or (''invalid DL/T 645 response value byte length: '' @ text)
                               (parse_u8 text)) (\<lambda>v. Inr (Some v))) (\<lambda>value_bytes.
     if drop 2 parts \<noteq> []
     then Inl ''DL/T 645 address must be meter:data_identifier[:decimal_places[:value_bytes]]''
     else if decimal_places > 18 then Inl ''DL/T 645 decimal places cannot exceed 18''
     else if value_bytes = Some 0
     then Inl ''DL/T 645 response value byte length must be at least 1''
     else if (case value_bytes of Some v \<Rightarrow> 252 \<le> v | None \<Rightarrow> False)
     then Inl ''DL/T 645 response value byte length cannot exceed 251''
     else Inr (decimal_places, value_bytes)))"

definition parse_dlt645_point_address :: "string \<Rightarrow> string + dlt645_point_address" where
  "parse_dlt645_point_address value =
     (let parts = split_on (CHR '':'') value; meter = trim (hd parts) in
      if length meter \<noteq> 12 \<or> \<not> list_all is_ascii_digit meter
      then Inl ''DL/T 645 meter address must contain 12 decimal digits''
      else (case drop 1 parts of
          [] \<Rightarrow> Inl ''DL/T 645 data identifier is required''
        | text0 # rest \<Rightarrow>
            let text = (case strip_prefix ''0x'' text0 of
                  Some t \<Rightarrow> t
                | None \<Rightarrow> (case strip_prefix ''0X'' text0 of Some t \<Rightarrow> t | None \<Rightarrow> text0))
            in if length text \<noteq> 8
               then Inl ''DL/T 645 data identifier must contain 8 hexadecimal digits''
               else rbind (ok_or (''invalid DL/T 645 data identifier: '' @ text)
                            (parse_uint 16 (2 ^ 32) text)) (\<lambda>n.
                 rbind (dlt645_address_tail rest) (\<lambda>(decimal_places, value_bytes).
                   Inr \<lparr>da_meter_address = meter, da_data_identifier = of_nat n,
                        da_decimal_places = decimal_places, da_value_bytes = value_bytes\<rparr>))))"

definition parse_iec104_point_address :: "string \<Rightarrow> string + u16 \<times> u32" where
  "parse_iec104_point_address value =
     rbind (ok_or ''IEC 104 address must be common_address:ioa'' (split_once (CHR '':'') value)) (\<lambda>(ca0, ioa0).
     rbind (ok_or ''IEC 104 common address is invalid'' (parse_u16 ca0)) (\<lambda>ca.
     if ca = 0 then Inl ''IEC 104 common address must be greater than zero''
     else rbind (ok_or ''IEC 104 information object address is invalid'' (parse_u32 ioa0)) (\<lambda>ioa.
       if ioa > 0x00FFFFFF then Inl ''IEC 104 information object address exceeds 3-byte range''
       else Inr (ca, ioa))))"

definition parse_iec101_point_address :: "string \<Rightarrow> string + u8 \<times> u16 \<times> u32" where
  "parse_iec101_point_address value =
     (let parts = split_on (CHR '':'') value in
      if length parts \<noteq> 3 then Inl ''IEC 101 address must be link_address:common_address:ioa''
      else rbind (ok_or ''IEC 101 link address is invalid'' (parse_u8 (parts ! 0))) (\<lambda>link.
        if link = - 1 then Inl ''IEC 101 link address 255 is reserved for broadcast''
        else rbind (ok_or ''IEC 101 common address is invalid'' (parse_u16 (parts ! 1))) (\<lambda>ca.
          if ca = 0 then Inl ''IEC 101 common address must be greater than zero''
          else rbind (ok_or ''IEC 101 information object address is invalid'' (parse_u32 (parts ! 2))) (\<lambda>ioa.
            if ioa > 0x00FFFFFF then Inl ''IEC 101 information object address exceeds 3-byte range''
            else Inr (link, ca, ioa)))))"

definition address_iec101 :: "u8 \<Rightarrow> u16 \<Rightarrow> u32 \<Rightarrow> point_address" where
  "address_iec101 link ca ioa = \<lparr>pa_kind = ''iec101_ioa'',
     pa_value = show_nat (unat link) @ '':'' @ show_nat (unat ca) @ '':'' @ show_nat (unat ioa),
     pa_modbus = None\<rparr>"

definition address_iec104 :: "u16 \<Rightarrow> u32 \<Rightarrow> point_address" where
  "address_iec104 ca ioa = \<lparr>pa_kind = ''iec104_ioa'',
     pa_value = show_nat (unat ca) @ '':'' @ show_nat (unat ioa), pa_modbus = None\<rparr>"

definition address_dlt645_vendor :: "string \<Rightarrow> string \<Rightarrow> u8 \<Rightarrow> u8 \<Rightarrow> point_address" where
  "address_dlt645_vendor meter did decimals bytes = \<lparr>pa_kind = ''dlt645_address'',
     pa_value = meter @ '':'' @ did @ '':'' @ show_nat (unat decimals) @ '':'' @ show_nat (unat bytes),
     pa_modbus = None\<rparr>"

definition validate_iec101_point ::
  "point_address \<Rightarrow> telemetry_type \<Rightarrow> point_access \<Rightarrow> iec_point_options option \<Rightarrow> string + unit" where
  "validate_iec101_point addr ty access options =
     (if pa_kind addr \<noteq> ''iec101_ioa'' then Inl ''IEC 101 points require iec101_ioa address kind''
      else rbind (parse_iec101_point_address (pa_value addr)) (\<lambda>_.
        if is_writable access \<and> options = None then Inl ''writable IEC 101 points require a controlType''
        else (case options of
            None \<Rightarrow> Inr ()
          | Some opts \<Rightarrow>
              if \<not> control_accepts (io_control_type opts) ty
              then Inl (''IEC 101 control type '' @ debug_control_type (io_control_type opts) @
                        '' is incompatible with '' @ debug_telemetry_type ty @ '' telemetry'')
              else Inr ())))"

definition validate_iec104_point ::
  "point_address \<Rightarrow> telemetry_type \<Rightarrow> point_access \<Rightarrow> iec_point_options option \<Rightarrow> string + unit" where
  "validate_iec104_point addr ty access options =
     (if pa_kind addr \<noteq> ''iec104_ioa'' then Inl ''IEC 104 points require iec104_ioa address kind''
      else rbind (parse_iec104_point_address (pa_value addr)) (\<lambda>_.
        if is_writable access \<and> options = None then Inl ''writable IEC 104 points require a controlType''
        else (case options of None \<Rightarrow> Inr () | Some opts \<Rightarrow> iec104_point_options_validate opts ty)))"

definition validate_opc_ua_node_id :: "string \<Rightarrow> string + unit" where
  "validate_opc_ua_node_id value =
     (let (namespace, identifier0) = (case split_once (CHR '';'') value of
            Some (n, i) \<Rightarrow> (Some n, i) | None \<Rightarrow> (None, value)) in
      rbind (case namespace of
          None \<Rightarrow> Inr ()
        | Some n \<Rightarrow>
            rbind (ok_or ''OPC UA NodeId namespace must use ns=<index>'' (strip_prefix ''ns='' n)) (\<lambda>index.
            rbind (ok_or ''OPC UA NodeId namespace index is invalid'' (parse_u16 index)) (\<lambda>_. Inr ()))) (\<lambda>_.
      rbind (ok_or ''OPC UA NodeId must use i=, s=, g= or b='' (split_once (CHR ''='') identifier0)) (\<lambda>(kind, identifier).
        if kind \<notin> set [''i'', ''s'', ''g'', ''b''] \<or> trim identifier = []
        then Inl ''OPC UA NodeId must use a non-empty i=, s=, g= or b= identifier''
        else if kind = ''i''
        then rbind (ok_or ''OPC UA numeric NodeId is invalid'' (parse_u32 identifier)) (\<lambda>_. Inr ())
        else Inr ())))"

section \<open>Properties\<close>

lemmas parse_uints = parse_u8_def parse_u16_def parse_u32_def

lemma parse_show_word:
  "parse_u8 (show_nat (unat a)) = Some a" "parse_u16 (show_nat (unat b)) = Some b"
  "parse_u32 (show_nat (unat c)) = Some c"
  using unsigned_less [of a, where 'a = nat] unsigned_less [of b, where 'a = nat]
    unsigned_less [of c, where 'a = nat]
  by (simp_all add: parse_uints parse_show_nat)

text \<open>
  IEC 101 addresses round-trip: the text built for an address triple is parsed back to the same
  triple exactly when the link address is not the broadcast address, the common address is not zero
  and the object address has three bytes.
\<close>

theorem iec101_address_roundtrip:
  "parse_iec101_point_address (pa_value (address_iec101 link ca ioa)) = Inr (link, ca, ioa) \<longleftrightarrow>
     link \<noteq> - 1 \<and> ca \<noteq> 0 \<and> ioa < 2 ^ 24"
proof -
  have "split_on (CHR '':'') (pa_value (address_iec101 link ca ioa)) =
      [show_nat (unat link), show_nat (unat ca), show_nat (unat ioa)]"
    by (simp add: address_iec101_def split_on_sep split_on_no_sep show_nat_no_colon)
  moreover have "ioa > 0x00FFFFFF \<longleftrightarrow> \<not> ioa < 2 ^ 24"
    by (simp add: word_less_nat_alt) arith
  ultimately show ?thesis
    by (simp add: parse_iec101_point_address_def Let_def parse_show_word)
qed

text \<open>
  DL/T 645 addresses round-trip: twelve digits of meter address, eight hexadecimal digits of
  data identifier, at most 18 decimal places and a value length of 1 to 251 bytes are parsed back.
\<close>

theorem dlt645_address_roundtrip:
  assumes "length meter = 12" "list_all is_ascii_digit meter"
    and "length did = 8" "digits_val 16 did 0 = Some n" "n < 2 ^ 32"
    and "decimals \<le> 18" "1 \<le> bytes" "bytes \<le> 251"
  shows "parse_dlt645_point_address (pa_value (address_dlt645_vendor meter did decimals bytes)) =
     Inr \<lparr>da_meter_address = meter, da_data_identifier = of_nat n,
          da_decimal_places = decimals, da_value_bytes = Some bytes\<rparr>"
proof -
  have digit: "32 < (of_char c :: nat)" "(of_char c :: nat) < 128" "c \<noteq> CHR '':''"
    if "is_ascii_digit c" for c
    using that by (auto simp: is_ascii_digit_def Let_def)
  have meter: "trim meter = meter" "CHR '':'' \<notin> set meter"
  proof -
    have ne: "meter \<noteq> []" using assms(1) by auto
    then show "trim meter = meter"
      using assms(2) hd_in_set [OF ne] last_in_set [OF ne] digit
      by (intro trim_plain) (auto simp: list_all_iff)
    show "CHR '':'' \<notin> set meter" using assms(2) digit(3) by (auto simp: list_all_iff)
  qed
  have hex: "c \<noteq> CHR '':'' \<and> c \<noteq> CHR ''x'' \<and> c \<noteq> CHR ''X'' \<and> c \<noteq> CHR ''+''" if "c \<in> set did" for c
  proof -
    have "digits_val 16 s a = Some m \<Longrightarrow> c \<in> set s \<Longrightarrow> \<exists>d. digit_val c = Some d \<and> d < 16" for s a m
      by (induction s arbitrary: a) (auto split: option.splits if_splits)
    with assms(4) that have "\<exists>d. digit_val c = Some d \<and> d < 16" by blast
    then show ?thesis by (auto simp: digit_val_def)
  qed
  have "CHR '':'' \<notin> set did" using hex by blast
  have parts: "split_on (CHR '':'') (pa_value (address_dlt645_vendor meter did decimals bytes)) =
      [meter, did, show_nat (unat decimals), show_nat (unat bytes)]"
    using meter(2) \<open>CHR '':'' \<notin> set did\<close>
    by (simp add: address_dlt645_vendor_def split_on_sep split_on_no_sep show_nat_no_colon)
  have pre: "strip_prefix ''0x'' did = None" "strip_prefix ''0X'' did = None"
    using hex assms(3) by (auto simp: strip_prefix_def take_Suc_conv_app_nth numeral_eq_Suc)
  have "parse_uint 16 (2 ^ 32) did = Some n"
    using assms(3,4,5) hex [of "hd did"] by (cases did) (auto simp: parse_uint_def)
  moreover have "\<not> decimals > 18" "bytes \<noteq> 0" "\<not> 252 \<le> bytes"
    using assms(6-8) by (auto simp: word_le_nat_alt word_less_nat_alt)
  ultimately show ?thesis
    using assms(1,2,3) meter(1)
    by (simp add: parse_dlt645_point_address_def Let_def parts pre dlt645_address_tail_def parse_show_word)
qed

theorem dlt645_address_roundtrip_witness:
  "parse_dlt645_point_address (pa_value (address_dlt645_vendor ''000000000001'' ''02010100'' 1 2)) =
     Inr \<lparr>da_meter_address = ''000000000001'', da_data_identifier = of_nat 33620224,
          da_decimal_places = 1, da_value_bytes = Some 2\<rparr>"
  by (rule dlt645_address_roundtrip) (simp_all add: is_ascii_digit_def digit_val_def)

end
