(* ===== verification/Data_Config.thy ===== *)
theory Data_Config
  imports Points
begin

text \<open>
  The declarative parts of an edge configuration package (crates/edge-core/src/config.rs):
  collection tasks, data configurations with their visual graph, and command flows. The type
  variable \<open>'j\<close> stands for the JSON values of node parameters.
\<close>

record collection_task =
  ct_task_id :: string
  ct_device_id :: string
  ct_point_ids :: "string list"
  ct_interval_ms :: u64
  ct_enabled :: bool

definition collection_task_interval :: "string \<Rightarrow> string \<Rightarrow> string list \<Rightarrow> u64 \<Rightarrow> collection_task" where
  "collection_task_interval task device points interval =
     \<lparr>ct_task_id = task, ct_device_id = device, ct_point_ids = points, ct_interval_ms = interval,
      ct_enabled = True\<rparr>"

record data_config_collection =
  dc_period_ms :: u64
  dc_timeout_ms :: u64
  dc_retry_count :: u32

definition data_config_collection_new :: "u64 \<Rightarrow> data_config_collection" where
  "data_config_collection_new p = \<lparr>dc_period_ms = p, dc_timeout_ms = 800, dc_retry_count = 2\<rparr>"

record data_config_point =
  dp_point_id :: string
  dp_semantic_id :: string
  dp_address :: point_address
  dp_value_type :: telemetry_type
  dp_unit :: "string option"
  dp_json_field :: string

datatype payload_mode = PayloadObject | PayloadArray

record data_config_payload =
  pl_mode :: payload_mode
  pl_timestamp_field :: string
  pl_include_quality :: bool

definition payload_object :: data_config_payload where
  "payload_object = \<lparr>pl_mode = PayloadObject, pl_timestamp_field = ''ts'', pl_include_quality = True\<rparr>"

record data_config_publish =
  pb_sink_id :: string
  pb_topic_template :: string
  pb_qos :: u8
  pb_payload :: data_config_payload

definition data_config_publish_new ::
  "string \<Rightarrow> string \<Rightarrow> data_config_payload \<Rightarrow> data_config_publish" where
  "data_config_publish_new sink topic payload =
     \<lparr>pb_sink_id = sink, pb_topic_template = topic, pb_qos = 1, pb_payload = payload\<rparr>"

datatype data_graph_node_kind = NodePoint | NodeAlgorithm | NodeJson | NodeMqtt

record 'j data_graph_node =
  gn_node_id :: string
  gn_kind :: data_graph_node_kind
  gn_label :: string
  gn_ref_id :: "string option"
  gn_params :: "string \<rightharpoonup> 'j"

record graph_edge =
  ge_edge_id :: string
  ge_from :: string
  ge_from_port :: "string option"
  ge_to :: string
  ge_to_port :: "string option"

definition edge_new :: "string \<Rightarrow> string \<Rightarrow> string \<Rightarrow> graph_edge" where
  "edge_new i a b = \<lparr>ge_edge_id = i, ge_from = a, ge_from_port = None, ge_to = b, ge_to_port = None\<rparr>"

record 'j data_config_graph =
  dg_nodes :: "'j data_graph_node list"
  dg_edges :: "graph_edge list"

record 'j data_config =
  cf_config_id :: string
  cf_name :: string
  cf_enabled :: bool
  cf_device_id :: string
  cf_protocol_connection_id :: string
  cf_collection :: data_config_collection
  cf_points :: "data_config_point list"
  cf_algorithm_ids :: "string list"
  cf_visual_graph :: "'j data_config_graph"
  cf_publish :: data_config_publish

definition data_config_new ::
  "string \<Rightarrow> string \<Rightarrow> string \<Rightarrow> string \<Rightarrow> data_config_collection \<Rightarrow> data_config_publish \<Rightarrow> 'j data_config" where
  "data_config_new cid name device conn collection publish =
     \<lparr>cf_config_id = cid, cf_name = name, cf_enabled = True, cf_device_id = device,
      cf_protocol_connection_id = conn, cf_collection = collection, cf_points = [],
      cf_algorithm_ids = [], cf_visual_graph = \<lparr>dg_nodes = [], dg_edges = []\<rparr>,
      cf_publish = publish\<rparr>"

datatype command_node_kind = MqttInput | JsonParse | Condition | SafetyGate | PointWrite | MqttReply

record 'j command_node =
  cn_node_id :: string
  cn_kind :: command_node_kind
  cn_label :: string
  cn_ref_id :: "string option"
  cn_params :: "string \<rightharpoonup> 'j"

definition command_node_new :: "string \<Rightarrow> command_node_kind \<Rightarrow> string \<Rightarrow> 'j command_node" where
  "command_node_new i k l =
     \<lparr>cn_node_id = i, cn_kind = k, cn_label = l, cn_ref_id = None, cn_params = Map.empty\<rparr>"

record 'j command_flow =
  fl_flow_id :: string
  fl_name :: string
  fl_enabled :: bool
  fl_protocol_connection_id :: string
  fl_mqtt_connection_id :: string
  fl_subscribe_topic :: string
  fl_qos :: u8
  fl_reply_topic_template :: string
  fl_nodes :: "'j command_node list"
  fl_edges :: "graph_edge list"

definition command_flow_new ::
  "string \<Rightarrow> string \<Rightarrow> string \<Rightarrow> string \<Rightarrow> string \<Rightarrow> 'j command_flow" where
  "command_flow_new fid name mqtt topic reply =
     \<lparr>fl_flow_id = fid, fl_name = name, fl_enabled = True, fl_protocol_connection_id = [],
      fl_mqtt_connection_id = mqtt, fl_subscribe_topic = topic, fl_qos = 1,
      fl_reply_topic_template = reply, fl_nodes = [], fl_edges = []\<rparr>"

end
