(* ===== verification/Scheduler.thy ===== *)
theory Scheduler
  imports Data_Config
begin

text \<open>
  The collection schedules (crates/edge-runtime/src/scheduler.rs) and the pass over the due data
  configurations that the runtime makes with them
  (\<open>collect_due_data_configs_resilient_once\<close> of configured_runtime.rs). The two
  schedules promise the same contract, the locale \<open>due_schedule\<close>.
\<close>

section \<open>Schedules\<close>

record scheduled_task =
  st_task_id :: string
  st_interval_ms :: u64
  st_next_due_ms :: u64

record scheduled_data_config =
  sd_config_id :: string
  sd_period_ms :: u64
  sd_next_due_ms :: u64

definition validate_task :: "collection_task \<Rightarrow> string + unit" where
  "validate_task task =
     (if trim (ct_task_id task) = [] then Inl ''collection task id is required''
      else if ct_interval_ms task = 0 then Inl ''collection task interval must be greater than zero''
      else if ct_point_ids task = [] then Inl ''collection task must contain at least one point''
      else Inr ())"

definition validate_data_config :: "'j data_config \<Rightarrow> string + unit" where
  "validate_data_config c =
     (if trim (cf_config_id c) = [] then Inl ''data config id is required''
      else if dc_period_ms (cf_collection c) = 0
      then Inl ''data config collection period must be greater than zero''
      else if cf_points c = [] then Inl ''data config must contain at least one point''
      else Inr ())"

definition tasks_from_package :: "collection_task list \<Rightarrow> string + scheduled_task list" where
  "tasks_from_package tasks = collect (\<lambda>t. rbind (validate_task t) (\<lambda>_. Inr
     \<lparr>st_task_id = ct_task_id t, st_interval_ms = ct_interval_ms t, st_next_due_ms = 0\<rparr>))
     (filter ct_enabled tasks)"

definition due_task_ids :: "scheduled_task list \<Rightarrow> u64 \<Rightarrow> string list" where
  "due_task_ids ts now = map st_task_id (filter (\<lambda>t. now \<ge> st_next_due_ms t) ts)"

fun mark_task_ran :: "string \<Rightarrow> u64 \<Rightarrow> scheduled_task list \<Rightarrow> string + scheduled_task list" where
  "mark_task_ran k now [] = Inl (''collection task not scheduled: '' @ k)"
| "mark_task_ran k now (t # ts) =
     (if st_task_id t = k
      then Inr (t\<lparr>st_next_due_ms := saturating_add now (st_interval_ms t)\<rparr> # ts)
      else rbind (mark_task_ran k now ts) (\<lambda>ts'. Inr (t # ts')))"

definition data_configs_from_package :: "'j data_config list \<Rightarrow> string + scheduled_data_config list" where
  "data_configs_from_package cs = collect (\<lambda>c. rbind (validate_data_config c) (\<lambda>_. Inr
     \<lparr>sd_config_id = cf_config_id c, sd_period_ms = dc_period_ms (cf_collection c), sd_next_due_ms = 0\<rparr>))
     (filter cf_enabled cs)"

definition due_config_ids :: "scheduled_data_config list \<Rightarrow> u64 \<Rightarrow> string list" where
  "due_config_ids cs now = map sd_config_id (filter (\<lambda>c. now \<ge> sd_next_due_ms c) cs)"

fun mark_config_ran :: "string \<Rightarrow> u64 \<Rightarrow> scheduled_data_config list \<Rightarrow> string + scheduled_data_config list" where
  "mark_config_ran k now [] = Inl (''data config not scheduled: '' @ k)"
| "mark_config_ran k now (c # cs) =
     (if sd_config_id c = k
      then Inr (c\<lparr>sd_next_due_ms := saturating_add now (sd_period_ms c)\<rparr> # cs)
      else rbind (mark_config_ran k now cs) (\<lambda>cs'. Inr (c # cs')))"

section \<open>A pass over the due data configurations\<close>

text \<open>
  \<open>collect_samples\<close> and \<open>publish\<close> are the runtime's collection and publishing steps: they act
  on the runtime and the broker (\<open>'w\<close>) and may fail with a reason. The number of published
  messages is what \<open>publish\<close> returns.
\<close>

record resilient_report =
  rp_data_configs_run :: nat
  rp_data_configs_succeeded :: nat
  rp_data_configs_failed :: nat
  rp_samples_collected :: nat
  rp_mqtt_messages_published :: nat
  rp_failures :: "(string \<times> string) list"

record resilient_counters =
  rc_succeeded :: nat
  rc_samples :: nat
  rc_published :: nat
  rc_failures :: "(string \<times> string) list"

definition collect_and_publish ::
  "(string \<Rightarrow> 'w \<Rightarrow> (string + 's list) \<times> 'w) \<Rightarrow> (string \<Rightarrow> 's list \<Rightarrow> 'w \<Rightarrow> (string + nat) \<times> 'w)
   \<Rightarrow> string \<Rightarrow> 'w \<Rightarrow> resilient_counters \<Rightarrow> 'w \<times> resilient_counters" where
  "collect_and_publish collect_samples publish k w r = (case collect_samples k w of
       (Inl reason, w1) \<Rightarrow> (w1, r\<lparr>rc_failures := rc_failures r @ [(k, reason)]\<rparr>)
     | (Inr samples, w1) \<Rightarrow>
         (let r1 = r\<lparr>rc_samples := rc_samples r + length samples\<rparr> in
          case publish k samples w1 of
            (Inr published, w2) \<Rightarrow>
              (w2, r1\<lparr>rc_succeeded := rc_succeeded r1 + 1, rc_published := rc_published r1 + published\<rparr>)
          | (Inl reason, w2) \<Rightarrow> (w2, r1\<lparr>rc_failures := rc_failures r1 @ [(k, reason)]\<rparr>)))"

fun resilient_pass ::
  "(string \<Rightarrow> 'w \<Rightarrow> (string + 's list) \<times> 'w) \<Rightarrow> (string \<Rightarrow> 's list \<Rightarrow> 'w \<Rightarrow> (string + nat) \<times> 'w)
   \<Rightarrow> u64 \<Rightarrow> string list \<Rightarrow> 'w \<Rightarrow> resilient_counters \<Rightarrow> scheduled_data_config list
   \<Rightarrow> string + 'w \<times> resilient_counters \<times> scheduled_data_config list" where
  "resilient_pass cs pb now [] w r sched = Inr (w, r, sched)"
| "resilient_pass cs pb now (k # ks) w r sched =
     (let (w', r') = collect_and_publish cs pb k w r in
      rbind (mark_config_ran k now sched) (\<lambda>sched'. resilient_pass cs pb now ks w' r' sched'))"

definition collect_due_data_configs_resilient_once ::
  "(string \<Rightarrow> 'w \<Rightarrow> (string + 's list) \<times> 'w) \<Rightarrow> (string \<Rightarrow> 's list \<Rightarrow> 'w \<Rightarrow> (string + nat) \<times> 'w)
   \<Rightarrow> u64 \<Rightarrow> 'w \<Rightarrow> scheduled_data_config list
   \<Rightarrow> string + 'w \<times> resilient_report \<times> scheduled_data_config list" where
  "collect_due_data_configs_resilient_once cs pb now w sched =
     (let due = due_config_ids sched now in
      rbind (resilient_pass cs pb now due w
               \<lparr>rc_succeeded = 0, rc_samples = 0, rc_published = 0, rc_failures = []\<rparr> sched) (\<lambda>(w', r, sched').
        Inr (w', \<lparr>rp_data_configs_run = length due, rp_data_configs_succeeded = rc_succeeded r,
                  rp_data_configs_failed = length (rc_failures r), rp_samples_collected = rc_samples r,
                  rp_mqtt_messages_published = rc_published r, rp_failures = rc_failures r\<rparr>, sched')))"

section \<open>The contract of a schedule\<close>

locale due_schedule =
  fixes wf :: "'s \<Rightarrow> bool" and period :: "'s \<Rightarrow> string \<rightharpoonup> u64"
    and due :: "'s \<Rightarrow> u64 \<Rightarrow> string list" and mark :: "string \<Rightarrow> u64 \<Rightarrow> 's \<Rightarrow> string + 's"
  assumes mark_scheduled: "wf s \<Longrightarrow> period s k = Some p \<Longrightarrow>
      \<exists>s'. mark k t s = Inr s' \<and> wf s' \<and> period s' = period s \<and>
        (\<forall>j n. j \<in> set (due s' n) \<longleftrightarrow> (if j = k then saturating_add t p \<le> n else j \<in> set (due s n)))"
    and mark_unknown: "period s k = None \<Longrightarrow> isl (mark k t s)"
    and due_scheduled: "k \<in> set (due s n) \<Longrightarrow> period s k \<noteq> None"
begin

fun mark_all :: "string list \<Rightarrow> u64 \<Rightarrow> 's \<Rightarrow> string + 's" where
  "mark_all [] t s = Inr s"
| "mark_all (k # ks) t s = rbind (mark k t s) (mark_all ks t)"

text \<open>Marking several ids moves the due moment of exactly these.\<close>

lemma mark_all_scheduled:
  assumes "wf s" "\<forall>k \<in> set ks. period s k \<noteq> None"
  shows "\<exists>s'. mark_all ks t s = Inr s' \<and> wf s' \<and> period s' = period s \<and>
    (\<forall>j n. j \<in> set (due s' n) \<longleftrightarrow>
       (if j \<in> set ks then saturating_add t (the (period s j)) \<le> n else j \<in> set (due s n)))"
  using assms
proof (induction ks arbitrary: s)
  case Nil
  then show ?case by simp
next
  case (Cons k ks)
  then obtain p where p: "period s k = Some p" by auto
  obtain s1 where s1: "mark k t s = Inr s1" "wf s1" "period s1 = period s"
    and due1: "\<And>j n. j \<in> set (due s1 n) \<longleftrightarrow> (if j = k then saturating_add t p \<le> n else j \<in> set (due s n))"
    using mark_scheduled [OF Cons.prems(1) p] by blast
  from Cons.IH [of s1] Cons.prems s1 obtain s2 where s2: "mark_all ks t s1 = Inr s2" "wf s2"
      "period s2 = period s"
    and due2: "\<And>j n. j \<in> set (due s2 n) \<longleftrightarrow>
      (if j \<in> set ks then saturating_add t (the (period s j)) \<le> n else j \<in> set (due s1 n))"
    by auto
  show ?case using s1 s2 due1 due2 p by auto
qed

text \<open>After a pass over the due ids, an id is due again exactly when its period has elapsed.\<close>

lemma mark_due:
  assumes "wf s"
  shows "\<exists>s'. mark_all (due s t) t s = Inr s' \<and> wf s' \<and> period s' = period s \<and>
    (\<forall>j n. j \<in> set (due s' n) \<longleftrightarrow>
       (if j \<in> set (due s t) then saturating_add t (the (period s j)) \<le> n else j \<in> set (due s n)))"
  using mark_all_scheduled [OF assms, of "due s t" t] due_scheduled by blast

end

definition config_wf :: "scheduled_data_config list \<Rightarrow> bool" where
  "config_wf cs = (distinct (map sd_config_id cs) \<and> (\<forall>c \<in> set cs. sd_period_ms c \<noteq> 0))"

definition config_period :: "scheduled_data_config list \<Rightarrow> string \<rightharpoonup> u64" where
  "config_period cs = map_of (map (\<lambda>c. (sd_config_id c, sd_period_ms c)) cs)"

definition task_wf :: "scheduled_task list \<Rightarrow> bool" where
  "task_wf ts = (distinct (map st_task_id ts) \<and> (\<forall>t \<in> set ts. st_interval_ms t \<noteq> 0))"

definition task_period :: "scheduled_task list \<Rightarrow> string \<rightharpoonup> u64" where
  "task_period ts = map_of (map (\<lambda>t. (st_task_id t, st_interval_ms t)) ts)"

lemma due_config_ids_Cons:
  "set (due_config_ids (c # cs) n) =
     (if sd_next_due_ms c \<le> n then {sd_config_id c} else {}) \<union> set (due_config_ids cs n)"
  by (simp add: due_config_ids_def)

lemma due_config_ids_sub: "j \<in> set (due_config_ids cs n) \<Longrightarrow> j \<in> sd_config_id ` set cs"
  by (auto simp: due_config_ids_def)

lemma due_task_ids_Cons:
  "set (due_task_ids (t # ts) n) =
     (if st_next_due_ms t \<le> n then {st_task_id t} else {}) \<union> set (due_task_ids ts n)"
  by (simp add: due_task_ids_def)

lemma due_task_ids_sub: "j \<in> set (due_task_ids ts n) \<Longrightarrow> j \<in> st_task_id ` set ts"
  by (auto simp: due_task_ids_def)

lemma mark_config_scheduled:
  assumes "config_wf cs" "config_period cs k = Some p"
  shows "\<exists>cs'. mark_config_ran k t cs = Inr cs' \<and> config_wf cs' \<and> config_period cs' = config_period cs
    \<and> map sd_config_id cs' = map sd_config_id cs
    \<and> (\<forall>j n. j \<in> set (due_config_ids cs' n) \<longleftrightarrow>
         (if j = k then saturating_add t p \<le> n else j \<in> set (due_config_ids cs n)))"
  using assms
proof (induction cs)
  case Nil
  then show ?case by (simp add: config_period_def)
next
  case (Cons c cs)
  show ?case
  proof (cases "sd_config_id c = k")
    case True
    let ?c = "c\<lparr>sd_next_due_ms := saturating_add t (sd_period_ms c)\<rparr>"
    have p: "p = sd_period_ms c" using True Cons.prems(2) by (simp add: config_period_def)
    have "k \<notin> sd_config_id ` set cs" using True Cons.prems(1) by (simp add: config_wf_def)
    then have "j \<in> set (due_config_ids (?c # cs) n) \<longleftrightarrow>
        (if j = k then saturating_add t p \<le> n else j \<in> set (due_config_ids (c # cs) n))" for j n
      using due_config_ids_sub [of j cs n] True p by (simp add: due_config_ids_Cons) metis
    moreover have "config_wf (?c # cs)" "config_period (?c # cs) = config_period (c # cs)"
      using Cons.prems(1) by (simp_all add: config_wf_def config_period_def)
    ultimately show ?thesis using True by simp
  next
    case False
    with Cons.prems have "config_wf cs" "config_period cs k = Some p"
      by (simp_all add: config_wf_def config_period_def)
    then obtain cs' where cs': "mark_config_ran k t cs = Inr cs'" "config_wf cs'"
        "config_period cs' = config_period cs" "map sd_config_id cs' = map sd_config_id cs"
      and due: "\<And>j n. j \<in> set (due_config_ids cs' n) \<longleftrightarrow>
         (if j = k then saturating_add t p \<le> n else j \<in> set (due_config_ids cs n))"
      using Cons.IH by blast
    have "set (map sd_config_id cs') = set (map sd_config_id cs)" using cs'(4) by simp
    then have wf: "config_wf (c # cs')"
      using cs'(2) Cons.prems(1) by (simp add: config_wf_def)
    have "j \<in> set (due_config_ids (c # cs') n) \<longleftrightarrow>
        (if j = k then saturating_add t p \<le> n else j \<in> set (due_config_ids (c # cs) n))" for j n
      using due [of j n] False by (simp add: due_config_ids_Cons)
    moreover have "config_period (c # cs') = config_period (c # cs)"
      using cs'(3) by (simp only: config_period_def list.map map_of.simps)
    ultimately show ?thesis using False cs' wf by simp
  qed
qed

interpretation data_schedule: due_schedule config_wf config_period due_config_ids mark_config_ran
proof
  show "\<exists>cs'. mark_config_ran k t cs = Inr cs' \<and> config_wf cs' \<and> config_period cs' = config_period cs \<and>
      (\<forall>j n. j \<in> set (due_config_ids cs' n) \<longleftrightarrow>
        (if j = k then saturating_add t p \<le> n else j \<in> set (due_config_ids cs n)))"
    if "config_wf cs" "config_period cs k = Some p" for cs k p t
    using mark_config_scheduled [OF that] by blast
  show "isl (mark_config_ran k t cs)" if "config_period cs k = None" for cs k t
    using that by (induction cs) (auto simp: config_period_def split: if_splits sum.splits)
  show "config_period cs k \<noteq> None" if "k \<in> set (due_config_ids cs n)" for cs k n
    using due_config_ids_sub [OF that] by (auto simp: config_period_def map_of_eq_None_iff image_image)
qed

lemma mark_task_scheduled:
  assumes "task_wf ts" "task_period ts k = Some p"
  shows "\<exists>ts'. mark_task_ran k t ts = Inr ts' \<and> task_wf ts' \<and> task_period ts' = task_period ts
    \<and> map st_task_id ts' = map st_task_id ts
    \<and> (\<forall>j n. j \<in> set (due_task_ids ts' n) \<longleftrightarrow>
         (if j = k then saturating_add t p \<le> n else j \<in> set (due_task_ids ts n)))"
  using assms
proof (induction ts)
  case Nil
  then show ?case by (simp add: task_period_def)
next
  case (Cons c ts)
  show ?case
  proof (cases "st_task_id c = k")
    case True
    let ?c = "c\<lparr>st_next_due_ms := saturating_add t (st_interval_ms c)\<rparr>"
    have p: "p = st_interval_ms c" using True Cons.prems(2) by (simp add: task_period_def)
    have "k \<notin> st_task_id ` set ts" using True Cons.prems(1) by (simp add: task_wf_def)
    then have "j \<in> set (due_task_ids (?c # ts) n) \<longleftrightarrow>
        (if j = k then saturating_add t p \<le> n else j \<in> set (due_task_ids (c # ts) n))" for j n
      using due_task_ids_sub [of j ts n] True p by (simp add: due_task_ids_Cons) metis
    moreover have "task_wf (?c # ts)" "task_period (?c # ts) = task_period (c # ts)"
      using Cons.prems(1) by (simp_all add: task_wf_def task_period_def)
    ultimately show ?thesis using True by simp
  next
    case False
    with Cons.prems have "task_wf ts" "task_period ts k = Some p"
      by (simp_all add: task_wf_def task_period_def)
    then obtain ts' where ts': "mark_task_ran k t ts = Inr ts'" "task_wf ts'"
        "task_period ts' = task_period ts" "map st_task_id ts' = map st_task_id ts"
      and due: "\<And>j n. j \<in> set (due_task_ids ts' n) \<longleftrightarrow>
         (if j = k then saturating_add t p \<le> n else j \<in> set (due_task_ids ts n))"
      using Cons.IH by blast
    have "set (map st_task_id ts') = set (map st_task_id ts)" using ts'(4) by simp
    then have wf: "task_wf (c # ts')"
      using ts'(2) Cons.prems(1) by (simp add: task_wf_def)
    have "j \<in> set (due_task_ids (c # ts') n) \<longleftrightarrow>
        (if j = k then saturating_add t p \<le> n else j \<in> set (due_task_ids (c # ts) n))" for j n
      using due [of j n] False by (simp add: due_task_ids_Cons)
    moreover have "task_period (c # ts') = task_period (c # ts)"
      using ts'(3) by (simp only: task_period_def list.map map_of.simps)
    ultimately show ?thesis using False ts' wf by simp
  qed
qed

interpretation task_schedule: due_schedule task_wf task_period due_task_ids mark_task_ran
proof
  show "\<exists>ts'. mark_task_ran k t ts = Inr ts' \<and> task_wf ts' \<and> task_period ts' = task_period ts \<and>
      (\<forall>j n. j \<in> set (due_task_ids ts' n) \<longleftrightarrow>
        (if j = k then saturating_add t p \<le> n else j \<in> set (due_task_ids ts n)))"
    if "task_wf ts" "task_period ts k = Some p" for ts k p t
    using mark_task_scheduled [OF that] by blast
  show "isl (mark_task_ran k t ts)" if "task_period ts k = None" for ts k t
    using that by (induction ts) (auto simp: task_period_def split: if_splits sum.splits)
  show "task_period ts k \<noteq> None" if "k \<in> set (due_task_ids ts n)" for ts k n
    using due_task_ids_sub [OF that] by (auto simp: task_period_def map_of_eq_None_iff image_image)
qed

section \<open>Properties\<close>

text \<open>The schedule of a package: every enabled entry, due at once.\<close>

lemma data_configs_from_package_ok:
  assumes "data_configs_from_package cs = Inr s"
  shows "map sd_config_id s = map cf_config_id (filter cf_enabled cs)"
    and "map sd_period_ms s = map (\<lambda>c. dc_period_ms (cf_collection c)) (filter cf_enabled cs)"
    and "\<forall>c \<in> set s. sd_next_due_ms c = 0 \<and> sd_period_ms c \<noteq> 0"
proof -
  have "list_all2 (\<lambda>c d. validate_data_config c = Inr () \<and>
      d = \<lparr>sd_config_id = cf_config_id c, sd_period_ms = dc_period_ms (cf_collection c), sd_next_due_ms = 0\<rparr>)
      (filter cf_enabled cs) s"
    using assms unfolding data_configs_from_package_def collect_Inr
    by (rule list_all2_mono) (simp add: rbind_Inr)
  then show "map sd_config_id s = map cf_config_id (filter cf_enabled cs)"
    "map sd_period_ms s = map (\<lambda>c. dc_period_ms (cf_collection c)) (filter cf_enabled cs)"
    "\<forall>c \<in> set s. sd_next_due_ms c = 0 \<and> sd_period_ms c \<noteq> 0"
    by (induction rule: list_all2_induct) (auto simp: validate_data_config_def split: if_splits)
qed

lemma resilient_pass_marks:
  "resilient_pass cs pb now ks w r sched = rbind (data_schedule.mark_all ks now sched) (\<lambda>sched'.
     Inr (case foldl (\<lambda>(w, r) k. collect_and_publish cs pb k w r) (w, r) ks of
            (w', r') \<Rightarrow> (w', r', sched')))"
proof (induction ks arbitrary: w r sched)
  case Nil
  then show ?case by simp
next
  case (Cons k ks)
  obtain w1 r1 where cp: "collect_and_publish cs pb k w r = (w1, r1)" by fastforce
  show ?case by (cases "mark_config_ran k now sched") (simp_all add: cp Cons.IH)
qed

lemma collect_and_publish_counts:
  assumes "collect_and_publish cs pb k w r = (w', r')"
  shows "rc_succeeded r' + length (rc_failures r') = Suc (rc_succeeded r + length (rc_failures r))"
  using assms by (auto simp: collect_and_publish_def Let_def split: prod.splits sum.splits)

lemma foldl_collect_counts:
  "foldl (\<lambda>(w, r) k. collect_and_publish cs pb k w r) (w, r) ks = (w', r') \<Longrightarrow>
     rc_succeeded r' + length (rc_failures r') = rc_succeeded r + length (rc_failures r) + length ks"
proof (induction ks arbitrary: w r)
  case Nil
  then show ?case by simp
next
  case (Cons k ks)
  obtain w1 r1 where cp: "collect_and_publish cs pb k w r = (w1, r1)" by fastforce
  with Cons show ?case using collect_and_publish_counts [OF cp] by simp
qed


definition sample_schedule :: "scheduled_data_config list" where
  "sample_schedule = [\<lparr>sd_config_id = ''a'', sd_period_ms = 1000, sd_next_due_ms = 0\<rparr>,
     \<lparr>sd_config_id = ''b'', sd_period_ms = 50, sd_next_due_ms = 700\<rparr>]"


text \<open>
  Identifiers that occur twice break the schedule: only the first of the two entries is ever
  rescheduled, so the second stays due for good.
\<close>

lemma mark_first_only:
  assumes "sd_config_id a = k" "sd_config_id b = k" "sd_next_due_ms b = 0"
  shows "foldl (\<lambda>s t. rbind s (mark_config_ran k t)) (Inr [a, b]) ts = Inr s' \<Longrightarrow>
    k \<in> set (due_config_ids s' now)"
  using assms(1)
proof (induction ts arbitrary: a)
  case Nil
  then show ?case using assms by (auto simp: due_config_ids_Cons)
next
  case (Cons t ts)
  from Cons.IH [of "a\<lparr>sd_next_due_ms := saturating_add t (sd_period_ms a)\<rparr>"] Cons.prems
  show ?case by simp
qed

text \<open>
  A package with two enabled data configurations of the same id passes the scheduler's
  validation, and that id is then due at every moment, however often it is marked as run.
\<close>

theorem duplicate_config_always_due:
  assumes "validate_data_config c = Inr ()" "validate_data_config d = Inr ()"
    and "cf_enabled c" "cf_enabled d" "cf_config_id c = cf_config_id d"
  shows "\<exists>s. data_configs_from_package [c, d] = Inr s \<and>
    (\<forall>ts s' now. foldl (\<lambda>s t. rbind s (mark_config_ran (cf_config_id c) t)) (Inr s) ts = Inr s' \<longrightarrow>
       cf_config_id c \<in> set (due_config_ids s' now))"
proof -
  let ?e = "\<lambda>x. \<lparr>sd_config_id = cf_config_id x, sd_period_ms = dc_period_ms (cf_collection x),
    sd_next_due_ms = 0\<rparr>"
  have "data_configs_from_package [c, d] = Inr [?e c, ?e d]"
    using assms by (simp add: data_configs_from_package_def)
  then show ?thesis using mark_first_only [of "?e c" "cf_config_id c" "?e d"] assms(5) by auto
qed

definition sample_data_config :: "unit data_config" where
  "sample_data_config = (data_config_new ''a'' [] ''d'' ''c'' (data_config_collection_new 1000)
     (data_config_publish_new ''s'' ''t'' payload_object))\<lparr>cf_points :=
       [\<lparr>dp_point_id = ''p'', dp_semantic_id = ''p'',
         dp_address = \<lparr>pa_kind = ''simulated'', pa_value = ''p'', pa_modbus = None\<rparr>,
         dp_value_type = TyFloat, dp_unit = None, dp_json_field = ''p''\<rparr>]\<rparr>"

theorem duplicate_config_always_due_witness:
  "\<exists>s. data_configs_from_package [sample_data_config, sample_data_config] = Inr s \<and>
    cf_config_id sample_data_config \<in> set (due_config_ids s 5)"
proof -
  have ok: "validate_data_config sample_data_config = Inr ()" "cf_enabled sample_data_config"
    by (simp_all add: sample_data_config_def validate_data_config_def data_config_new_def
        data_config_collection_new_def trim_plain)
  obtain s where "data_configs_from_package [sample_data_config, sample_data_config] = Inr s"
      "\<forall>ts s' now. foldl (\<lambda>s t. rbind s (mark_config_ran (cf_config_id sample_data_config) t)) (Inr s) ts = Inr s' \<longrightarrow>
        cf_config_id sample_data_config \<in> set (due_config_ids s' now)"
    using duplicate_config_always_due [OF ok(1) ok(1) ok(2) ok(2) refl] by blast
  then show ?thesis by (metis foldl_Nil)
qed

end
