(* ===== verification/Circuit_Breaker.thy ===== *)
theory Circuit_Breaker
  imports Connections
begin

text \<open>
  The protocol circuit breaker (crates/edge-runtime/src/circuit_breaker.rs) and the registry that
  keeps one per connection. An \<open>Instant\<close> and a \<open>Duration\<close> are nanosecond counts. The
  registry's mutex serialises its operations, so an interleaving is a sequence of them; a call for
  a connection that was never configured panics, which is \<^term>\<open>None\<close>.
\<close>

section \<open>The breaker\<close>

datatype protocol_circuit_state = Closed | Open | HalfOpen

record circuit_breaker =
  br_config :: circuit_breaker_config
  br_state :: protocol_circuit_state
  br_consecutive_failures :: u32
  br_half_open_successes :: u32
  br_opened_at :: "nat option"
  br_open_count :: u64
  br_rejected_count :: u64

record circuit_breaker_snapshot =
  sn_state :: protocol_circuit_state
  sn_consecutive_failures :: u32
  sn_open_count :: u64
  sn_rejected_count :: u64

datatype circuit_open_error = CircuitOpen (co_connection_id: string) (co_retry_after_ms: u64)

definition breaker_new :: "circuit_breaker_config \<Rightarrow> circuit_breaker" where
  "breaker_new c = \<lparr>br_config = c, br_state = Closed, br_consecutive_failures = 0,
     br_half_open_successes = 0, br_opened_at = None, br_open_count = 0, br_rejected_count = 0\<rparr>"

definition breaker_open :: "nat \<Rightarrow> circuit_breaker \<Rightarrow> circuit_breaker" where
  "breaker_open now b = b\<lparr>br_state := Open, br_opened_at := Some now, br_half_open_successes := 0,
     br_open_count := saturating_add (br_open_count b) 1\<rparr>"

definition breaker_close :: "circuit_breaker \<Rightarrow> circuit_breaker" where
  "breaker_close b = b\<lparr>br_state := Closed, br_consecutive_failures := 0,
     br_half_open_successes := 0, br_opened_at := None\<rparr>"

definition duration_from_millis :: "u64 \<Rightarrow> nat" where
  "duration_from_millis ms = unat ms * 1000000"

definition duration_millis_ceil :: "nat \<Rightarrow> u64" where
  "duration_millis_ceil d =
     (let millis = d div 1000000;
          rounded = (if (d mod 1000000000) mod 1000000 = 0 then millis
                     else min (millis + 1) (2 ^ 128 - 1))
      in of_nat (min rounded (2 ^ 64 - 1)))"

definition allow_request ::
  "string \<Rightarrow> nat \<Rightarrow> circuit_breaker \<Rightarrow> (circuit_open_error + unit) \<times> circuit_breaker" where
  "allow_request conn now b =
     (if \<not> cb_enabled (br_config b) then (Inr (), breaker_close b)
      else if br_state b = Open then
        (let elapsed = (case br_opened_at b of Some t \<Rightarrow> now - t | None \<Rightarrow> 0);
             open_duration = duration_from_millis (cb_open_duration_ms (br_config b))
         in if elapsed \<ge> open_duration
            then (Inr (), b\<lparr>br_state := HalfOpen, br_half_open_successes := 0\<rparr>)
            else (Inl (CircuitOpen conn (duration_millis_ceil (open_duration - elapsed))),
                  b\<lparr>br_rejected_count := saturating_add (br_rejected_count b) 1\<rparr>))
      else (Inr (), b))"

definition record_success :: "circuit_breaker \<Rightarrow> circuit_breaker" where
  "record_success b =
     (if \<not> cb_enabled (br_config b) then breaker_close b
      else (case br_state b of
          Closed \<Rightarrow> b\<lparr>br_consecutive_failures := 0\<rparr>
        | HalfOpen \<Rightarrow>
            (let b' = b\<lparr>br_half_open_successes := saturating_add (br_half_open_successes b) 1\<rparr>
             in if br_half_open_successes b' \<ge> cb_half_open_success_threshold (br_config b')
                then breaker_close b' else b')
        | Open \<Rightarrow> b))"

definition record_failure :: "nat \<Rightarrow> circuit_breaker \<Rightarrow> circuit_breaker" where
  "record_failure now b =
     (if \<not> cb_enabled (br_config b) then breaker_close b
      else (case br_state b of
          Closed \<Rightarrow>
            (let b' = b\<lparr>br_consecutive_failures := saturating_add (br_consecutive_failures b) 1\<rparr>
             in if br_consecutive_failures b' \<ge> cb_failure_threshold (br_config b')
                then breaker_open now b' else b')
        | HalfOpen \<Rightarrow> breaker_open now b
        | Open \<Rightarrow> b))"

definition breaker_snapshot :: "circuit_breaker \<Rightarrow> circuit_breaker_snapshot" where
  "breaker_snapshot b = \<lparr>sn_state = br_state b, sn_consecutive_failures = br_consecutive_failures b,
     sn_open_count = br_open_count b, sn_rejected_count = br_rejected_count b\<rparr>"

section \<open>The registry\<close>

type_synonym breaker_registry = "string \<rightharpoonup> circuit_breaker"

definition configure_one :: "breaker_registry \<Rightarrow> protocol_connection \<Rightarrow> breaker_registry" where
  "configure_one reg c = (case reg (pc_connection_id c) of
       Some b \<Rightarrow> if br_config b = pc_circuit_breaker c then reg
                 else reg(pc_connection_id c \<mapsto> breaker_new (pc_circuit_breaker c))
     | None \<Rightarrow> reg(pc_connection_id c \<mapsto> breaker_new (pc_circuit_breaker c)))"

definition registry_configure :: "protocol_connection list \<Rightarrow> breaker_registry \<Rightarrow> breaker_registry" where
  "registry_configure cs reg = foldl configure_one reg cs"

definition registry_allow_request ::
  "string \<Rightarrow> nat \<Rightarrow> breaker_registry \<Rightarrow>
   ((circuit_open_error + circuit_breaker_snapshot) \<times> breaker_registry) option" where
  "registry_allow_request conn now reg = (case reg conn of
       None \<Rightarrow> None
     | Some b \<Rightarrow> (case allow_request conn now b of
           (Inl e, b') \<Rightarrow> Some (Inl e, reg(conn \<mapsto> b'))
         | (Inr _, b') \<Rightarrow> Some (Inr (breaker_snapshot b'), reg(conn \<mapsto> b'))))"

definition registry_record_success ::
  "string \<Rightarrow> breaker_registry \<Rightarrow> (circuit_breaker_snapshot \<times> breaker_registry) option" where
  "registry_record_success conn reg = (case reg conn of
       None \<Rightarrow> None
     | Some b \<Rightarrow> (let b' = record_success b in Some (breaker_snapshot b', reg(conn \<mapsto> b'))))"

definition registry_record_failure ::
  "string \<Rightarrow> nat \<Rightarrow> breaker_registry \<Rightarrow> (circuit_breaker_snapshot \<times> breaker_registry) option" where
  "registry_record_failure conn now reg = (case reg conn of
       None \<Rightarrow> None
     | Some b \<Rightarrow> (let b' = record_failure now b in Some (breaker_snapshot b', reg(conn \<mapsto> b'))))"

definition registry_snapshot :: "string \<Rightarrow> breaker_registry \<Rightarrow> circuit_breaker_snapshot option" where
  "registry_snapshot conn reg = map_option breaker_snapshot (reg conn)"

section \<open>Invariant and abstract machine\<close>

datatype breaker_event = EvAllow nat | EvSuccess | EvFailure nat

definition breaker_step :: "circuit_breaker \<Rightarrow> breaker_event \<Rightarrow> circuit_breaker" where
  "breaker_step b e = (case e of
       EvAllow t \<Rightarrow> snd (allow_request [] t b)
     | EvSuccess \<Rightarrow> record_success b
     | EvFailure t \<Rightarrow> record_failure t b)"

definition breaker_out :: "circuit_breaker \<Rightarrow> breaker_event \<Rightarrow> u64 option" where
  "breaker_out b e = (case e of
       EvAllow t \<Rightarrow> (case fst (allow_request [] t b) of
           Inl err \<Rightarrow> Some (co_retry_after_ms err) | Inr _ \<Rightarrow> None)
     | _ \<Rightarrow> None)"

definition breaker_inv :: "circuit_breaker \<Rightarrow> bool" where
  "breaker_inv b =
     (circuit_breaker_validate (br_config b) = Inr () \<and>
      (case br_state b of
         Closed \<Rightarrow> br_consecutive_failures b < cb_failure_threshold (br_config b)
           \<and> br_half_open_successes b = 0 \<and> br_opened_at b = None
       | Open \<Rightarrow> br_half_open_successes b = 0 \<and> br_opened_at b \<noteq> None
       | HalfOpen \<Rightarrow> br_half_open_successes b < cb_half_open_success_threshold (br_config b)
           \<and> br_opened_at b \<noteq> None))"

text \<open>
  The contract: closed with a count of consecutive failures, open since a moment, or probing with
  a count of successes.
\<close>

datatype circuit = SClosed nat | SOpen nat | SHalfOpen nat

definition spec_step :: "circuit_breaker_config \<Rightarrow> circuit \<Rightarrow> breaker_event \<Rightarrow> circuit" where
  "spec_step c s e =
     (if \<not> cb_enabled c then SClosed 0
      else (case (s, e) of
          (SOpen t0, EvAllow t) \<Rightarrow>
            if t - t0 \<ge> unat (cb_open_duration_ms c) * 1000000 then SHalfOpen 0 else SOpen t0
        | (SClosed n, EvSuccess) \<Rightarrow> SClosed 0
        | (SClosed n, EvFailure t) \<Rightarrow>
            if Suc n \<ge> unat (cb_failure_threshold c) then SOpen t else SClosed (Suc n)
        | (SHalfOpen k, EvSuccess) \<Rightarrow>
            if Suc k \<ge> unat (cb_half_open_success_threshold c) then SClosed 0 else SHalfOpen (Suc k)
        | (SHalfOpen k, EvFailure t) \<Rightarrow> SOpen t
        | _ \<Rightarrow> s))"

definition spec_out :: "circuit_breaker_config \<Rightarrow> circuit \<Rightarrow> breaker_event \<Rightarrow> u64 option" where
  "spec_out c s e = (case (s, e) of
       (SOpen t0, EvAllow t) \<Rightarrow>
         (let d = unat (cb_open_duration_ms c) * 1000000 in
          if cb_enabled c \<and> t - t0 < d then Some (duration_millis_ceil (d - (t - t0))) else None)
     | _ \<Rightarrow> None)"

definition circuit_of :: "circuit_breaker \<Rightarrow> circuit_breaker_config \<times> circuit" where
  "circuit_of b = (br_config b, case br_state b of
       Closed \<Rightarrow> SClosed (unat (br_consecutive_failures b))
     | Open \<Rightarrow> SOpen (the (br_opened_at b))
     | HalfOpen \<Rightarrow> SHalfOpen (unat (br_half_open_successes b)))"

lemmas breaker_defs = breaker_step_def breaker_out_def allow_request_def record_success_def
  record_failure_def breaker_open_def breaker_close_def Let_def

lemma validated_thresholds:
  assumes "circuit_breaker_validate c = Inr ()"
  shows "0 < cb_failure_threshold c" "0 < cb_half_open_success_threshold c" "0 < cb_open_duration_ms c"
    "0 < unat (cb_failure_threshold c)" "0 < unat (cb_half_open_success_threshold c)"
    "unat (cb_failure_threshold c) \<le> 100" "unat (cb_half_open_success_threshold c) \<le> 10"
    "100 \<le> unat (cb_open_duration_ms c)" "unat (cb_open_duration_ms c) \<le> 3600000"
  using assms
  by (auto simp: circuit_breaker_validate_def word_le_nat_alt word_less_nat_alt split: if_splits)

text \<open>Below a threshold the saturating counters count.\<close>

lemma count_up:
  fixes n t :: u32
  assumes "n < t"
  shows "unat (saturating_add n 1) = Suc (unat n)"
  using assms unsigned_less [of t, where 'a = nat] by (simp add: unat_saturating_add word_less_nat_alt)

lemma count_reaches:
  fixes n t :: u32
  assumes "n < t"
  shows "t \<le> saturating_add n 1 \<longleftrightarrow> unat t \<le> Suc (unat n)"
  using count_up [OF assms] by (simp add: word_le_nat_alt)

lemma breaker_config_step [simp]: "br_config (breaker_step b e) = br_config b"
  by (cases e; cases "br_state b") (simp_all add: breaker_defs)

lemma breaker_inv_new: "circuit_breaker_validate c = Inr () \<Longrightarrow> breaker_inv (breaker_new c)"
  by (simp add: breaker_inv_def breaker_new_def validated_thresholds)

lemma breaker_inv_step:
  assumes "breaker_inv b"
  shows "breaker_inv (breaker_step b e)"
proof -
  have v: "circuit_breaker_validate (br_config b) = Inr ()"
    using assms by (simp add: breaker_inv_def)
  show ?thesis
    using assms validated_thresholds [OF v]
    by (cases e; cases "br_state b")
      (auto simp: breaker_inv_def breaker_defs not_le split: option.splits)
qed

interpretation breaker: simulation breaker_inv breaker_step breaker_out circuit_of
  "\<lambda>(c, s) e. (c, spec_step c s e)" "\<lambda>(c, s) e. spec_out c s e"
proof
  show "breaker_inv (breaker_step b e)" if "breaker_inv b" for b e
    using that by (rule breaker_inv_step)
  show "circuit_of (breaker_step b e) = (case circuit_of b of (c, s) \<Rightarrow> \<lambda>e. (c, spec_step c s e)) e"
    if "breaker_inv b" for b e
    using that
    by (cases e; cases "br_state b")
      (auto simp: circuit_of_def spec_step_def breaker_inv_def breaker_defs count_reaches count_up
        duration_from_millis_def split: option.splits)
  show "breaker_out b e = (case circuit_of b of (c, s) \<Rightarrow> spec_out c s) e" if "breaker_inv b" for b e
    using that
    by (cases e; cases "br_state b")
      (auto simp: circuit_of_def spec_out_def breaker_inv_def breaker_defs
        duration_from_millis_def split: option.splits)
qed

section \<open>Properties\<close>

lemma outputs_with_config:
  "outputs (\<lambda>(c, s) e. (c, spec_step c s e)) (\<lambda>(c, s) e. spec_out c s e) (c, s) es =
     outputs (spec_step c) (spec_out c) s es"
  by (induction es arbitrary: s) simp_all

lemma foldl_with_config:
  "foldl (\<lambda>(c, s) e. (c, spec_step c s e)) (c, s) es = (c, foldl (spec_step c) s es)"
  by (induction es arbitrary: s) simp_all

lemma circuit_of_new: "circuit_of (breaker_new c) = (c, SClosed 0)"
  by (simp add: circuit_of_def breaker_new_def)

text \<open>
  C6. A breaker with a validated configuration implements the three-state contract: driven by any
  sequence of requests, successes and failures it accepts and rejects the same requests, with the
  same retry hints, as the abstract machine, and ends in the matching state.
\<close>

theorem breaker_refines_circuit:
  assumes "circuit_breaker_validate c = Inr ()"
  shows "outputs breaker_step breaker_out (breaker_new c) es = outputs (spec_step c) (spec_out c) (SClosed 0) es
    \<and> circuit_of (foldl breaker_step (breaker_new c) es) = (c, foldl (spec_step c) (SClosed 0) es)"
  using breaker.run_outputs [OF breaker_inv_new [OF assms], of es]
    breaker.run_abs [OF breaker_inv_new [OF assms], of es]
  by (simp_all add: circuit_of_new outputs_with_config foldl_with_config)

theorem breaker_refines_circuit_witness:
  "outputs breaker_step breaker_out (breaker_new circuit_breaker_default) [EvFailure 1, EvAllow 2] = [None, None]
   \<and> circuit_of (foldl breaker_step (breaker_new circuit_breaker_default) [EvFailure 1, EvAllow 2]) =
       (circuit_breaker_default, SClosed 1)"
  using breaker_refines_circuit [OF circuit_breaker_default_valid, of "[EvFailure 1, EvAllow 2]"]
  by (simp_all add: spec_step_def spec_out_def circuit_breaker_default_def)

text \<open>The retry hint is the ceiling, in milliseconds, of the remaining time.\<close>

lemma duration_millis_ceil_bounds:
  assumes "0 < d" "d \<le> (2 ^ 64 - 1) * 1000000"
  shows "d \<le> unat (duration_millis_ceil d) * 1000000"
    and "unat (duration_millis_ceil d) * 1000000 < d + 1000000"
proof -
  define q m where "q = d div 1000000" and "m = d mod 1000000"
  define r where "r = (if m = 0 then q else q + 1)"
  have sub: "(d mod 1000000000) mod 1000000 = d mod 1000000"
    by (simp add: mod_mod_cancel)
  have r: "d \<le> r * 1000000" "r * 1000000 < d + 1000000"
    using div_mult_mod_eq [of d 1000000] mod_less_divisor [of 1000000 d]
    by (auto simp: r_def simp flip: q_def m_def)
  then have "r \<le> 2 ^ 64 - 1" using assms(2) by linarith
  moreover from this have "unat (duration_millis_ceil d) = r"
    unfolding duration_millis_ceil_def Let_def sub unat_of_nat
    by (auto simp: r_def min_def simp flip: q_def m_def split: if_splits)
  ultimately show "d \<le> unat (duration_millis_ceil d) * 1000000"
    "unat (duration_millis_ceil d) * 1000000 < d + 1000000" using r by simp_all
qed

text \<open>
  The retry hint of a rejected request is exact: the request is accepted if it is repeated
  after the hinted number of milliseconds, and rejected at every moment that is a whole
  millisecond or more earlier.
\<close>

theorem retry_hint_exact:
  assumes "breaker_inv b" "br_opened_at b = Some t0" "t0 \<le> now"
    and "allow_request conn now b = (Inl e, b')"
  shows "fst (allow_request conn (now + unat (co_retry_after_ms e) * 1000000) b') = Inr () \<and>
    (\<forall>t. now \<le> t \<and> t + 1000000 \<le> now + unat (co_retry_after_ms e) * 1000000 \<longrightarrow>
         isl (fst (allow_request conn t b')))"
proof -
  define d where "d = duration_from_millis (cb_open_duration_ms (br_config b))"
  have d_le: "d \<le> (2 ^ 64 - 1) * 1000000"
    using unsigned_less [of "cb_open_duration_ms (br_config b)", where 'a = nat]
    by (simp add: d_def duration_from_millis_def)
  have st: "cb_enabled (br_config b)" "br_state b = Open" "now - t0 < d"
    and e: "co_retry_after_ms e = duration_millis_ceil (d - (now - t0))"
    and b': "br_config b' = br_config b" "br_state b' = Open" "br_opened_at b' = Some t0"
    using assms(2,4) by (auto simp: allow_request_def d_def Let_def not_le split: if_splits)
  have dec: "fst (allow_request conn t b') = (if d \<le> t - t0 then Inr () else
      Inl (CircuitOpen conn (duration_millis_ceil (d - (t - t0)))))" for t
    using st b' by (simp add: allow_request_def Let_def d_def)
  define r where "r = unat (co_retry_after_ms e) * 1000000"
  have "d - (now - t0) \<le> r" "r < d - (now - t0) + 1000000"
    unfolding r_def e using duration_millis_ceil_bounds [of "d - (now - t0)"] st d_le by auto
  then show ?thesis unfolding r_def [symmetric] dec using assms(3) by auto
qed

definition tripped_breaker :: circuit_breaker where
  "tripped_breaker = (breaker_new circuit_breaker_default)\<lparr>br_state := Open,
     br_consecutive_failures := 5, br_opened_at := Some 7, br_open_count := 1\<rparr>"

lemma tripped_breaker_inv: "breaker_inv tripped_breaker"
  by (simp add: tripped_breaker_def breaker_inv_def breaker_new_def circuit_breaker_default_valid)

theorem retry_hint_exact_witness:
  "fst (allow_request ''c'' (8 + unat (30000 :: u64) * 1000000)
     (tripped_breaker\<lparr>br_rejected_count := 1\<rparr>)) = Inr ()"
proof -
  have "br_opened_at tripped_breaker = Some 7" by (simp add: tripped_breaker_def)
  moreover have "allow_request ''c'' 8 tripped_breaker =
      (Inl (CircuitOpen ''c'' 30000), tripped_breaker\<lparr>br_rejected_count := 1\<rparr>)"
    by (simp add: tripped_breaker_def allow_request_def breaker_new_def circuit_breaker_default_def
        duration_from_millis_def duration_millis_ceil_def saturating_add_def)
  ultimately show ?thesis
    using tripped_breaker_inv retry_hint_exact [of tripped_breaker 7 8 "''c''" "CircuitOpen ''c'' 30000"] by simp
qed

text \<open>A fresh breaker after failures only.\<close>

lemma spec_failures:
  assumes "circuit_breaker_validate c = Inr ()" "cb_enabled c" "n < unat (cb_failure_threshold c)"
  shows "(\<exists>t. foldl (spec_step c) (SClosed n) (map EvFailure ts) = SOpen t)
           = (unat (cb_failure_threshold c) \<le> n + length ts)"
  using assms(3)
proof (induction ts arbitrary: n)
  case Nil
  then show ?case by simp
next
  case (Cons t ts)
  have stuck: "foldl (spec_step c) (SOpen u) (map EvFailure us) = SOpen u" for u us
    using assms(2) by (induction us) (simp_all add: spec_step_def)
  show ?case
  proof (cases "Suc n < unat (cb_failure_threshold c)")
    case True
    with assms(2) have "spec_step c (SClosed n) (EvFailure t) = SClosed (Suc n)"
      by (simp add: spec_step_def)
    with Cons.IH [OF True] show ?thesis by simp
  next
    case False
    with assms(2) have "spec_step c (SClosed n) (EvFailure t) = SOpen t"
      by (simp add: spec_step_def)
    with False show ?thesis by (simp add: stuck)
  qed
qed

lemma state_of_circuit:
  "br_state b = Open \<longleftrightarrow> (\<exists>t. snd (circuit_of b) = SOpen t)"
  by (cases "br_state b") (simp_all add: circuit_of_def)

text \<open>
  Consecutive failures open a breaker with a validated, enabled configuration exactly when
  there are at least \<open>failure_threshold\<close> of them.
\<close>

theorem breaker_trips_at_threshold:
  assumes "circuit_breaker_validate c = Inr ()" "cb_enabled c"
  shows "br_state (foldl (\<lambda>b t. record_failure t b) (breaker_new c) ts) = Open \<longleftrightarrow>
           unat (cb_failure_threshold c) \<le> length ts"
proof -
  have "foldl (\<lambda>b t. record_failure t b) b ts = foldl breaker_step b (map EvFailure ts)" for b
    by (induction ts arbitrary: b) (simp_all add: breaker_step_def)
  then have "circuit_of (foldl (\<lambda>b t. record_failure t b) (breaker_new c) ts) =
      (c, foldl (spec_step c) (SClosed 0) (map EvFailure ts))"
    using breaker.run_abs [OF breaker_inv_new [OF assms(1)], of "map EvFailure ts"]
    by (simp add: circuit_of_new foldl_with_config)
  then show ?thesis
    using spec_failures [OF assms, of 0 ts] validated_thresholds [OF assms(1)]
    by (simp add: state_of_circuit)
qed

theorem breaker_trips_at_threshold_witness:
  "br_state (foldl (\<lambda>b t. record_failure t b) (breaker_new circuit_breaker_default) [1, 2, 3, 4, 5]) = Open"
  using breaker_trips_at_threshold [OF circuit_breaker_default_valid, of "[1, 2, 3, 4, 5]"]
  by (simp add: circuit_breaker_default_def)

lemma half_open_successes:
  assumes "breaker_inv b" "cb_enabled (br_config b)" "br_state b = HalfOpen" "br_half_open_successes b = 0"
    and "k < unat (cb_half_open_success_threshold (br_config b))"
  shows "circuit_of ((record_success ^^ k) b) = (br_config b, SHalfOpen k) \<and> breaker_inv ((record_success ^^ k) b)"
  using assms(5)
proof (induction k)
  case 0
  then show ?case using assms by (simp add: circuit_of_def)
next
  case (Suc k)
  let ?b = "(record_success ^^ k) b"
  have ih: "circuit_of ?b = (br_config b, SHalfOpen k)" "breaker_inv ?b" using Suc by simp_all
  have eq: "(record_success ^^ Suc k) b = breaker_step ?b EvSuccess" by (simp add: breaker_step_def)
  show ?case unfolding eq
    using breaker.step_abs [OF ih(2), of EvSuccess] breaker.step_inv [OF ih(2), of EvSuccess]
      ih(1) Suc.prems assms(2) by (simp add: spec_step_def)
qed

text \<open>
  C23. An open breaker recovers: once the open duration has passed, the next request is let through
  as a probe, and after exactly \<open>half_open_success_threshold\<close> successes in a row the breaker
  is closed with no failures counted, while with fewer it is still half open.
\<close>

theorem breaker_recovers:
  assumes "breaker_inv b" "cb_enabled (br_config b)" "br_state b = Open" "br_opened_at b = Some opened"
    and "opened + duration_from_millis (cb_open_duration_ms (br_config b)) \<le> now"
    and "h = unat (cb_half_open_success_threshold (br_config b))" "k < h"
  shows "\<exists>b'. allow_request conn now b = (Inr (), b') \<and>
    br_state ((record_success ^^ k) b') = HalfOpen \<and>
    snd (circuit_of ((record_success ^^ h) b')) = SClosed 0"
proof -
  define b' where "b' = b\<lparr>br_state := HalfOpen, br_half_open_successes := 0\<rparr>"
  have allow: "allow_request conn now b = (Inr (), b')"
    using assms(2-5) by (auto simp: allow_request_def b'_def Let_def)
  have cfg: "br_config b' = br_config b" by (simp add: b'_def)
  have v: "circuit_breaker_validate (br_config b) = Inr ()" using assms(1) by (simp add: breaker_inv_def)
  have b': "breaker_inv b'" "br_state b' = HalfOpen" "br_half_open_successes b' = 0"
    using assms(1,4) validated_thresholds [OF v] by (simp_all add: b'_def breaker_inv_def)
  have part: "circuit_of ((record_success ^^ j) b') = (br_config b, SHalfOpen j) \<and>
      breaker_inv ((record_success ^^ j) b')" if "j < h" for j
    using half_open_successes [OF b'(1) _ b'(2,3), of j] that assms(2,6) cfg by simp
  obtain m where m: "h = Suc m" using assms(7) by (cases h) simp_all
  let ?c = "(record_success ^^ m) b'"
  have "circuit_of ((record_success ^^ h) b') = (br_config b, SClosed 0)"
    using part [of m] m assms(2,6) breaker.step_abs [of ?c EvSuccess]
    by (simp add: breaker_step_def spec_step_def)
  moreover have "br_state ((record_success ^^ k) b') = HalfOpen"
    using part [OF assms(7)]
    by (cases "br_state ((record_success ^^ k) b')") (simp_all add: circuit_of_def)
  ultimately show ?thesis using allow by simp
qed

theorem breaker_recovers_witness:
  "\<exists>b'. allow_request ''c'' 30000000007 tripped_breaker = (Inr (), b') \<and>
    br_state ((record_success ^^ 0) b') = HalfOpen \<and>
    snd (circuit_of ((record_success ^^ 1) b')) = SClosed 0"
  by (rule breaker_recovers [OF tripped_breaker_inv, where opened = 7])
    (simp_all add: tripped_breaker_def breaker_new_def circuit_breaker_default_def duration_from_millis_def)

lemma configure_absent:
  "k \<notin> pc_connection_id ` set cs \<Longrightarrow> foldl configure_one reg cs k = reg k"
  by (induction cs arbitrary: reg) (auto simp: configure_one_def split: option.splits)

definition configured_breaker ::
  "circuit_breaker option \<Rightarrow> circuit_breaker_config \<Rightarrow> circuit_breaker" where
  "configured_breaker old c = (case old of
       Some b \<Rightarrow> if br_config b = c then b else breaker_new c
     | None \<Rightarrow> breaker_new c)"

lemma configure_one_at:
  "configure_one reg c k = (if k = pc_connection_id c
     then Some (configured_breaker (reg k) (pc_circuit_breaker c)) else reg k)"
  by (auto simp: configure_one_def configured_breaker_def split: option.splits)

lemma configure_present:
  "distinct (map pc_connection_id cs) \<Longrightarrow> c \<in> set cs \<Longrightarrow>
     foldl configure_one reg cs (pc_connection_id c) =
     Some (configured_breaker (reg (pc_connection_id c)) (pc_circuit_breaker c))"
proof (induction cs arbitrary: reg)
  case Nil
  then show ?case by simp
next
  case (Cons d cs)
  show ?case
  proof (cases "c \<in> set cs")
    case True
    have "pc_connection_id d \<notin> pc_connection_id ` set cs" using Cons.prems(1) by simp
    with True have "pc_connection_id c \<noteq> pc_connection_id d" by (metis imageI)
    with Cons True configure_one_at [of reg d "pc_connection_id c"] show ?thesis by simp
  next
    case False
    with Cons.prems have "c = d" "pc_connection_id c \<notin> pc_connection_id ` set cs" by auto
    then show ?thesis using configure_one_at [of reg d "pc_connection_id d"] by (simp add: configure_absent)
  qed
qed

text \<open>
  Reconfiguring the registry gives every listed connection a breaker with its configuration,
  keeps the state of the breakers whose configuration did not change, and leaves the breakers of
  connections that are not listed alone.
\<close>

theorem registry_configure_correct:
  assumes "distinct (map pc_connection_id cs)"
  shows "(\<forall>c \<in> set cs. registry_configure cs reg (pc_connection_id c) =
       Some (configured_breaker (reg (pc_connection_id c)) (pc_circuit_breaker c)))
    \<and> (\<forall>k. k \<notin> pc_connection_id ` set cs \<longrightarrow> registry_configure cs reg k = reg k)"
  using configure_present [OF assms] by (simp add: registry_configure_def configure_absent)

theorem registry_configure_correct_witness:
  "registry_configure [connection_simulated ''a''] Map.empty ''a'' = Some (breaker_new circuit_breaker_default)
   \<and> registry_configure [connection_simulated ''a''] Map.empty ''b'' = None"
  using registry_configure_correct [of "[connection_simulated ''a'']" Map.empty]
  by (simp add: connection_simulated_def configured_breaker_def)

end
