(* ===== verification/Serial_Bus.thy ===== *)
theory Serial_Bus
  imports Points
begin

text \<open>
  The serial bus of the field protocols (crates/edge-runtime/src/serial.rs and protocol.rs). A bus is a
  state and a function \<open>transact\<close> that sends a request and returns the response or an error; the
  adapters take it as an argument. The locale \<open>serial_bus\<close> is what they rely on: a ghost log to
  which every exchange adds its request. The scripted bus of the repository implements it.
\<close>

type_synonym ('a, 'b) bus_op = "'b \<Rightarrow> (string + 'a) \<times> 'b"

type_synonym 'b transact = "'b \<Rightarrow> u8 list \<Rightarrow> (string + u8 list) \<times> 'b"

definition bus_return :: "'a \<Rightarrow> ('a, 'b) bus_op" where
  "bus_return x b = (Inr x, b)"

definition bus_lift :: "string + 'a \<Rightarrow> ('a, 'b) bus_op" where
  "bus_lift r b = (r, b)"

definition bus_bind :: "('a, 'b) bus_op \<Rightarrow> ('a \<Rightarrow> ('c, 'b) bus_op) \<Rightarrow> ('c, 'b) bus_op" where
  "bus_bind m f b = (case m b of (Inl e, b') \<Rightarrow> (Inl e, b') | (Inr x, b') \<Rightarrow> f x b')"

definition bus_send :: "'b transact \<Rightarrow> u8 list \<Rightarrow> (u8 list, 'b) bus_op" where
  "bus_send transact request b = transact b request"

lemma bus_simps [simp]:
  "bus_bind (bus_return x) f = f x" "bus_bind (bus_lift (Inr x)) f = f x"
  "bus_bind (bus_lift (Inl e)) f = (\<lambda>b. (Inl e, b))"
  by (rule ext, simp add: bus_bind_def bus_return_def bus_lift_def)+

lemma bus_bind_cases:
  "bus_bind m f b = (case m b of (Inl e, b') \<Rightarrow> (Inl e, b') | (Inr x, b') \<Rightarrow> f x b')"
  by (rule bus_bind_def)

lemma bus_bind_Inr:
  "bus_bind m f b = (Inr y, b'') \<longleftrightarrow> (\<exists>x b'. m b = (Inr x, b') \<and> f x b' = (Inr y, b''))"
  by (auto simp: bus_bind_def split: prod.splits sum.splits)

record protocol_write_result =
  wr_point_id :: string
  wr_value :: telemetry_value
  wr_verified :: bool
  wr_readback_value :: "telemetry_value option"

record protocol_point_write =
  pw_mapping :: telemetry_point_mapping
  pw_value :: telemetry_value

section \<open>The scripted bus\<close>

record scripted_bus =
  sb_responses :: "u8 list list"
  sb_requests :: "u8 list list"

definition scripted_new :: "u8 list list \<Rightarrow> scripted_bus" where
  "scripted_new responses = \<lparr>sb_responses = rev responses, sb_requests = []\<rparr>"

definition scripted_transact :: "scripted_bus transact" where
  "scripted_transact b request =
     (let b' = b\<lparr>sb_requests := sb_requests b @ [request]\<rparr> in
      if sb_responses b' = [] then (Inl ''scripted serial bus has no response left'', b')
      else (Inr (last (sb_responses b')), b'\<lparr>sb_responses := butlast (sb_responses b')\<rparr>))"

section \<open>The contract of a bus\<close>

locale serial_bus =
  fixes transact :: "'b transact" and log :: "'b \<Rightarrow> u8 list list"
  assumes transact_log: "log (snd (transact b request)) = log b @ [request]"
begin

text \<open>Operations composed of exchanges only ever append to the log.\<close>

definition appends :: "('a, 'b) bus_op \<Rightarrow> bool" where
  "appends m = (\<forall>b. \<exists>reqs. log (snd (m b)) = log b @ reqs)"

lemma appends_return [intro]: "appends (bus_return x)"
  by (simp add: appends_def bus_return_def)

lemma appends_lift [intro]: "appends (bus_lift r)"
  by (simp add: appends_def bus_lift_def)

lemma appends_send [intro]: "appends (bus_send transact request)"
  using transact_log by (simp add: appends_def bus_send_def)

lemma appends_bind [intro]:
  assumes "appends m" "\<And>x. appends (f x)"
  shows "appends (bus_bind m f)"
  unfolding appends_def
proof
  fix b
  obtain r b' where m: "m b = (r, b')" by fastforce
  obtain xs where xs: "log b' = log b @ xs" using assms(1) m by (auto simp: appends_def dest: spec [of _ b])
  show "\<exists>reqs. log (snd (bus_bind m f b)) = log b @ reqs"
  proof (cases r)
    case (Inl e)
    then show ?thesis using m xs by (simp add: bus_bind_def)
  next
    case (Inr x)
    obtain ys where "log (snd (f x b')) = log b' @ ys" using assms(2) by (auto simp: appends_def)
    then show ?thesis using m xs Inr by (auto simp: bus_bind_def)
  qed
qed

end

interpretation scripted: serial_bus scripted_transact sb_requests
  by unfold_locales (simp add: scripted_transact_def Let_def)

end
