(* ===== verification/Modbus_Batch.thy ===== *)
theory Modbus_Batch
  imports Rust_Base "HOL-Library.Product_Lexorder" "HOL-Library.Multiset"
begin

text \<open>
  Batched Modbus reads (crates/edge-runtime/src/modbus_batch.rs): the points of one poll are grouped
  by station, function and kind, merged into read windows within the limits of the protocol, and
  their bytes are cut out of the response to a window. The sums of the code are computed in
  32 bits from 16-bit operands and do not overflow; they are natural numbers here.
\<close>

section \<open>Definitions\<close>

record read_point =
  mp_mapping_index :: nat
  mp_station_id :: u8
  mp_function :: u8
  mp_offset :: u16
  mp_quantity :: u16
  mp_is_bit :: bool

record read_window =
  mw_station_id :: u8
  mw_function :: u8
  mw_offset :: u16
  mw_quantity :: u16
  mw_is_bit :: bool
  mw_points :: "read_point list"

definition point_end :: "read_point \<Rightarrow> nat" where
  "point_end p = unat (mp_offset p) + unat (mp_quantity p)"

definition window_end :: "read_window \<Rightarrow> nat" where
  "window_end w = unat (mw_offset w) + unat (mw_quantity w)"

fun check_read_points :: "read_point list \<Rightarrow> string + unit" where
  "check_read_points [] = Inr ()"
| "check_read_points (p # ps) =
     (if mp_quantity p = 0 then Inl ''Modbus read point quantity must be greater than zero''
      else if point_end p > 65536 then Inl ''Modbus read point exceeds address range''
      else check_read_points ps)"

definition same_target :: "read_point \<Rightarrow> read_point \<Rightarrow> bool" where
  "same_target a b = (mp_station_id a = mp_station_id b \<and> mp_function a = mp_function b
     \<and> mp_is_bit a = mp_is_bit b)"

fun add_to_group :: "read_point list list \<Rightarrow> read_point \<Rightarrow> read_point list list" where
  "add_to_group [] p = [[p]]"
| "add_to_group (g # gs) p =
     (if (case g of [] \<Rightarrow> False | first # _ \<Rightarrow> same_target first p)
      then (g @ [p]) # gs else g # add_to_group gs p)"

definition read_limit :: "bool \<Rightarrow> nat" where
  "read_limit is_bit = (if is_bit then 2000 else 125)"

definition can_merge :: "read_window \<Rightarrow> read_point \<Rightarrow> bool" where
  "can_merge w p =
     (if mw_station_id w \<noteq> mp_station_id p \<or> mw_function w \<noteq> mp_function p
         \<or> mw_is_bit w \<noteq> mp_is_bit p then False
      else unat (mp_offset p) \<le> window_end w
        \<and> max (window_end w) (point_end p) - unat (mw_offset w) \<le> read_limit (mp_is_bit p))"

definition window_of :: "read_point \<Rightarrow> read_window" where
  "window_of p = \<lparr>mw_station_id = mp_station_id p, mw_function = mp_function p,
     mw_offset = mp_offset p, mw_quantity = mp_quantity p, mw_is_bit = mp_is_bit p, mw_points = [p]\<rparr>"

definition merge_point :: "read_window \<Rightarrow> read_point \<Rightarrow> read_window" where
  "merge_point w p = w\<lparr>mw_quantity := of_nat (max (window_end w) (point_end p) - unat (mw_offset w)),
     mw_points := mw_points w @ [p]\<rparr>"

definition push_point :: "read_window list \<Rightarrow> read_point \<Rightarrow> read_window list" where
  "push_point ws p =
     (if ws \<noteq> [] \<and> can_merge (last ws) p
      then butlast ws @ [merge_point (last ws) p] else ws @ [window_of p])"

definition push_group :: "read_window list \<Rightarrow> read_point list \<Rightarrow> read_window list" where
  "push_group ws g = foldl push_point ws (sort_key (\<lambda>p. (mp_offset p, mp_mapping_index p)) g)"

definition plan_read_windows :: "read_point list \<Rightarrow> string + read_window list" where
  "plan_read_windows ps =
     rbind (check_read_points ps) (\<lambda>_. Inr (foldl push_group [] (foldl add_to_group [] ps)))"

text \<open>\<open>bytes[i / 8] |= 1 << (i % 8)\<close>\<close>

definition or_bit :: "u8 list \<Rightarrow> nat \<Rightarrow> u8 list" where
  "or_bit bs i = bs[i div 8 := bs ! (i div 8) OR push_bit (i mod 8) 1]"

fun extract_bits :: "u8 list \<Rightarrow> nat \<Rightarrow> nat list \<Rightarrow> u8 list \<Rightarrow> string + u8 list" where
  "extract_bits payload rel [] acc = Inr acc"
| "extract_bits payload rel (i # is) acc =
     (let source_bit = rel + i in
      if source_bit div 8 \<ge> length payload then Inl ''Modbus bit response is shorter than its read window''
      else extract_bits payload rel is
        (if payload ! (source_bit div 8) AND push_bit (source_bit mod 8) 1 \<noteq> 0 then or_bit acc i else acc))"

definition extract_point_payload :: "read_window \<Rightarrow> read_point \<Rightarrow> u8 list \<Rightarrow> string + u8 list" where
  "extract_point_payload w p payload =
     (if mp_offset p < mw_offset w then Inl ''Modbus point starts before its read window''
      else
        let rel = unat (mp_offset p) - unat (mw_offset w); rel_end = rel + unat (mp_quantity p) in
        if rel_end > unat (mw_quantity w) then Inl ''Modbus point exceeds its read window''
        else if mw_is_bit w
        then extract_bits payload rel [0 ..< unat (mp_quantity p)]
               (replicate (div_ceil (unat (mp_quantity p)) 8) 0)
        else (case slice_get payload (rel * 2) (rel_end * 2) of
                None \<Rightarrow> Inl ''Modbus register response is shorter than its read window''
              | Some bytes \<Rightarrow> Inr bytes))"

section \<open>The plan\<close>

definition point_ok :: "read_point \<Rightarrow> bool" where
  "point_ok p = (0 < unat (mp_quantity p) \<and> point_end p \<le> 65536)"

lemma check_read_points_ok: "check_read_points ps = Inr () \<longleftrightarrow> (\<forall>p \<in> set ps. point_ok p)"
  by (induction ps) (auto simp: point_ok_def unat_gt_0 not_less)

definition target :: "read_point \<Rightarrow> u8 \<times> u8 \<times> bool" where
  "target p = (mp_station_id p, mp_function p, mp_is_bit p)"

definition window_target :: "read_window \<Rightarrow> u8 \<times> u8 \<times> bool" where
  "window_target w = (mw_station_id w, mw_function w, mw_is_bit w)"

lemma same_target_iff: "same_target a b \<longleftrightarrow> target a = target b"
  by (auto simp: same_target_def target_def)

text \<open>A window reads the addresses of its points and no others, within the protocol limit.\<close>

definition covers :: "read_point \<Rightarrow> nat \<Rightarrow> bool" where
  "covers p a = (unat (mp_offset p) \<le> a \<and> a < point_end p)"

definition window_ok :: "read_window \<Rightarrow> bool" where
  "window_ok w = (mw_points w \<noteq> [] \<and> window_end w \<le> 65536
     \<and> (\<forall>p \<in> set (mw_points w). point_ok p \<and> target p = window_target w)
     \<and> (\<forall>a. unat (mw_offset w) \<le> a \<and> a < window_end w \<longleftrightarrow> (\<exists>p \<in> set (mw_points w). covers p a))
     \<and> ((\<forall>p \<in> set (mw_points w). unat (mp_quantity p) \<le> read_limit (mp_is_bit p))
          \<longrightarrow> unat (mw_quantity w) \<le> read_limit (mw_is_bit w)))"

lemma window_of_ok: "point_ok p \<Longrightarrow> window_ok (window_of p)"
  by (auto simp: window_ok_def window_of_def window_end_def point_end_def point_ok_def covers_def
      target_def window_target_def)

lemma merge_point_ok:
  assumes "window_ok w" "point_ok p" "can_merge w p" "mw_offset w \<le> mp_offset p"
  shows "window_ok (merge_point w p)" "window_target (merge_point w p) = window_target w"
    "mw_offset (merge_point w p) = mw_offset w" "mw_points (merge_point w p) = mw_points w @ [p]"
proof -
  define n where "n = max (window_end w) (point_end p) - unat (mw_offset w)"
  have off: "unat (mw_offset w) \<le> unat (mp_offset p)" using assms(4) by (simp add: word_le_nat_alt)
  have cm: "target p = window_target w" "unat (mp_offset p) \<le> window_end w" "n \<le> read_limit (mp_is_bit p)"
    using assms(3) by (auto simp: can_merge_def target_def window_target_def n_def split: if_splits)
  have "n < 65536" using cm(3) by (simp add: read_limit_def split: if_splits)
  then have q: "unat (of_nat n :: u16) = n" unfolding unat_of_nat by simp
  have we: "window_end (merge_point w p) = max (window_end w) (point_end p)"
    using off q by (auto simp: merge_point_def window_end_def point_end_def n_def [symmetric])
      (simp add: n_def window_end_def point_end_def)
  have range: "unat (mw_offset w) \<le> a \<and> a < max (window_end w) (point_end p) \<longleftrightarrow>
      unat (mw_offset w) \<le> a \<and> a < window_end w \<or> covers p a" for a
    using off cm(2) by (auto simp: covers_def)
  have max: "max (window_end w) (point_end p) \<le> 65536"
    using assms(1,2) by (simp add: window_ok_def point_ok_def)
  have lim: "unat (mw_quantity (merge_point w p)) \<le> read_limit (mw_is_bit w)"
    using cm(1,3) q by (simp add: merge_point_def n_def [symmetric] target_def window_target_def)
  have w: "\<And>a. unat (mw_offset w) \<le> a \<and> a < window_end w \<longleftrightarrow> (\<exists>p \<in> set (mw_points w). covers p a)"
    "\<forall>p \<in> set (mw_points w). point_ok p \<and> target p = window_target w"
    using assms(1) by (simp_all add: window_ok_def)
  show pts: "mw_points (merge_point w p) = mw_points w @ [p]"
    and "window_target (merge_point w p) = window_target w" "mw_offset (merge_point w p) = mw_offset w"
    by (simp_all add: merge_point_def window_target_def)
  then show "window_ok (merge_point w p)"
    unfolding window_ok_def pts we
    using w max lim cm(1) assms(2) range
    by (auto simp: merge_point_def)
qed

definition windows_points :: "read_window list \<Rightarrow> read_point list" where
  "windows_points ws = concat (map mw_points ws)"

text \<open>One group: its points come in the order of their offsets.\<close>

lemma push_point_ok:
  assumes "\<forall>w \<in> set ws. window_ok w" "point_ok p"
    and "ws \<noteq> [] \<Longrightarrow> window_target (last ws) = target p \<Longrightarrow> mw_offset (last ws) \<le> mp_offset p"
  shows "\<forall>w \<in> set (push_point ws p). window_ok w"
    and "windows_points (push_point ws p) = windows_points ws @ [p]"
    and "push_point ws p \<noteq> []" "window_target (last (push_point ws p)) = target p"
    and "mw_offset (last (push_point ws p)) \<le> mp_offset p"
    and "window_target ` set (push_point ws p) \<subseteq> window_target ` set ws \<union> {target p}"
proof -
  have "(\<forall>w \<in> set (push_point ws p). window_ok w) \<and> windows_points (push_point ws p) = windows_points ws @ [p]
    \<and> push_point ws p \<noteq> [] \<and> window_target (last (push_point ws p)) = target p
    \<and> mw_offset (last (push_point ws p)) \<le> mp_offset p
    \<and> window_target ` set (push_point ws p) \<subseteq> window_target ` set ws \<union> {target p}"
  proof (cases "ws \<noteq> [] \<and> can_merge (last ws) p")
    case True
    then obtain vs v where ws: "ws = vs @ [v]" by (cases ws rule: rev_cases) auto
    have t: "window_target v = target p"
      using True ws by (auto simp: can_merge_def target_def window_target_def split: if_splits)
    then have "mw_offset v \<le> mp_offset p" using assms(3) ws by simp
    then have m: "window_ok (merge_point v p)" "window_target (merge_point v p) = window_target v"
        "mw_offset (merge_point v p) = mw_offset v" "mw_points (merge_point v p) = mw_points v @ [p]"
      using merge_point_ok [of v p] assms(1,2) True ws by simp_all
    have "push_point ws p = vs @ [merge_point v p]" using True ws by (simp add: push_point_def)
    then show ?thesis
      using m t \<open>mw_offset v \<le> mp_offset p\<close> assms(1) ws by (auto simp: windows_points_def)
  next
    case False
    then have "push_point ws p = ws @ [window_of p]" by (auto simp: push_point_def)
    then show ?thesis
      using window_of_ok [OF assms(2)] assms(1)
      by (auto simp: windows_points_def window_of_def window_target_def target_def)
  qed
  then show "\<forall>w \<in> set (push_point ws p). window_ok w" "windows_points (push_point ws p) = windows_points ws @ [p]"
    "push_point ws p \<noteq> []" "window_target (last (push_point ws p)) = target p"
    "mw_offset (last (push_point ws p)) \<le> mp_offset p"
    "window_target ` set (push_point ws p) \<subseteq> window_target ` set ws \<union> {target p}" by blast+
qed

lemma push_points_ok:
  assumes "\<forall>w \<in> set ws. window_ok w" "\<forall>p \<in> set g. point_ok p \<and> target p = k"
    and "sorted (map mp_offset g)"
    and "ws \<noteq> [] \<Longrightarrow> window_target (last ws) = k \<Longrightarrow> \<forall>p \<in> set g. mw_offset (last ws) \<le> mp_offset p"
  shows "(\<forall>w \<in> set (foldl push_point ws g). window_ok w)
    \<and> windows_points (foldl push_point ws g) = windows_points ws @ g
    \<and> window_target ` set (foldl push_point ws g) \<subseteq> window_target ` set ws \<union> {k}"
  using assms
proof (induction g arbitrary: ws)
  case Nil
  then show ?case by auto
next
  case (Cons p g)
  note p = push_point_ok [of ws p]
  have prem: "ws \<noteq> [] \<Longrightarrow> window_target (last ws) = target p \<Longrightarrow> mw_offset (last ws) \<le> mp_offset p"
    using Cons.prems(2,4) by simp
  have ok: "point_ok p" "target p = k" using Cons.prems(2) by simp_all
  note q = p [OF Cons.prems(1) ok(1) prem]
  have "\<forall>r \<in> set g. mw_offset (last (push_point ws p)) \<le> mp_offset r"
    using q(5) Cons.prems(3) by auto
  moreover have "\<forall>p \<in> set g. point_ok p \<and> target p = k" "sorted (map mp_offset g)"
    using Cons.prems(2,3) by simp_all
  ultimately have ih: "(\<forall>w \<in> set (foldl push_point (push_point ws p) g). window_ok w)
    \<and> windows_points (foldl push_point (push_point ws p) g) = windows_points (push_point ws p) @ g
    \<and> window_target ` set (foldl push_point (push_point ws p) g)
        \<subseteq> window_target ` set (push_point ws p) \<union> {k}"
    using Cons.IH [OF q(1)] by blast
  have sub: "window_target ` set (push_point ws p) \<union> {k} \<subseteq> window_target ` set ws \<union> {k}"
    using q(6) ok(2) by blast
  show ?case using ih q(2) subset_trans [OF conjunct2 [OF conjunct2 [OF ih]] sub] by simp
qed

lemma sort_by_offset:
  "sorted (map mp_offset (sort_key (\<lambda>p. (mp_offset p, mp_mapping_index p)) g))"
proof -
  have "sorted (map (\<lambda>p. (mp_offset p, mp_mapping_index p)) (sort_key (\<lambda>p. (mp_offset p, mp_mapping_index p)) g))"
    by (rule sorted_sort_key)
  then show ?thesis
    unfolding sorted_map by (rule sorted_wrt_mono_rel [rotated]) (auto simp: less_eq_prod_def)
qed

text \<open>The groups: each has one target, no two have the same.\<close>

definition groups_ok :: "read_point list list \<Rightarrow> bool" where
  "groups_ok gs = ((\<forall>g \<in> set gs. g \<noteq> [] \<and> (\<forall>p \<in> set g. same_target (hd g) p))
     \<and> distinct (map (target \<circ> hd) gs))"

lemma add_to_group_targets:
  assumes "\<forall>g \<in> set gs. g \<noteq> []"
  shows "(target \<circ> hd) ` set (add_to_group gs p) = (target \<circ> hd) ` set gs \<union> {target p}"
  using assms
proof (induction gs)
  case Nil
  then show ?case by simp
next
  case (Cons g gs)
  then obtain f r where "g = f # r" by (cases g) auto
  with Cons show ?case by (auto simp: same_target_iff)
qed

lemma add_to_group_ok:
  assumes "groups_ok gs"
  shows "groups_ok (add_to_group gs p) \<and> mset (concat (add_to_group gs p)) = mset (concat gs) + {#p#}"
  using assms
proof (induction gs)
  case Nil
  then show ?case by (simp add: groups_ok_def same_target_def)
next
  case (Cons g gs)
  have gs: "groups_ok gs" using Cons.prems by (simp add: groups_ok_def)
  have ne: "\<forall>g \<in> set gs. g \<noteq> []" using gs by (simp add: groups_ok_def)
  obtain f r where g: "g = f # r" using Cons.prems by (cases g) (auto simp: groups_ok_def)
  show ?case
  proof (cases "same_target f p")
    case True
    then show ?thesis using Cons.prems g by (auto simp: groups_ok_def)
  next
    case False
    have "target f \<notin> (target \<circ> hd) ` set (add_to_group gs p)"
      unfolding add_to_group_targets [OF ne] using Cons.prems False g
      by (auto simp: groups_ok_def same_target_iff)
    then show ?thesis
      using Cons.IH [OF gs] Cons.prems False g by (simp add: groups_ok_def)
  qed
qed

lemma groups_of_points:
  "groups_ok gs \<Longrightarrow> groups_ok (foldl add_to_group gs ps) \<and>
     mset (concat (foldl add_to_group gs ps)) = mset (concat gs) + mset ps"
proof (induction ps arbitrary: gs)
  case Nil
  then show ?case by simp
next
  case (Cons p ps)
  with add_to_group_ok [OF Cons.prems, of p] show ?case by simp
qed

lemma disjoint_insert_subset: "A \<inter> B = {} \<Longrightarrow> C \<subseteq> B \<union> {k} \<Longrightarrow> k \<notin> A \<Longrightarrow> A \<inter> C = {}"
  by blast

lemma push_groups_ok:
  assumes "\<forall>w \<in> set ws. window_ok w" "groups_ok gs" "\<forall>p \<in> set (concat gs). point_ok p"
    and "(target \<circ> hd) ` set gs \<inter> window_target ` set ws = {}"
  shows "(\<forall>w \<in> set (foldl push_group ws gs). window_ok w)
    \<and> mset (windows_points (foldl push_group ws gs)) = mset (windows_points ws) + mset (concat gs)"
  using assms
proof (induction gs arbitrary: ws)
  case Nil
  then show ?case by simp
next
  case (Cons g gs)
  let ?s = "sort_key (\<lambda>p. (mp_offset p, mp_mapping_index p)) g"
  let ?k = "target (hd g)"
  have g: "\<forall>p \<in> set ?s. point_ok p \<and> target p = ?k"
    using Cons.prems(2,3) by (simp add: groups_ok_def) (metis same_target_iff)
  have new: "?k \<notin> window_target ` set ws" using Cons.prems(4) by simp
  have "window_target (last ws) \<noteq> ?k" if "ws \<noteq> []"
  proof -
    have "window_target (last ws) \<in> window_target ` set ws" using that by simp
    then show ?thesis using new by metis
  qed
  then have p: "\<forall>w \<in> set (push_group ws g). window_ok w"
      "windows_points (push_group ws g) = windows_points ws @ ?s"
      "window_target ` set (push_group ws g) \<subseteq> window_target ` set ws \<union> {?k}"
    using push_points_ok [OF Cons.prems(1) g sort_by_offset] by (auto simp: push_group_def)
  have rest: "groups_ok gs" "?k \<notin> (target \<circ> hd) ` set gs"
    using Cons.prems(2) by (auto simp: groups_ok_def)
  have "(target \<circ> hd) ` set gs \<inter> window_target ` set ws = {}" using Cons.prems(4) by auto
  then have "(target \<circ> hd) ` set gs \<inter> window_target ` set (push_group ws g) = {}"
    using p(3) rest(2) by (rule disjoint_insert_subset)
  moreover have "\<forall>p \<in> set (concat gs). point_ok p" using Cons.prems(3) by simp
  ultimately show ?case using Cons.IH [OF p(1) rest(1)] p(2) by simp
qed

lemma plan_windows_ok:
  "(\<exists>ws. plan_read_windows ps = Inr ws \<and> (\<forall>w \<in> set ws. window_ok w) \<and> mset (windows_points ws) = mset ps)
    \<longleftrightarrow> (\<forall>p \<in> set ps. 0 < unat (mp_quantity p) \<and> point_end p \<le> 65536)"
proof
  assume "\<exists>ws. plan_read_windows ps = Inr ws \<and> (\<forall>w \<in> set ws. window_ok w) \<and> mset (windows_points ws) = mset ps"
  then have "check_read_points ps = Inr ()" by (auto simp: plan_read_windows_def rbind_Inr)
  then show "\<forall>p \<in> set ps. 0 < unat (mp_quantity p) \<and> point_end p \<le> 65536"
    by (simp add: check_read_points_ok point_ok_def)
next
  assume ok: "\<forall>p \<in> set ps. 0 < unat (mp_quantity p) \<and> point_end p \<le> 65536"
  let ?gs = "foldl add_to_group [] ps"
  have gs: "groups_ok ?gs" "mset (concat ?gs) = mset ps"
    using groups_of_points [of "[]" ps] by (simp_all add: groups_ok_def)
  have "set (concat ?gs) = set ps" using gs(2) mset_eq_setD by blast
  with ok have pts: "\<forall>p \<in> set (concat ?gs). point_ok p" by (simp add: point_ok_def)
  have "check_read_points ps = Inr ()"
    using ok by (simp add: check_read_points_ok point_ok_def)
  then show "\<exists>ws. plan_read_windows ps = Inr ws \<and> (\<forall>w \<in> set ws. window_ok w) \<and> mset (windows_points ws) = mset ps"
    using push_groups_ok [of "[]" ?gs] gs pts by (simp add: plan_read_windows_def windows_points_def)
qed

text \<open>
  C1. A read plan reads what was asked for: the windows hold the requested points, each exactly
  once, every window addresses one station, function and kind and stays in the address space,
  it reads exactly the addresses of its points, and it is within the protocol limit of 2000
  bits or 125 registers when its points are. Planning fails only for an empty point or one that
  leaves the address space.
\<close>

theorem plan_read_windows_correct:
  "(\<exists>ws. plan_read_windows ps = Inr ws \<and> (\<forall>w \<in> set ws. window_ok w) \<and> mset (windows_points ws) = mset ps)
    \<longleftrightarrow> (\<forall>p \<in> set ps. 0 < unat (mp_quantity p) \<and> point_end p \<le> 65536)"
  by (rule plan_windows_ok)

definition sample_points :: "read_point list" where
  "sample_points = [\<lparr>mp_mapping_index = 0, mp_station_id = 1, mp_function = 3, mp_offset = 10, mp_quantity = 2, mp_is_bit = False\<rparr>,
     \<lparr>mp_mapping_index = 1, mp_station_id = 1, mp_function = 3, mp_offset = 8, mp_quantity = 2, mp_is_bit = False\<rparr>]"

theorem plan_read_windows_correct_witness:
  "\<exists>ws. plan_read_windows sample_points = Inr ws \<and> mset (windows_points ws) = mset sample_points"
proof -
  have "\<forall>p \<in> set sample_points. 0 < unat (mp_quantity p) \<and> point_end p \<le> 65536"
    by (simp add: sample_points_def point_end_def)
  then show ?thesis using plan_read_windows_correct [of sample_points] by blast
qed

section \<open>Cutting out a point\<close>

definition get_bit :: "u8 list \<Rightarrow> nat \<Rightarrow> bool" where
  "get_bit bs i = bit (bs ! (i div 8)) (i mod 8)"

definition pack_bits :: "(nat \<Rightarrow> bool) \<Rightarrow> nat \<Rightarrow> u8 list" where
  "pack_bits f n = foldl (\<lambda>bs i. if f i then or_bit bs i else bs) (replicate (div_ceil n 8) 0) [0 ..< n]"

lemma test_bit_mask: "(b AND push_bit k 1 \<noteq> 0) = bit b k" if "k < 8" for b :: u8
proof -
  have "bit (b AND push_bit k 1) n \<longleftrightarrow> n = k \<and> bit b k" for n
    using that by (auto simp: bit_simps)
  then show ?thesis by (metis bit_0_eq bot_apply bot_bool_def bit_word_eqI zero_and_eq)
qed

lemma test_bit_power: "(b AND 2 ^ k = 0) = (\<not> bit b k)" if "k < 8" for b :: u8
  using test_bit_mask [OF that, of b] by auto

lemma get_or_bit:
  assumes "i div 8 < length bs" "j div 8 < length bs"
  shows "get_bit (or_bit bs i) j \<longleftrightarrow> j = i \<or> get_bit bs j"
proof (cases "j div 8 = i div 8")
  case True
  then have "j = i \<longleftrightarrow> j mod 8 = i mod 8" by (metis div_mult_mod_eq)
  moreover have "j mod 8 < 8" "i mod 8 < 8" by simp_all
  ultimately show ?thesis
    using True assms by (auto simp: get_bit_def or_bit_def bit_simps)
next
  case False
  then have "j \<noteq> i" by auto
  with False show ?thesis by (simp add: get_bit_def or_bit_def)
qed

lemma length_or_bits [simp]: "length (foldl (\<lambda>bs i. if f i then or_bit bs i else bs) bs is) = length bs"
  by (induction "is" arbitrary: bs) (simp_all add: or_bit_def)

lemma length_pack_bits [simp]: "length (pack_bits f n) = div_ceil n 8"
  by (simp add: pack_bits_def)

lemma get_foldl_or:
  assumes "\<forall>i \<in> set is. i div 8 < length bs" "j div 8 < length bs"
  shows "get_bit (foldl (\<lambda>bs i. if f i then or_bit bs i else bs) bs is) j \<longleftrightarrow>
    (j \<in> set is \<and> f j) \<or> get_bit bs j"
  using assms
proof (induction "is" arbitrary: bs)
  case Nil
  then show ?case by simp
next
  case (Cons i "is")
  then show ?case
    using get_or_bit [of i bs j] by (cases "f i") (auto simp: or_bit_def)
qed

lemma get_pack_bits: "j div 8 < div_ceil n 8 \<Longrightarrow> get_bit (pack_bits f n) j \<longleftrightarrow> j < n \<and> f j"
proof -
  assume j: "j div 8 < div_ceil n 8"
  have "\<forall>i \<in> set [0 ..< n]. i div 8 < length (replicate (div_ceil n 8) (0 :: u8))"
    by (simp add: div_ceil_8_less)
  moreover have "\<not> get_bit (replicate (div_ceil n 8) 0) j" using j by (simp add: get_bit_def)
  ultimately show ?thesis using j by (simp add: pack_bits_def get_foldl_or)
qed

lemma pack_bits_cong: "(\<And>i. i < n \<Longrightarrow> f i = g i) \<Longrightarrow> pack_bits f n = pack_bits g n"
  unfolding pack_bits_def by (intro foldl_cong) auto

lemma extract_bits_pack:
  assumes "\<forall>i \<in> set is. (rel + i) div 8 < length payload"
  shows "extract_bits payload rel is acc =
    Inr (foldl (\<lambda>bs i. if get_bit payload (rel + i) then or_bit bs i else bs) acc is)"
  using assms
proof (induction "is" arbitrary: acc)
  case Nil
  then show ?case by simp
next
  case (Cons i "is")
  then show ?case by (simp add: Let_def get_bit_def test_bit_power not_le)
qed

text \<open>
  What a station answers to a read of \<open>n\<close> addresses from \<open>off\<close>: bits packed from the least
  significant bit of the first byte, or registers most significant byte first.
\<close>

definition bit_response :: "(nat \<Rightarrow> bool) \<Rightarrow> nat \<Rightarrow> nat \<Rightarrow> u8 list" where
  "bit_response mem off n = pack_bits (\<lambda>i. mem (off + i)) n"

definition register_response :: "(nat \<Rightarrow> u16) \<Rightarrow> nat \<Rightarrow> nat \<Rightarrow> u8 list" where
  "register_response mem off n = concat (map (\<lambda>i. to_be_bytes16 (mem (off + i))) [0 ..< n])"

lemma length_register_response [simp]: "length (register_response mem off n) = 2 * n"
  by (induction n) (simp_all add: register_response_def to_be_bytes16_def)

lemma register_response_split:
  "register_response mem off (a + n) = register_response mem off a @ register_response mem (off + a) n"
  by (induction n) (simp_all add: register_response_def add.assoc)

lemma register_response_slice:
  assumes "a + n \<le> m"
  shows "take (n * 2) (drop (a * 2) (register_response mem off m)) = register_response mem (off + a) n"
proof -
  have m: "m = a + (n + (m - a - n))" using assms by simp
  show ?thesis
    by (subst m) (simp only: register_response_split drop_append take_append length_register_response,
      simp add: mult.commute)
qed

lemma extract_window:
  assumes "window_ok w" "p \<in> set (mw_points w)"
  shows "extract_point_payload w p
      (if mw_is_bit w then bit_response bits (unat (mw_offset w)) (unat (mw_quantity w))
       else register_response regs (unat (mw_offset w)) (unat (mw_quantity w)))
    = Inr (if mp_is_bit p then bit_response bits (unat (mp_offset p)) (unat (mp_quantity p))
           else register_response regs (unat (mp_offset p)) (unat (mp_quantity p)))"
proof -
  define rel n m where "rel = unat (mp_offset p) - unat (mw_offset w)" and "n = unat (mp_quantity p)"
    and "m = unat (mw_quantity w)"
  have n: "0 < n" and kind: "mp_is_bit p = mw_is_bit w"
    using assms by (auto simp: window_ok_def point_ok_def n_def target_def window_target_def)
  have cov: "unat (mw_offset w) \<le> a \<and> a < window_end w" if "covers p a" for a
    using assms that by (auto simp: window_ok_def)
  have "covers p (unat (mp_offset p))" "covers p (point_end p - 1)"
    using n by (auto simp: covers_def point_end_def n_def)
  from cov [OF this(1)] cov [OF this(2)] n
  have off: "unat (mw_offset w) \<le> unat (mp_offset p)" and len: "rel + n \<le> m"
    by (auto simp: rel_def n_def m_def point_end_def window_end_def)
  have start: "unat (mw_offset w) + rel = unat (mp_offset p)" using off by (simp add: rel_def)
  have guards: "\<not> mp_offset p < mw_offset w" "\<not> m < rel + n"
    using off len by (simp_all add: word_less_nat_alt)
  have bits: "extract_bits (bit_response bits (unat (mw_offset w)) m) rel [0 ..< n] (replicate (div_ceil n 8) 0)
      = Inr (bit_response bits (unat (mp_offset p)) n)"
  proof -
    have in_range: "(rel + i) div 8 < div_ceil m 8" if "i < n" for i
      using that len by (intro div_ceil_8_less) simp
    then have "extract_bits (bit_response bits (unat (mw_offset w)) m) rel [0 ..< n] (replicate (div_ceil n 8) 0)
        = Inr (pack_bits (\<lambda>i. get_bit (bit_response bits (unat (mw_offset w)) m) (rel + i)) n)"
      by (simp add: extract_bits_pack bit_response_def pack_bits_def)
    also have "pack_bits (\<lambda>i. get_bit (bit_response bits (unat (mw_offset w)) m) (rel + i)) n
        = bit_response bits (unat (mp_offset p)) n"
      using in_range len start
      by (auto intro!: pack_bits_cong simp: bit_response_def get_pack_bits simp flip: add.assoc)
    finally show ?thesis .
  qed
  have "slice_get (register_response regs (unat (mw_offset w)) m) (rel * 2) ((rel + n) * 2) =
      Some (register_response regs (unat (mp_offset p)) n)"
    using len register_response_slice [OF len, of regs "unat (mw_offset w)"] start
    by (simp add: slice_get_def)
  then show ?thesis
    using guards bits kind
    by (simp add: extract_point_payload_def Let_def rel_def [symmetric] n_def [symmetric] m_def [symmetric])
qed

text \<open>
  C15. Batching is invisible to the points: for every point of a window, the bytes cut out of the
  station's answer to the window are the bytes the station would answer to a read of that point
  alone, for bits and for registers.
\<close>

theorem extract_point_payload_transparent:
  assumes "window_ok w" "p \<in> set (mw_points w)"
  shows "extract_point_payload w p
      (if mw_is_bit w then bit_response bits (unat (mw_offset w)) (unat (mw_quantity w))
       else register_response regs (unat (mw_offset w)) (unat (mw_quantity w)))
    = Inr (if mp_is_bit p then bit_response bits (unat (mp_offset p)) (unat (mp_quantity p))
           else register_response regs (unat (mp_offset p)) (unat (mp_quantity p)))"
  using assms by (rule extract_window)

theorem extract_point_payload_transparent_witness:
  "extract_point_payload (window_of (hd sample_points)) (hd sample_points)
      (if mw_is_bit (window_of (hd sample_points)) then bit_response (\<lambda>_. False) 10 2 else register_response of_nat 10 2)
    = Inr (if mp_is_bit (hd sample_points) then bit_response (\<lambda>_. False) 10 2 else register_response of_nat 10 2)"
proof -
  have "window_ok (window_of (hd sample_points))"
    by (rule window_of_ok) (simp add: sample_points_def point_ok_def point_end_def)
  then show ?thesis
    using extract_point_payload_transparent [of "window_of (hd sample_points)" "hd sample_points" "\<lambda>_. False" of_nat]
    by (simp add: sample_points_def window_of_def)
qed

end
