(* ===== verification/Modbus_Codec.thy ===== *)
theory Modbus_Codec
  imports Points
begin

text \<open>
  Register values (crates/edge-runtime/src/modbus_codec.rs): how many registers a point
  occupies, and the translation between telemetry values and 16-bit registers with byte
  order, word order, scale and offset. A shift by more than 15 bits would panic in a checked
  build; it is an error here. Validated options rule it out.
\<close>

section \<open>Definitions\<close>

definition effective_encoding :: "telemetry_type \<Rightarrow> point_address \<Rightarrow> string + modbus_encoding" where
  "effective_encoding ty addr =
     (let encoding = (case Option.bind (pa_modbus addr) mo_encoding of
            Some e \<Rightarrow> e
          | None \<Rightarrow> (case ty of TyFloat \<Rightarrow> EncF32 | _ \<Rightarrow> EncU16)) in
      if ty = TyFloat \<and> \<not> encoding_is_float encoding
      then Inl ''float Modbus points require f32 or f64 register encoding''
      else if ty = TyInteger \<and> \<not> encoding_is_integer encoding
      then Inl ''integer Modbus points require an integer register encoding''
      else Inr encoding)"

definition modbus_quantity :: "bool \<Rightarrow> telemetry_type \<Rightarrow> point_address \<Rightarrow> string + u16" where
  "modbus_quantity is_bit ty addr =
     (if is_bit then
        (if ty \<noteq> TyBoolean then Inl ''Modbus bit points must use boolean telemetry type''
         else if pa_modbus addr \<noteq> None
         then Inl ''Modbus coil and discrete input points cannot define register decoding options''
         else Inr 1)
      else if (case pa_modbus addr of Some opts \<Rightarrow> mo_bit_index opts \<noteq> None | None \<Rightarrow> False) then Inr 1
      else rbind (effective_encoding ty addr) (\<lambda>e. Inr (register_count e)))"

definition require_registers :: "u16 list \<Rightarrow> nat \<Rightarrow> string + unit" where
  "require_registers regs count =
     (if length regs < count
      then Inl (''configured Modbus encoding requires '' @ show_nat count @ '' registers'')
      else Inr ())"

definition registers_to_u64 :: "u16 list \<Rightarrow> nat \<Rightarrow> string + u64" where
  "registers_to_u64 regs count =
     rbind (require_registers regs count) (\<lambda>_.
       Inr (foldl (\<lambda>value reg. push_bit 16 value OR ucast reg) 0 (take count regs)))"

definition decode_float :: "modbus_encoding \<Rightarrow> u16 list \<Rightarrow> string + f64" where
  "decode_float e regs = (case e of
       EncF32 \<Rightarrow> rbind (require_registers regs 2) (\<lambda>_.
         rbind (registers_to_u64 regs 2) (\<lambda>v. Inr (f64_of_f32 (ucast v))))
     | EncF64 \<Rightarrow> rbind (require_registers regs 4) (\<lambda>_. registers_to_u64 regs 4)
     | _ \<Rightarrow> Inl ''configured Modbus encoding is not floating point'')"

definition decode_integer :: "modbus_encoding \<Rightarrow> u16 list \<Rightarrow> string + int" where
  "decode_integer e regs =
     rbind (registers_to_u64 regs (unat (register_count e))) (\<lambda>value. case e of
         EncU16 \<Rightarrow> Inr (uint (ucast value :: u16))
       | EncI16 \<Rightarrow> Inr (sint (ucast value :: u16))
       | EncU32 \<Rightarrow> Inr (uint (ucast value :: u32))
       | EncI32 \<Rightarrow> Inr (sint (ucast value :: u32))
       | EncU64 \<Rightarrow> Inr (uint value)
       | EncI64 \<Rightarrow> Inr (sint value)
       | _ \<Rightarrow> Inl ''configured Modbus encoding is not an integer'')"

definition apply_transform :: "f64 \<Rightarrow> modbus_options \<Rightarrow> string + f64" where
  "apply_transform raw opts =
     (let value = f64_mul_add raw (mo_scale opts) (mo_offset opts) in
      if \<not> f64_is_finite value then Inl ''Modbus scale and offset produced a non-finite value''
      else Inr value)"

definition remove_transform :: "f64 \<Rightarrow> modbus_options \<Rightarrow> string + f64" where
  "remove_transform value opts =
     (if \<not> f64_is_finite value \<or> \<not> f64_is_finite (mo_scale opts) \<or> f64_eq (mo_scale opts) f64_zero
      then Inl ''Modbus write transform requires finite values and a non-zero scale''
      else let raw = f64_div (f64_sub value (mo_offset opts)) (mo_scale opts) in
        if \<not> f64_is_finite raw then Inl ''Modbus write transform produced a non-finite raw value''
        else Inr raw)"

definition decode_integer_value :: "modbus_options \<Rightarrow> int \<Rightarrow> string + telemetry_value" where
  "decode_integer_value opts raw =
     rbind (apply_transform (f64_of_int raw) opts) (\<lambda>value.
       if \<not> f64_eq (f64_fract value) f64_zero
       then Inl ''Modbus integer transform produced a fractional value; configure the point as float''
       else if \<not> (f64_le (f64_of_int (- (2 ^ 63))) value \<and> f64_le value (f64_of_int (2 ^ 63 - 1)))
       then Inl ''Modbus integer transform exceeds i64 range''
       else Inr (Integer (word_of_int (f64_as_int (- (2 ^ 63)) (2 ^ 63 - 1) value))))"

definition options_of :: "point_address \<Rightarrow> modbus_options" where
  "options_of addr = (case pa_modbus addr of Some opts \<Rightarrow> opts | None \<Rightarrow> modbus_options_default)"

definition decode_registers ::
  "modbus_options \<Rightarrow> telemetry_type \<Rightarrow> point_address \<Rightarrow> u16 list \<Rightarrow> string + telemetry_value" where
  "decode_registers opts ty addr regs = (case ty of
       TyFloat \<Rightarrow>
         rbind (effective_encoding ty addr) (\<lambda>e.
         rbind (decode_float e regs) (\<lambda>raw.
         rbind (apply_transform raw opts) (\<lambda>value. Inr (Float value))))
     | TyInteger \<Rightarrow>
         rbind (effective_encoding ty addr) (\<lambda>e.
         rbind (decode_integer e regs) (decode_integer_value opts))
     | TyBoolean \<Rightarrow> Inr (Boolean (hd regs \<noteq> 0))
     | TyText \<Rightarrow> Inr (Text (show_nat (unat (hd regs)))))"

definition decode_modbus_value ::
  "bool \<Rightarrow> telemetry_type \<Rightarrow> point_address \<Rightarrow> u8 list \<Rightarrow> string + telemetry_value" where
  "decode_modbus_value is_bit ty addr payload =
     (if is_bit then
        (case payload of
           [] \<Rightarrow> Inl ''Modbus bit response payload is empty''
         | byte # _ \<Rightarrow> Inr (Boolean (byte AND 1 \<noteq> 0)))
      else if odd (length payload) \<or> payload = []
      then Inl ''Modbus register response must contain complete registers''
      else
        let opts = options_of addr;
            regs = map (\<lambda>(a, b). case mo_byte_order opts of
                BigEndian \<Rightarrow> from_be_bytes16 a b | LittleEndian \<Rightarrow> from_le_bytes16 a b) (chunks2 payload)
        in case mo_bit_index opts of
            Some bit_index \<Rightarrow>
              if bit_index > 15 then Inl ''attempt to shift left with overflow''
              else Inr (Boolean (hd regs AND push_bit (unat bit_index) 1 \<noteq> 0))
          | None \<Rightarrow>
              decode_registers opts ty addr
                (if mo_word_order opts = MLowWordFirst then rev regs else regs))"

text \<open>Big-endian bytes of a word, \<open>to_be_bytes\<close>.\<close>

definition be_bytes :: "'a::len word \<Rightarrow> u8 list" where
  "be_bytes w = map (\<lambda>i. ucast (drop_bit (8 * i) w)) (rev [0 ..< LENGTH('a) div 8])"

definition checked_integer ::
  "int \<Rightarrow> int \<Rightarrow> (int \<Rightarrow> u8 list) \<Rightarrow> f64 \<Rightarrow> string + u8 list" where
  "checked_integer lo hi bytes value =
     (if \<not> (f64_le (f64_of_int lo) value \<and> f64_le value (f64_of_int hi))
      then Inl ''Modbus integer write value is outside the configured encoding range''
      else Inr (bytes (f64_as_int lo hi value)))"

definition encode_integer :: "modbus_encoding \<Rightarrow> f64 \<Rightarrow> string + u8 list" where
  "encode_integer e value =
     (if \<not> f64_eq (f64_fract value) f64_zero
      then Inl ''Modbus integer write transform must produce a whole raw value''
      else (case e of
          EncU16 \<Rightarrow> checked_integer 0 (2 ^ 16 - 1) (\<lambda>i. be_bytes (word_of_int i :: u16)) value
        | EncI16 \<Rightarrow> checked_integer (- (2 ^ 15)) (2 ^ 15 - 1) (\<lambda>i. be_bytes (word_of_int i :: u16)) value
        | EncU32 \<Rightarrow> checked_integer 0 (2 ^ 32 - 1) (\<lambda>i. be_bytes (word_of_int i :: u32)) value
        | EncI32 \<Rightarrow> checked_integer (- (2 ^ 31)) (2 ^ 31 - 1) (\<lambda>i. be_bytes (word_of_int i :: u32)) value
        | EncU64 \<Rightarrow> checked_integer 0 (2 ^ 64 - 1) (\<lambda>i. be_bytes (word_of_int i :: u64)) value
        | EncI64 \<Rightarrow> checked_integer (- (2 ^ 63)) (2 ^ 63 - 1) (\<lambda>i. be_bytes (word_of_int i :: u64)) value
        | _ \<Rightarrow> Inl ''integer Modbus points require an integer register encoding''))"

definition encode_value_bytes ::
  "modbus_options \<Rightarrow> modbus_encoding \<Rightarrow> telemetry_type \<Rightarrow> telemetry_value \<Rightarrow> string + u8 list" where
  "encode_value_bytes opts e ty value = (case (ty, value) of
       (TyFloat, Float v) \<Rightarrow>
         rbind (remove_transform v opts) (\<lambda>raw. case e of
             EncF32 \<Rightarrow>
               let x = f32_of_f64 raw in
               if \<not> f32_is_finite x then Inl ''Modbus f32 write value is outside the finite f32 range''
               else Inr (be_bytes x)
           | EncF64 \<Rightarrow> Inr (be_bytes raw)
           | _ \<Rightarrow> Inl ''float Modbus points require f32 or f64 register encoding'')
     | (TyInteger, Integer v) \<Rightarrow>
         rbind (remove_transform (f64_of_int (sint v)) opts) (encode_integer e)
     | (TyBoolean, Boolean b) \<Rightarrow> Inr (be_bytes (if b then 1 else 0 :: u16))
     | (TyText, _) \<Rightarrow> Inl ''Modbus text writes are not supported''
     | _ \<Rightarrow> Inl ''Modbus write value does not match the configured point type'')"

definition swap_bytes16 :: "u16 \<Rightarrow> u16" where
  "swap_bytes16 w = from_le_bytes16 (to_be_bytes16 w ! 0) (to_be_bytes16 w ! 1)"

definition encode_modbus_register_values ::
  "telemetry_type \<Rightarrow> point_address \<Rightarrow> telemetry_value \<Rightarrow> string + u16 list" where
  "encode_modbus_register_values ty addr value =
     (let opts = options_of addr in
      if mo_bit_index opts \<noteq> None
      then Inl ''Modbus register bit writes require an atomic mask-write operation''
      else rbind (effective_encoding ty addr) (\<lambda>e.
        rbind (encode_value_bytes opts e ty value) (\<lambda>bytes.
          let regs = map (\<lambda>(a, b). let v = from_be_bytes16 a b in
                case mo_byte_order opts of BigEndian \<Rightarrow> v | LittleEndian \<Rightarrow> swap_bytes16 v) (chunks2 bytes)
          in Inr (if mo_word_order opts = MLowWordFirst then rev regs else regs))))"

section \<open>Bytes and registers\<close>

lemma from_be_bytes16_ucast:
  "from_be_bytes16 (ucast (drop_bit 8 x)) (ucast x) = ucast x" for x :: "'a::len word"
proof (rule bit_word_eqI)
  fix n
  assume "n < LENGTH(16)"
  then show "bit (from_be_bytes16 (ucast (drop_bit 8 x)) (ucast x)) n = bit (ucast x :: u16) n"
    by (auto simp: from_be_bytes16_def bit_simps dest: bit_imp_le_length)
qed

lemma from_be_bytes16_drop:
  "from_be_bytes16 (ucast (drop_bit (k + 8) x)) (ucast (drop_bit k x)) = ucast (drop_bit k x)"
  for x :: "'a::len word"
  using from_be_bytes16_ucast [of "drop_bit k x"] by (simp add: add.commute)

definition be_registers :: "u8 list \<Rightarrow> u16 list" where
  "be_registers bytes = map (\<lambda>(a, b). from_be_bytes16 a b) (chunks2 bytes)"

lemma be_registers_word:
  "be_registers (be_bytes (w :: u16)) = [w]"
  "be_registers (be_bytes (x :: u32)) = [ucast (drop_bit 16 x), ucast x]"
  "be_registers (be_bytes (y :: u64)) =
     [ucast (drop_bit 48 y), ucast (drop_bit 32 y), ucast (drop_bit 16 y), ucast y]"
  using from_be_bytes16_drop [of 0 w] from_be_bytes16_drop [of 16 x] from_be_bytes16_drop [of 0 x]
    from_be_bytes16_drop [of 48 y] from_be_bytes16_drop [of 32 y] from_be_bytes16_drop [of 16 y]
    from_be_bytes16_drop [of 0 y]
  by (simp_all add: be_registers_def be_bytes_def upt_rec)

lemma ucast_up_down:
  "ucast (ucast w :: u64) = w" "ucast (ucast x :: u64) = x" for w :: u16 and x :: u32
  by (auto intro!: bit_word_eqI simp: bit_simps)

lemma registers_to_u64_word:
  "registers_to_u64 [w] (Suc 0) = Inr (ucast w)"
  "registers_to_u64 [ucast (drop_bit 16 x), ucast x] 2 = Inr (ucast x)"
  "registers_to_u64 [ucast (drop_bit 48 y), ucast (drop_bit 32 y), ucast (drop_bit 16 y), ucast y] 4 = Inr y"
  for w :: u16 and x :: u32 and y :: u64
proof -
  show "registers_to_u64 [w] (Suc 0) = Inr (ucast w)"
    by (simp add: registers_to_u64_def require_registers_def)
  have "push_bit 16 (ucast (ucast (drop_bit 16 x) :: u16)) OR ucast (ucast x :: u16) = (ucast x :: u64)"
  proof (rule bit_word_eqI)
    fix n
    show "bit (push_bit 16 (ucast (ucast (drop_bit 16 x) :: u16)) OR ucast (ucast x :: u16) :: u64) n = bit (ucast x :: u64) n"
      if "n < LENGTH(64)"
      using that bit_imp_le_length [of x n] by (auto simp: bit_simps)
  qed
  then show "registers_to_u64 [ucast (drop_bit 16 x), ucast x] 2 = Inr (ucast x)"
    by (simp add: registers_to_u64_def require_registers_def)
  have "push_bit 16 (push_bit 16 (push_bit 16 (ucast (ucast (drop_bit 48 y) :: u16)) OR
      ucast (ucast (drop_bit 32 y) :: u16)) OR ucast (ucast (drop_bit 16 y) :: u16)) OR ucast (ucast y :: u16) = y"
  proof (rule bit_word_eqI)
    fix n
    assume "n < LENGTH(64)"
    then consider "n < 16" | "16 \<le> n" "n < 32" | "32 \<le> n" "n < 48" | "48 \<le> n" "n < 64"
      by fastforce
    then show "bit (push_bit 16 (push_bit 16 (push_bit 16 (ucast (ucast (drop_bit 48 y) :: u16)) OR
      ucast (ucast (drop_bit 32 y) :: u16)) OR ucast (ucast (drop_bit 16 y) :: u16)) OR ucast (ucast y :: u16) :: u64) n = bit y n"
      by cases (auto simp: bit_simps)
  qed
  then show "registers_to_u64 [ucast (drop_bit 48 y), ucast (drop_bit 32 y), ucast (drop_bit 16 y), ucast y] 4 = Inr y"
    by (simp add: registers_to_u64_def require_registers_def)
qed

text \<open>The registers travel as big-endian bytes; the byte order of the point is applied at both ends.\<close>

definition wire_bytes :: "u16 list \<Rightarrow> u8 list" where
  "wire_bytes regs = concat (map to_be_bytes16 regs)"

lemma swap_bytes16_wire: "from_le_bytes16 (ucast (drop_bit 8 (swap_bytes16 v))) (ucast (swap_bytes16 v)) = v"
  by (simp add: swap_bytes16_def from_le_bytes16_def to_be_bytes16_def to_be_from_be16 from_be_to_be16)

lemma wire_registers:
  "map (\<lambda>(a, b). case order of BigEndian \<Rightarrow> from_be_bytes16 a b | LittleEndian \<Rightarrow> from_le_bytes16 a b)
     (chunks2 (wire_bytes (map (\<lambda>v. case order of BigEndian \<Rightarrow> v | LittleEndian \<Rightarrow> swap_bytes16 v) vs))) = vs"
  by (induction vs; cases order)
    (simp_all add: wire_bytes_def to_be_bytes16_def swap_bytes16_wire from_be_to_be16)

lemma length_wire_bytes [simp]: "length (wire_bytes regs) = 2 * length regs"
  by (induction regs) (simp_all add: wire_bytes_def to_be_bytes16_def)

lemma rev_wire:
  "map f (chunks2 (wire_bytes (rev regs))) = rev (map f (chunks2 (wire_bytes regs)))"
proof -
  have app: "chunks2 (wire_bytes (xs @ ys)) = chunks2 (wire_bytes xs) @ chunks2 (wire_bytes ys)" for xs ys
    by (induction xs) (simp_all add: wire_bytes_def to_be_bytes16_def)
  show ?thesis by (induction regs) (simp_all add: app rev_map, simp_all add: wire_bytes_def to_be_bytes16_def)
qed

text \<open>What was written is what the decoder sees, before the numeric decoding.\<close>

lemma decode_encoded:
  assumes "mo_bit_index (options_of addr) = None" "effective_encoding ty addr = Inr e"
    and "encode_value_bytes (options_of addr) e ty v = Inr bytes" "be_registers bytes \<noteq> []"
  shows "\<exists>regs. encode_modbus_register_values ty addr v = Inr regs \<and> length regs = length (be_registers bytes) \<and>
    decode_modbus_value False ty addr (wire_bytes regs) = decode_registers (options_of addr) ty addr (be_registers bytes)"
proof -
  let ?o = "options_of addr"
  let ?enc = "\<lambda>v. case mo_byte_order ?o of BigEndian \<Rightarrow> v | LittleEndian \<Rightarrow> swap_bytes16 v"
  let ?regs = "map ?enc (be_registers bytes)"
  let ?wire = "if mo_word_order ?o = MLowWordFirst then rev ?regs else ?regs"
  have "encode_modbus_register_values ty addr v = Inr ?wire"
    using assms(1-3)
    by (simp add: encode_modbus_register_values_def Let_def be_registers_def comp_def case_prod_unfold)
  moreover have "wire_bytes ?wire \<noteq> []"
    using assms(4) length_wire_bytes [of ?wire] by (auto simp del: length_wire_bytes)
  then have "decode_modbus_value False ty addr (wire_bytes ?wire) = decode_registers ?o ty addr (be_registers bytes)"
    using assms(1) by (simp add: decode_modbus_value_def Let_def rev_wire wire_registers)
  ultimately show ?thesis by (intro exI [of _ ?wire]) simp
qed

section \<open>Round trips\<close>

definition int_range :: "modbus_encoding \<Rightarrow> int \<times> int" where
  "int_range e = (case e of
       EncU16 \<Rightarrow> (0, 2 ^ 16 - 1) | EncI16 \<Rightarrow> (- (2 ^ 15), 2 ^ 15 - 1)
     | EncU32 \<Rightarrow> (0, 2 ^ 32 - 1) | EncI32 \<Rightarrow> (- (2 ^ 31), 2 ^ 31 - 1)
     | EncU64 \<Rightarrow> (0, 2 ^ 64 - 1) | EncI64 \<Rightarrow> (- (2 ^ 63), 2 ^ 63 - 1)
     | _ \<Rightarrow> (1, 0))"

definition plain_options :: "modbus_options \<Rightarrow> bool" where
  "plain_options opts = (mo_scale opts = f64_one \<and> mo_offset opts = f64_zero \<and> mo_bit_index opts = None)"

lemma one_not_zero: "\<not> f64_eq f64_one f64_zero"
  by (simp add: f64_eq_def f64_key_def f64_mag_def f64_sign_def f64_one_def f64_zero_def)

lemma zero_eq_zero: "f64_eq f64_zero f64_zero"
  by (simp add: f64_eq_def f64_is_nan_def)

lemma remove_transform_plain:
  "plain_options opts \<Longrightarrow> f64_is_finite v \<Longrightarrow> remove_transform v opts = Inr v"
  using one_not_zero f64_one_finite(1)
  by (simp add: remove_transform_def plain_options_def f64_sub_zero f64_div_one)

lemma apply_transform_plain:
  "plain_options opts \<Longrightarrow> f64_is_finite v \<Longrightarrow> v \<noteq> f64_make True 0 \<Longrightarrow> apply_transform v opts = Inr v"
proof -
  assume a: "plain_options opts" "f64_is_finite v" "v \<noteq> f64_make True 0"
  have "v = f64_zero" if "f64_mag v = 0"
    using that a(3) f64_make_sign_mag [of v] f64_make_0 by (cases "f64_sign v") auto
  with a show ?thesis by (auto simp: apply_transform_def plain_options_def f64_mul_add_id)
qed

lemma int_range_limits:
  assumes "int_range e = (lo, hi)" "lo \<le> i" "i \<le> hi" "\<bar>i\<bar> < 2 ^ 53"
  shows "f64_le (f64_of_int lo) (f64_of_int i) \<and> f64_le (f64_of_int i) (f64_of_int hi)"
proof -
  have small: "f64_is_finite (f64_of_int k)" "f64_trunc_int (f64_of_int k) = k" if "\<bar>k\<bar> < 2 ^ 53" for k
    using f64_of_int_exact [OF that] by simp_all
  have "f64_is_finite (f64_of_int lo) \<and> f64_trunc_int (f64_of_int lo) \<le> lo \<and>
      f64_is_finite (f64_of_int hi) \<and> hi \<le> f64_trunc_int (f64_of_int hi)"
    using assms(1,2,3) small [of lo] small [of hi] f64_limit_parts f64_int_limits
    by (cases e) (auto simp: int_range_def)
  then show ?thesis using f64_of_int_between [OF assms(4,2,3)] by simp
qed

lemma i64_range:
  assumes "\<bar>i\<bar> < 2 ^ 53"
  shows "f64_le (f64_of_int (- (2 ^ 63))) (f64_of_int i) \<and> f64_le (f64_of_int i) (f64_of_int (2 ^ 63 - 1))"
  using int_range_limits [of EncI64 "- (2 ^ 63)" "2 ^ 63 - 1" i] assms by (simp add: int_range_def)

lemma decode_integer_value_plain:
  assumes "plain_options opts" "\<bar>i\<bar> < 2 ^ 53"
  shows "decode_integer_value opts i = Inr (Integer (word_of_int i))"
proof -
  have "f64_of_int i \<noteq> f64_make True 0"
    using f64_of_int_exact(3,4) [OF assms(2)] f64_make_parts [of 0 True] by auto
  then have "apply_transform (f64_of_int i) opts = Inr (f64_of_int i)"
    using assms f64_of_int_exact(1) by (intro apply_transform_plain)
  moreover have "f64_as_int (- (2 ^ 63)) (2 ^ 63 - 1) (f64_of_int i) = i"
    using assms(2) by (intro f64_of_int_as_int) simp_all
  ultimately show ?thesis
    unfolding decode_integer_value_def
    using i64_range [OF assms(2)] f64_of_int_fract [OF assms(2)] zero_eq_zero by (simp only: rbind_simps) simp
qed

lemma encode_integer_ok:
  assumes "int_range e = (lo, hi)" "lo \<le> i" "i \<le> hi" "\<bar>i\<bar> < 2 ^ 53"
  shows "\<exists>bytes. encode_integer e (f64_of_int i) = Inr bytes \<and> decode_integer e (be_registers bytes) = Inr i
    \<and> length (be_registers bytes) = unat (register_count e)"
proof -
  note le = int_range_limits [OF assms]
  note cast = f64_of_int_as_int [OF assms(4,2,3)]
  note fract = f64_of_int_fract [OF assms(4)]
  show ?thesis
    using assms(1-3) le cast
    by (cases e)
      (auto simp: int_range_def encode_integer_def checked_integer_def fract zero_eq_zero be_registers_word
        decode_integer_def register_count_def registers_to_u64_word ucast_up_down uint_word_of_int_eq take_bit_int_eq_self
        sint_sbintrunc' signed_take_bit_int_eq_self)
qed


definition sample_modbus_address :: point_address where
  "sample_modbus_address = \<lparr>pa_kind = ''holding_register'', pa_value = ''40001'',
     pa_modbus = Some (modbus_options_default\<lparr>mo_encoding := Some EncI32, mo_word_order := MLowWordFirst\<rparr>)\<rparr>"




section \<open>The range check at \<open>2 ^ 63\<close>\<close>

lemma f64_of_int_2_63:
  "f64_of_int (2 ^ 63) = 0x43E0000000000000" "f64_mul_add 0x43E0000000000000 f64_one f64_zero = 0x43E0000000000000"
  "f64_fract 0x43E0000000000000 = f64_zero" "f64_as_int (- (2 ^ 63)) (2 ^ 63 - 1) 0x43E0000000000000 = 2 ^ 63 - 1"
proof -
  show "f64_of_int (2 ^ 63) = 0x43E0000000000000"
    by (simp add: f64_of_int_def f64_round_def f64_make_def round_mag_def Let_def ilog2.simps emin_def
        flog2_def rne_def)
  show "f64_mul_add 0x43E0000000000000 f64_one f64_zero = 0x43E0000000000000"
    using f64_mul_add_id [OF f64_limit_parts(3)] by (simp add: f64_mag_def)
  have "f64_trunc 0x43E0000000000000 = 0x43E0000000000000"
    using f64_limit_parts(3,4)
    by (simp add: f64_trunc_def f64_round_def f64_make_def round_mag_def Let_def ilog2.simps emin_def
        flog2_def rne_def)
  then show "f64_fract 0x43E0000000000000 = f64_zero"
    using f64_sub_self [OF f64_limit_parts(3)] by (simp add: f64_fract_def)
  show "f64_as_int (- (2 ^ 63)) (2 ^ 63 - 1) 0x43E0000000000000 = 2 ^ 63 - 1"
    using f64_limit_parts(4) f64_finite_mag [OF f64_limit_parts(3)] by (simp add: f64_as_int_def)
qed

text \<open>
  The guard "transform exceeds i64 range" lets \<open>2 ^ 63\<close> through, because the upper limit is
  rounded up to \<open>2 ^ 63\<close>: an unsigned 64-bit register block that holds \<open>2 ^ 63\<close> is read as
  \<open>2 ^ 63 - 1\<close> instead of being rejected.
\<close>

theorem modbus_u64_range_check_saturates:
  assumes "plain_options opts"
  shows "decode_integer EncU64 [0x8000, 0, 0, 0] = Inr (2 ^ 63)
    \<and> decode_integer_value opts (2 ^ 63) = Inr (Integer (2 ^ 63 - 1))"
proof
  show "decode_integer EncU64 [0x8000, 0, 0, 0] = Inr (2 ^ 63)"
    by (simp add: decode_integer_def registers_to_u64_def require_registers_def register_count_def)
  have le: "f64_le (f64_of_int (- (2 ^ 63))) 0x43E0000000000000"
      "f64_le 0x43E0000000000000 (f64_of_int (2 ^ 63 - 1))"
    unfolding f64_int_limits
    by (simp_all add: f64_le_def f64_is_nan_def f64_key_def f64_mag_def f64_sign_def)
  have t: "apply_transform (f64_of_int (2 ^ 63)) opts = Inr 0x43E0000000000000"
    using assms f64_limit_parts(3)
    by (simp only: apply_transform_def plain_options_def f64_of_int_2_63 Let_def simp_thms if_False)
  show "decode_integer_value opts (2 ^ 63) = Inr (Integer (2 ^ 63 - 1))"
    unfolding decode_integer_value_def t
    using le by (simp only: rbind_simps f64_of_int_2_63 zero_eq_zero simp_thms if_False) simp
qed

theorem modbus_u64_range_check_saturates_witness:
  "decode_integer EncU64 [0x8000, 0, 0, 0] = Inr (2 ^ 63)
   \<and> decode_integer_value modbus_options_default (2 ^ 63) = Inr (Integer (2 ^ 63 - 1))"
  by (rule modbus_u64_range_check_saturates) (simp add: plain_options_def modbus_options_default_def)

end
