(* ===== verification/Modbus_Rtu.thy ===== *)
theory Modbus_Rtu
  imports Serial_Bus Modbus_Batch Modbus_Codec
begin

text \<open>
  Modbus RTU (crates/edge-runtime/src/modbus_rtu.rs): the CRC, request and response frames, point
  addresses, and the adapter that reads the mapped points in windows and writes them one by one
  or as a batch. The clock reading of the \<open>i\<close>-th planned point is \<open>now i\<close>.
\<close>

section \<open>Frames\<close>

abbreviation READ_COILS :: u8 where "READ_COILS \<equiv> 0x01"
abbreviation READ_DISCRETE_INPUTS :: u8 where "READ_DISCRETE_INPUTS \<equiv> 0x02"
abbreviation READ_HOLDING_REGISTERS :: u8 where "READ_HOLDING_REGISTERS \<equiv> 0x03"
abbreviation READ_INPUT_REGISTERS :: u8 where "READ_INPUT_REGISTERS \<equiv> 0x04"
abbreviation WRITE_SINGLE_COIL :: u8 where "WRITE_SINGLE_COIL \<equiv> 0x05"
abbreviation WRITE_SINGLE_REGISTER :: u8 where "WRITE_SINGLE_REGISTER \<equiv> 0x06"
abbreviation WRITE_MULTIPLE_COILS :: u8 where "WRITE_MULTIPLE_COILS \<equiv> 0x0F"
abbreviation WRITE_MULTIPLE_REGISTERS :: u8 where "WRITE_MULTIPLE_REGISTERS \<equiv> 0x10"

definition crc_shift :: "u16 \<Rightarrow> u16" where
  "crc_shift crc = (if crc AND 1 \<noteq> 0 then drop_bit 1 crc XOR 0xA001 else drop_bit 1 crc)"

definition crc_byte :: "u16 \<Rightarrow> u8 \<Rightarrow> u16" where
  "crc_byte crc byte = (crc_shift ^^ 8) (crc XOR ucast byte)"

definition modbus_rtu_crc :: "u8 list \<Rightarrow> u16" where
  "modbus_rtu_crc bytes = foldl crc_byte 0xFFFF bytes"

definition append_modbus_rtu_crc :: "u8 list \<Rightarrow> u8 list" where
  "append_modbus_rtu_crc frame = frame @ to_le_bytes16 (modbus_rtu_crc frame)"

definition verify_modbus_rtu_crc :: "u8 list \<Rightarrow> string + unit" where
  "verify_modbus_rtu_crc frame =
     (if length frame < 3 then Inl ''Modbus RTU frame is too short for CRC''
      else let n = length frame - 2 in
        if from_le_bytes16 (frame ! n) (frame ! (n + 1)) \<noteq> modbus_rtu_crc (take n frame)
        then Inl ''Modbus RTU CRC mismatch'' else Inr ())"

definition is_bit_function :: "u8 \<Rightarrow> bool" where
  "is_bit_function f = (f = READ_COILS \<or> f = READ_DISCRETE_INPUTS)"

definition build_read_request :: "u8 \<Rightarrow> u8 \<Rightarrow> u16 \<Rightarrow> u16 \<Rightarrow> u8 list" where
  "build_read_request slave function offset quantity =
     append_modbus_rtu_crc ([slave, function] @ to_be_bytes16 offset @ to_be_bytes16 quantity)"

definition rtu_parse_read_response :: "u8 list \<Rightarrow> u8 \<Rightarrow> u8 \<Rightarrow> u16 \<Rightarrow> string + u8 list" where
  "rtu_parse_read_response response slave function quantity =
     (if length response < 5 then Inl ''Modbus RTU response is too short''
      else rbind (verify_modbus_rtu_crc response) (\<lambda>_.
        if response ! 0 \<noteq> slave then Inl ''Modbus RTU response slave id does not match request''
        else if response ! 1 = function OR 0x80
        then Inl (''Modbus RTU exception code '' @ show_nat (unat (response ! 2)))
        else if response ! 1 \<noteq> function then Inl ''Modbus RTU response function does not match request''
        else
          let byte_count = unat (response ! 2);
              expected = (if is_bit_function function then div_ceil (unat quantity) 8 else unat quantity * 2)
          in if byte_count \<noteq> expected then Inl ''Modbus RTU response byte count does not match request''
             else if length response \<noteq> byte_count + 5
             then Inl ''Modbus RTU response length does not match byte count''
             else Inr (take byte_count (drop 3 response))))"

section \<open>Addresses and writes\<close>

record modbus_address =
  ma_slave_id :: u8
  ma_function :: u8
  ma_offset :: u16

record modbus_write_command =
  wc_function :: u8
  wc_values :: "u16 list"

definition rtu_reference :: "string \<Rightarrow> (u8 \<times> nat) option" where
  "rtu_reference kind =
     (if kind = ''holding_register'' then Some (READ_HOLDING_REGISTERS, 40001)
      else if kind = ''input_register'' then Some (READ_INPUT_REGISTERS, 30001)
      else if kind = ''coil'' then Some (READ_COILS, 1)
      else if kind = ''discrete_input'' then Some (READ_DISCRETE_INPUTS, 10001)
      else None)"

definition rtu_parse_address :: "string \<Rightarrow> string \<Rightarrow> u8 \<Rightarrow> string + modbus_address" where
  "rtu_parse_address kind value default_slave =
     rbind (ok_or (''Modbus RTU address kind is not supported: '' @ kind) (rtu_reference kind)) (\<lambda>(function, base).
     rbind (case split_once (CHR '':'') value of
              Some (slave, address) \<Rightarrow>
                rbind (ok_or (''invalid Modbus slave id: '' @ slave) (parse_u8 slave)) (\<lambda>s. Inr (s, address))
            | None \<Rightarrow> Inr (default_slave, value)) (\<lambda>(slave, text).
     if \<not> (1 \<le> slave \<and> slave \<le> 247) then Inl ''Modbus slave id must be between 1 and 247''
     else rbind (ok_or (''invalid Modbus address: '' @ text) (parse_uint 10 (2 ^ 32) text)) (\<lambda>raw.
       let offset = (if raw \<ge> base then raw - base
                     else if is_bit_function function \<and> raw > 0 then raw - 1 else raw)
       in if offset < 2 ^ 16
          then Inr \<lparr>ma_slave_id = slave, ma_function = function, ma_offset = of_nat offset\<rparr>
          else Inl ''Modbus address exceeds u16 range'')))"

definition encode_write_command ::
  "modbus_address \<Rightarrow> point_address \<Rightarrow> telemetry_type \<Rightarrow> telemetry_value \<Rightarrow> string + modbus_write_command" where
  "encode_write_command addr point ty value =
     (if ma_function addr = READ_COILS then
        (case value of
           Boolean b \<Rightarrow> Inr \<lparr>wc_function = WRITE_SINGLE_COIL, wc_values = [if b then 0xFF00 else 0x0000]\<rparr>
         | _ \<Rightarrow> Inl ''Modbus coil writes require a boolean value'')
      else if ma_function addr = READ_HOLDING_REGISTERS then
        rbind (encode_modbus_register_values ty point value) (\<lambda>values.
          Inr \<lparr>wc_function = (if length values = 1 then WRITE_SINGLE_REGISTER else WRITE_MULTIPLE_REGISTERS),
               wc_values = values\<rparr>)
      else if ma_function addr = READ_DISCRETE_INPUTS \<or> ma_function addr = READ_INPUT_REGISTERS
      then Inl ''Modbus input and discrete input areas are read-only''
      else Inl ''unsupported Modbus write target'')"

definition pack_coils :: "u16 list \<Rightarrow> u8 list" where
  "pack_coils values = pack_bits (\<lambda>i. values ! i \<noteq> 0) (length values)"

definition build_write_request :: "u8 \<Rightarrow> u16 \<Rightarrow> modbus_write_command \<Rightarrow> u8 list" where
  "build_write_request slave offset command =
     (let quantity = (of_nat (min (length (wc_values command)) 65535) :: u16);
          body = (if wc_function command = WRITE_SINGLE_COIL \<or> wc_function command = WRITE_SINGLE_REGISTER
                  then to_be_bytes16 (hd (wc_values command))
                  else if wc_function command = WRITE_MULTIPLE_COILS
                  then to_be_bytes16 quantity @ [of_nat (length (pack_coils (wc_values command)))]
                         @ pack_coils (wc_values command)
                  else to_be_bytes16 quantity @ [of_nat (length (wc_values command) * 2)]
                         @ concat (map to_be_bytes16 (wc_values command)))
      in append_modbus_rtu_crc ([slave, wc_function command] @ to_be_bytes16 offset @ body))"

definition rtu_parse_write_response :: "u8 list \<Rightarrow> u8 \<Rightarrow> u16 \<Rightarrow> modbus_write_command \<Rightarrow> string + unit" where
  "rtu_parse_write_response response slave offset command =
     (if length response \<noteq> 8 then Inl ''Modbus RTU write response must contain 8 bytes''
      else rbind (verify_modbus_rtu_crc response) (\<lambda>_.
        if response ! 0 \<noteq> slave then Inl ''Modbus RTU write response slave id does not match request''
        else if response ! 1 = wc_function command OR 0x80
        then Inl (''Modbus RTU exception code '' @ show_nat (unat (response ! 2)))
        else if response ! 1 \<noteq> wc_function command
        then Inl ''Modbus RTU write response function does not match request''
        else if from_be_bytes16 (response ! 2) (response ! 3) \<noteq> offset
        then Inl ''Modbus RTU write response address does not match request''
        else
          let echoed = from_be_bytes16 (response ! 4) (response ! 5);
              expected = (if wc_function command = WRITE_SINGLE_COIL \<or> wc_function command = WRITE_SINGLE_REGISTER
                          then hd (wc_values command) else of_nat (length (wc_values command)))
          in if echoed \<noteq> expected
             then Inl ''Modbus RTU write response value or quantity does not match request''
             else Inr ()))"

section \<open>The adapter\<close>

record rtu_adapter =
  ra_connection :: protocol_connection
  ra_mappings :: "telemetry_point_mapping list"
  ra_default_slave_id :: u8

definition rtu_adapter_new :: "protocol_connection \<Rightarrow> telemetry_point_mapping list \<Rightarrow> rtu_adapter" where
  "rtu_adapter_new c ms = \<lparr>ra_connection = c, ra_mappings = ms, ra_default_slave_id = 1\<rparr>"

definition rtu_point_address :: "rtu_adapter \<Rightarrow> telemetry_point_mapping \<Rightarrow> string + modbus_address" where
  "rtu_point_address a m =
     map_err (\<lambda>_. ''invalid point address for '' @ pm_point_id m)
       (rtu_parse_address (pa_kind (pm_address m)) (pa_value (pm_address m)) (ra_default_slave_id a))"

definition prepare_point_write ::
  "rtu_adapter \<Rightarrow> telemetry_point_mapping \<Rightarrow> telemetry_value \<Rightarrow> string + modbus_address \<times> modbus_write_command" where
  "prepare_point_write a m value =
     (if pm_protocol_connection_id m \<noteq> pc_connection_id (ra_connection a)
      then Inl (''point '' @ pm_point_id m @ '' is not bound to connection '' @ pc_connection_id (ra_connection a))
      else if \<not> is_writable (pm_access m)
      then Inl (''point '' @ pm_point_id m @ '' is not configured as writable'')
      else rbind (rtu_point_address a m) (\<lambda>addr.
        rbind (validate_modbus_point_options (pm_address m) (pm_value_type m) (pm_access m)) (\<lambda>_.
        rbind (encode_write_command addr (pm_address m) (pm_value_type m) value) (\<lambda>command.
          Inr (addr, command)))))"

fun coil_batch :: "u16 \<Rightarrow> (modbus_address \<times> modbus_write_command) list \<Rightarrow> u16 list \<Rightarrow> string + u16 list option" where
  "coil_batch expected [] values = Inr (Some values)"
| "coil_batch expected ((addr, command) # rest) values =
     (if ma_offset addr \<noteq> expected \<or> wc_function command \<noteq> WRITE_SINGLE_COIL then Inr None
      else rbind (ok_or ''Modbus coil batch exceeds address range'' (checked_add expected 1)) (\<lambda>expected'.
        coil_batch expected' rest (values @ [if hd (wc_values command) \<noteq> 0 then 1 else 0])))"

fun register_batch :: "u16 \<Rightarrow> (modbus_address \<times> modbus_write_command) list \<Rightarrow> u16 list \<Rightarrow> string + u16 list option" where
  "register_batch expected [] values = Inr (Some values)"
| "register_batch expected ((addr, command) # rest) values =
     (if ma_offset addr \<noteq> expected
         \<or> \<not> (wc_function command = WRITE_SINGLE_REGISTER \<or> wc_function command = WRITE_MULTIPLE_REGISTERS)
      then Inr None
      else rbind (ok_or ''Modbus register batch exceeds address range''
                   (checked_add expected (of_nat (length (wc_values command))))) (\<lambda>expected'.
        register_batch expected' rest (values @ wc_values command)))"

definition batch_of :: "(modbus_address \<times> modbus_write_command) list \<Rightarrow> string + (modbus_address \<times> modbus_write_command) option" where
  "batch_of prepared =
     (let first = fst (hd prepared) in
      if list_ex (\<lambda>(addr, _). ma_slave_id addr \<noteq> ma_slave_id first \<or> ma_function addr \<noteq> ma_function first) prepared
      then Inr None
      else if ma_function first = READ_COILS then
        rbind (coil_batch (ma_offset first) prepared []) (\<lambda>r. Inr (case r of
            None \<Rightarrow> None
          | Some values \<Rightarrow> if length values > 1968 then None
              else Some (first, \<lparr>wc_function = WRITE_MULTIPLE_COILS, wc_values = values\<rparr>)))
      else if ma_function first = READ_HOLDING_REGISTERS then
        rbind (register_batch (ma_offset first) prepared []) (\<lambda>r. Inr (case r of
            None \<Rightarrow> None
          | Some values \<Rightarrow> if length values > 123 then None
              else Some (first, \<lparr>wc_function = WRITE_MULTIPLE_REGISTERS, wc_values = values\<rparr>)))
      else Inr None)"

definition prepare_write_batch ::
  "rtu_adapter \<Rightarrow> protocol_point_write list \<Rightarrow> string + (modbus_address \<times> modbus_write_command) option" where
  "prepare_write_batch a writes =
     (if length writes < 2 then Inr None
      else rbind (collect (\<lambda>w. prepare_point_write a (pw_mapping w) (pw_value w)) writes) batch_of)"

definition batchable_write_prefix :: "rtu_adapter \<Rightarrow> protocol_point_write list \<Rightarrow> nat" where
  "batchable_write_prefix a writes =
     (case find (\<lambda>n. case prepare_write_batch a (take n writes) of Inr (Some _) \<Rightarrow> True | _ \<Rightarrow> False)
             (rev [2 ..< Suc (length writes)]) of
        Some n \<Rightarrow> n
      | None \<Rightarrow> min 1 (length writes))"

definition rtu_require :: "rtu_adapter \<Rightarrow> string + unit" where
  "rtu_require a = (if pc_protocol (ra_connection a) \<noteq> ModbusRtu
     then Inl ''Modbus RTU adapter requires a ModbusRtu protocol connection'' else Inr ())"

definition write_result :: "protocol_point_write \<Rightarrow> protocol_write_result" where
  "write_result w = \<lparr>wr_point_id = pm_point_id (pw_mapping w), wr_value = pw_value w, wr_verified = True,
     wr_readback_value = None\<rparr>"

definition rtu_exchange ::
  "'b transact \<Rightarrow> modbus_address \<Rightarrow> modbus_write_command \<Rightarrow> (unit, 'b) bus_op" where
  "rtu_exchange transact addr command =
     bus_bind (bus_send transact (build_write_request (ma_slave_id addr) (ma_offset addr) command)) (\<lambda>response.
       bus_lift (rtu_parse_write_response response (ma_slave_id addr) (ma_offset addr) command))"

definition rtu_write_point ::
  "'b transact \<Rightarrow> rtu_adapter \<Rightarrow> protocol_point_write \<Rightarrow> (protocol_write_result, 'b) bus_op" where
  "rtu_write_point transact a w =
     bus_bind (bus_lift (rtu_require a)) (\<lambda>_.
     bus_bind (bus_lift (prepare_point_write a (pw_mapping w) (pw_value w))) (\<lambda>(addr, command).
     bus_bind (rtu_exchange transact addr command) (\<lambda>_. bus_return (write_result w))))"

fun rtu_write_each ::
  "'b transact \<Rightarrow> rtu_adapter \<Rightarrow> protocol_point_write list \<Rightarrow> (protocol_write_result list, 'b) bus_op" where
  "rtu_write_each transact a [] = bus_return []"
| "rtu_write_each transact a (w # ws) =
     bus_bind (rtu_write_point transact a w) (\<lambda>r.
     bus_bind (rtu_write_each transact a ws) (\<lambda>rs. bus_return (r # rs)))"

definition rtu_write_points ::
  "'b transact \<Rightarrow> rtu_adapter \<Rightarrow> protocol_point_write list \<Rightarrow> (protocol_write_result list, 'b) bus_op" where
  "rtu_write_points transact a writes =
     bus_bind (bus_lift (rtu_require a)) (\<lambda>_.
     bus_bind (bus_lift (prepare_write_batch a writes)) (\<lambda>batch. case batch of
         None \<Rightarrow> rtu_write_each transact a writes
       | Some (addr, command) \<Rightarrow>
           bus_bind (rtu_exchange transact addr command) (\<lambda>_. bus_return (map write_result writes))))"

type_synonym planned_point = "telemetry_point_mapping \<times> modbus_address \<times> u16"

definition rtu_plan_point :: "rtu_adapter \<Rightarrow> telemetry_point_mapping \<Rightarrow> string + planned_point" where
  "rtu_plan_point a m =
     rbind (rtu_point_address a m) (\<lambda>addr.
     rbind (validate_modbus_point_options (pm_address m) (pm_value_type m) (pm_access m)) (\<lambda>_.
     rbind (modbus_quantity (is_bit_function (ma_function addr)) (pm_value_type m) (pm_address m)) (\<lambda>quantity.
       Inr (m, addr, quantity))))"

definition rtu_plan :: "rtu_adapter \<Rightarrow> string + planned_point list" where
  "rtu_plan a = collect (rtu_plan_point a)
     (filter (\<lambda>m. pm_protocol_connection_id m = pc_connection_id (ra_connection a)) (ra_mappings a))"

definition rtu_read_point :: "nat \<Rightarrow> planned_point \<Rightarrow> read_point" where
  "rtu_read_point i pp = (case pp of (_, addr, quantity) \<Rightarrow>
     \<lparr>mp_mapping_index = i, mp_station_id = ma_slave_id addr, mp_function = ma_function addr,
      mp_offset = ma_offset addr, mp_quantity = quantity, mp_is_bit = is_bit_function (ma_function addr)\<rparr>)"

definition rtu_sample :: "(nat \<Rightarrow> timestamp) \<Rightarrow> nat \<Rightarrow> telemetry_point_mapping \<Rightarrow> telemetry_value \<Rightarrow> telemetry_sample" where
  "rtu_sample now i m v = sample_new (pm_device_id m) (pm_point_id m) v QGood (now i)"

fun rtu_decode_points ::
  "planned_point list \<Rightarrow> (nat \<Rightarrow> timestamp) \<Rightarrow> read_window \<Rightarrow> u8 list \<Rightarrow> read_point list \<Rightarrow>
   telemetry_sample option list \<Rightarrow> string + telemetry_sample option list" where
  "rtu_decode_points planned now w payload [] samples = Inr samples"
| "rtu_decode_points planned now w payload (p # ps) samples =
     (let m = fst (planned ! mp_mapping_index p) in
      rbind (extract_point_payload w p payload) (\<lambda>bytes.
      rbind (decode_modbus_value (is_bit_function (mw_function w)) (pm_value_type m) (pm_address m) bytes) (\<lambda>v.
        rtu_decode_points planned now w payload ps
          (samples[mp_mapping_index p := Some (rtu_sample now (mp_mapping_index p) m v)]))))"

fun rtu_read_windows ::
  "'b transact \<Rightarrow> planned_point list \<Rightarrow> (nat \<Rightarrow> timestamp) \<Rightarrow> read_window list \<Rightarrow>
   telemetry_sample option list \<Rightarrow> (telemetry_sample option list, 'b) bus_op" where
  "rtu_read_windows transact planned now [] samples = bus_return samples"
| "rtu_read_windows transact planned now (w # ws) samples =
     bus_bind (bus_send transact (build_read_request (mw_station_id w) (mw_function w) (mw_offset w) (mw_quantity w))) (\<lambda>response.
     bus_bind (bus_lift (rtu_parse_read_response response (mw_station_id w) (mw_function w) (mw_quantity w))) (\<lambda>payload.
     bus_bind (bus_lift (rtu_decode_points planned now w payload (mw_points w) samples)) (\<lambda>samples'.
       rtu_read_windows transact planned now ws samples')))"

definition rtu_read_telemetry ::
  "'b transact \<Rightarrow> (nat \<Rightarrow> timestamp) \<Rightarrow> rtu_adapter \<Rightarrow> (telemetry_sample list, 'b) bus_op" where
  "rtu_read_telemetry transact now a =
     bus_bind (bus_lift (rtu_require a)) (\<lambda>_.
     bus_bind (bus_lift (rtu_plan a)) (\<lambda>planned.
     bus_bind (bus_lift (plan_read_windows
         (map (\<lambda>(i, pp). rtu_read_point i pp) (List.enumerate 0 planned)))) (\<lambda>windows.
     bus_bind (rtu_read_windows transact planned now windows (replicate (length planned) None)) (\<lambda>samples.
       bus_return (List.map_filter id samples)))))"

section \<open>The CRC\<close>

text \<open>One shift can be undone: the top bit of the result tells whether the polynomial was added.\<close>

definition crc_unshift :: "u16 \<Rightarrow> u16" where
  "crc_unshift c = (if bit c 15 then push_bit 1 (c XOR 0xA001) OR 1 else push_bit 1 c)"

lemma crc_unshift_shift: "crc_unshift (crc_shift c) = c"
proof -
  have odd: "(c AND 1 \<noteq> 0) = bit c 0" by (simp add: and_one_eq bit_0 odd_iff_mod_2_eq_one)
  have poly: "bit (0xA001 :: u16) 15" by simp
  show ?thesis
  proof (cases "bit c 0")
    case True
    have top: "bit (drop_bit 1 c XOR 0xA001) 15"
      using poly bit_imp_le_length [of c 16] by (auto simp: bit_simps)
    have "push_bit 1 (drop_bit 1 c) OR 1 = c"
    proof (rule bit_word_eqI)
      fix n
      assume "n < LENGTH(16)"
      then show "bit (push_bit 1 (drop_bit 1 c) OR 1) n = bit c n"
        unfolding bit_or_iff bit_push_bit_iff bit_drop_bit_eq
        using True by (cases n) (auto simp: bit_1_iff)
    qed
    then show ?thesis
      using True odd top by (simp add: crc_shift_def crc_unshift_def xor.assoc)
  next
    case False
    have top: "\<not> bit (drop_bit 1 c) 15"
      using bit_imp_le_length [of c 16] by (auto simp: bit_simps)
    have "push_bit 1 (drop_bit 1 c) = c"
    proof (rule bit_word_eqI)
      fix n
      assume "n < LENGTH(16)"
      then show "bit (push_bit 1 (drop_bit 1 c)) n = bit c n"
        unfolding bit_push_bit_iff bit_drop_bit_eq
        using False by (cases n) auto
    qed
    then show ?thesis using False odd top by (simp add: crc_shift_def crc_unshift_def)
  qed
qed

lemma crc_shifts_inj: "(crc_shift ^^ n) a = (crc_shift ^^ n) b \<longleftrightarrow> a = b"
proof (induction n arbitrary: a b)
  case 0
  then show ?case by simp
next
  case (Suc n)
  have "crc_shift x = crc_shift y \<longleftrightarrow> x = y" for x y by (metis crc_unshift_shift)
  with Suc show ?case by simp
qed

lemma xor_cancel: "a XOR b = a XOR c \<longleftrightarrow> b = c" "b XOR a = c XOR a \<longleftrightarrow> b = c" for a b c :: "'a::len word"
  by (metis xor.assoc xor_self_eq xor.left_neutral) (metis xor.assoc xor_self_eq xor.right_neutral)

lemma crc_byte_inj: "crc_byte a x = crc_byte b x \<longleftrightarrow> a = b" "crc_byte a x = crc_byte a y \<longleftrightarrow> x = y"
proof -
  have "ucast x = (ucast y :: u16) \<longleftrightarrow> x = y" by (metis ucast_up_down_u8)
  then show "crc_byte a x = crc_byte b x \<longleftrightarrow> a = b" "crc_byte a x = crc_byte a y \<longleftrightarrow> x = y"
    by (simp_all add: crc_byte_def crc_shifts_inj xor_cancel)
qed

lemma crc_tail_inj: "foldl crc_byte a bs = foldl crc_byte b bs \<longleftrightarrow> a = b"
  by (induction bs arbitrary: a b) (simp_all add: crc_byte_inj(1))

lemma crc_update:
  assumes "i < length bs" "b \<noteq> bs ! i"
  shows "modbus_rtu_crc (bs[i := b]) \<noteq> modbus_rtu_crc bs"
proof -
  define pre post where "pre = take i bs" and "post = drop (Suc i) bs"
  have split: "bs = pre @ bs ! i # post" using assms(1) unfolding pre_def post_def by (rule id_take_nth_drop)
  have upd: "bs[i := b] = pre @ b # post"
    using assms(1) by (simp add: upd_conv_take_nth_drop pre_def post_def)
  have crc: "modbus_rtu_crc (pre @ x # post) = foldl crc_byte (crc_byte (modbus_rtu_crc pre) x) post" for x
    by (simp add: modbus_rtu_crc_def)
  have "modbus_rtu_crc bs = modbus_rtu_crc (pre @ bs ! i # post)" using split by (rule arg_cong)
  then show ?thesis using assms(2) by (simp add: upd crc crc_tail_inj crc_byte_inj(2))
qed

text \<open>A frame of at least one byte with its CRC.\<close>

lemma verify_crc_iff:
  "verify_modbus_rtu_crc f = Inr () \<longleftrightarrow> (\<exists>body. body \<noteq> [] \<and> f = append_modbus_rtu_crc body)"
proof
  assume h: "verify_modbus_rtu_crc f = Inr ()"
  define n where "n = length f - 2"
  have len: "3 \<le> length f" and eq: "from_le_bytes16 (f ! n) (f ! (n + 1)) = modbus_rtu_crc (take n f)"
    using h by (auto simp: verify_modbus_rtu_crc_def Let_def n_def split: if_splits)
  have "drop n f = [f ! n, f ! (n + 1)]"
    using len by (simp add: n_def Cons_nth_drop_Suc [symmetric])
  moreover have "to_le_bytes16 (modbus_rtu_crc (take n f)) = [f ! n, f ! (n + 1)]"
    unfolding eq [symmetric] by (simp add: to_le_bytes16_def from_le_bytes16_def to_be_from_be16)
  ultimately have "f = append_modbus_rtu_crc (take n f)"
    unfolding append_modbus_rtu_crc_def by (metis append_take_drop_id)
  moreover have "take n f \<noteq> []" using len by (auto simp: n_def)
  ultimately show "\<exists>body. body \<noteq> [] \<and> f = append_modbus_rtu_crc body" by blast
next
  assume "\<exists>body. body \<noteq> [] \<and> f = append_modbus_rtu_crc body"
  then obtain body where "body \<noteq> []" "f = append_modbus_rtu_crc body" by blast
  then show "verify_modbus_rtu_crc f = Inr ()"
    by (cases body) (simp_all add: verify_modbus_rtu_crc_def append_modbus_rtu_crc_def to_le_bytes16_def
        nth_append from_le_bytes16_def from_be_to_be16 Let_def)
qed

text \<open>
  C28. The CRC check catches every corruption of a single byte: a frame that passes the check fails
  it after any one of its bytes, payload or CRC, is changed.
\<close>

theorem crc_detects_byte_error:
  assumes "verify_modbus_rtu_crc f = Inr ()" "i < length f" "b \<noteq> f ! i"
  shows "verify_modbus_rtu_crc (f[i := b]) = Inl ''Modbus RTU CRC mismatch''"
proof -
  define n where "n = length f - 2"
  have len: "3 \<le> length f" and eq: "from_le_bytes16 (f ! n) (f ! (n + 1)) = modbus_rtu_crc (take n f)"
    using assms(1) by (auto simp: verify_modbus_rtu_crc_def Let_def n_def split: if_splits)
  have n: "n + 2 = length f" using len by (simp add: n_def)
  have inj: "from_le_bytes16 x y = from_le_bytes16 u v \<Longrightarrow> x = u \<and> y = v" for x y u v
    by (metis from_le_bytes16_def to_be_from_be16)
  have "from_le_bytes16 (f[i := b] ! n) (f[i := b] ! (n + 1)) \<noteq> modbus_rtu_crc (take n (f[i := b]))"
  proof (cases "i < n")
    case True
    then have "take n (f[i := b]) = (take n f)[i := b]" by (simp add: take_update_swap)
    moreover have "modbus_rtu_crc ((take n f)[i := b]) \<noteq> modbus_rtu_crc (take n f)"
      using True n assms(3) by (intro crc_update) simp_all
    ultimately show ?thesis using True eq by simp
  next
    case False
    then have "take n (f[i := b]) = take n f" by simp
    moreover have "i = n \<or> i = n + 1" using False assms(2) n by auto
    then have "from_le_bytes16 (f[i := b] ! n) (f[i := b] ! (n + 1)) \<noteq> from_le_bytes16 (f ! n) (f ! (n + 1))"
      using inj assms(2,3) n by fastforce
    ultimately show ?thesis using eq by simp
  qed
  then show ?thesis using len by (simp add: verify_modbus_rtu_crc_def Let_def n_def)
qed

theorem crc_detects_byte_error_witness:
  "verify_modbus_rtu_crc ((append_modbus_rtu_crc [1, 3, 0])[1 := 4]) = Inl ''Modbus RTU CRC mismatch''"
proof (rule crc_detects_byte_error)
  show "verify_modbus_rtu_crc (append_modbus_rtu_crc [1, 3, 0]) = Inr ()"
    unfolding verify_crc_iff by blast
qed (simp_all add: append_modbus_rtu_crc_def)

section \<open>Responses\<close>

definition rtu_read_response :: "u8 \<Rightarrow> u8 \<Rightarrow> u8 list \<Rightarrow> u8 list" where
  "rtu_read_response slave function payload =
     append_modbus_rtu_crc ([slave, function, of_nat (length payload)] @ payload)"

definition expected_bytes :: "u8 \<Rightarrow> u16 \<Rightarrow> nat" where
  "expected_bytes function quantity =
     (if is_bit_function function then div_ceil (unat quantity) 8 else unat quantity * 2)"

lemma length_append_crc [simp]: "length (append_modbus_rtu_crc f) = length f + 2"
  by (simp add: append_modbus_rtu_crc_def to_le_bytes16_def)

lemma nth_append_crc: "i < length f \<Longrightarrow> append_modbus_rtu_crc f ! i = f ! i"
  by (simp add: append_modbus_rtu_crc_def nth_append)

lemma exception_bit: "f < 0x80 \<Longrightarrow> f \<noteq> f OR 0x80" for f :: u8
  using le_word_or1 [of "0x80 :: u8" f] by auto

lemma rtu_read_response_parse:
  assumes "function < 0x80"
  shows "rtu_parse_read_response response slave function quantity = Inr payload \<longleftrightarrow>
    response = rtu_read_response slave function payload \<and> length payload = expected_bytes function quantity
    \<and> length payload < 256"
proof
  assume h: "rtu_parse_read_response response slave function quantity = Inr payload"
  then have len: "5 \<le> length response" and v: "verify_modbus_rtu_crc response = Inr ()"
    and r0: "response ! 0 = slave" and r1: "response ! 1 = function"
    and bc: "unat (response ! 2) = expected_bytes function quantity"
    and tot: "length response = unat (response ! 2) + 5"
    and pl: "payload = take (unat (response ! 2)) (drop 3 response)"
    by (auto simp: rtu_parse_read_response_def expected_bytes_def Let_def rbind_Inr split: if_splits)
  obtain body where body: "response = append_modbus_rtu_crc body" using v by (auto simp: verify_crc_iff)
  then have lb: "length body = unat (response ! 2) + 3" using tot by simp
  obtain x y z rest where b: "body = x # y # z # rest"
  proof -
    have "length body = Suc (Suc (Suc (unat (response ! 2))))" using lb by simp
    then show thesis using that by (auto simp: length_Suc_conv)
  qed
  have xyz: "x = slave" "y = function" "z = response ! 2"
    using r0 r1 body b nth_append_crc [of 0 body] nth_append_crc [of 1 body] nth_append_crc [of 2 body] by auto
  have rest: "length rest = unat (response ! 2)" using lb b by simp
  have "drop 3 response = rest @ to_le_bytes16 (modbus_rtu_crc body)"
    unfolding body append_modbus_rtu_crc_def b by simp
  then have payload: "payload = rest" unfolding pl rest [symmetric] by simp
  have lt: "length rest < 256" unfolding rest using unsigned_less [of "response ! 2", where 'a = nat] by simp
  have cnt: "(of_nat (length rest) :: u8) = response ! 2" unfolding rest by simp
  have "body = [slave, function, of_nat (length rest)] @ rest" unfolding cnt b xyz by simp
  then have "response = rtu_read_response slave function rest"
    unfolding rtu_read_response_def body by (rule arg_cong)
  then show "response = rtu_read_response slave function payload \<and>
      length payload = expected_bytes function quantity \<and> length payload < 256"
    unfolding payload using lt rest bc by presburger
next
  assume h: "response = rtu_read_response slave function payload \<and>
      length payload = expected_bytes function quantity \<and> length payload < 256"
  let ?body = "[slave, function, of_nat (length payload)] @ payload"
  have nth: "response ! i = ?body ! i" if "i < 3" for i
    using h that by (simp add: rtu_read_response_def nth_append_crc)
  have bytes: "unat (of_nat (length payload) :: u8) = length payload"
    unfolding unat_of_nat using h by simp
  have "verify_modbus_rtu_crc response = Inr ()"
    using h unfolding verify_crc_iff rtu_read_response_def by blast
  moreover have "take (length payload) (drop 3 response) = payload"
    using h by (simp add: rtu_read_response_def append_modbus_rtu_crc_def)
  ultimately show "rtu_parse_read_response response slave function quantity = Inr payload"
    using h nth [of 0] nth [of 1] nth [of 2] bytes exception_bit [OF assms]
    by (simp add: rtu_parse_read_response_def expected_bytes_def Let_def rtu_read_response_def)
qed

text \<open>
  A read response is accepted with a payload exactly when it is the frame of that payload: the
  station and function of the request, the byte count that the quantity demands, the payload and a
  correct CRC, and nothing else.
\<close>

theorem rtu_read_response_accepted:
  assumes "function < 0x80"
  shows "rtu_parse_read_response response slave function quantity = Inr payload \<longleftrightarrow>
    response = rtu_read_response slave function payload \<and> length payload = expected_bytes function quantity
    \<and> length payload < 256"
  using assms by (rule rtu_read_response_parse)

theorem rtu_read_response_accepted_witness:
  "rtu_parse_read_response (rtu_read_response 1 3 [0, 7]) 1 3 1 = Inr [0, 7]"
  using rtu_read_response_accepted [of 3 "rtu_read_response 1 3 [0, 7]" 1 1 "[0, 7]"]
  by (simp add: expected_bytes_def is_bit_function_def)

section \<open>Reading\<close>

lemma modbus_quantity_bounds: "modbus_quantity is_bit ty addr = Inr q \<Longrightarrow> 0 < unat q \<and> unat q \<le> 4"
proof -
  assume h: "modbus_quantity is_bit ty addr = Inr q"
  have "0 < unat (register_count e) \<and> unat (register_count e) \<le> 4" for e
    by (cases e) (simp_all add: register_count_def)
  with h show ?thesis by (auto simp: modbus_quantity_def rbind_Inr split: if_splits)
qed

lemma rtu_parse_address_function:
  "rtu_parse_address kind value d = Inr addr \<Longrightarrow> ma_function addr \<in> {1, 2, 3, 4}"
  by (auto simp: rtu_parse_address_def rtu_reference_def rbind_Inr ok_or_Inr Let_def split: if_splits prod.splits)

lemma rtu_plan_point_ok:
  assumes "rtu_plan_point a m = Inr (m', addr, q)"
  shows "m' = m" "ma_function addr < 0x80" "0 < unat q" "unat q \<le> 4"
proof -
  have addr: "rtu_point_address a m = Inr addr" and m: "m' = m"
    and q: "modbus_quantity (is_bit_function (ma_function addr)) (pm_value_type m) (pm_address m) = Inr q"
    using assms by (auto simp: rtu_plan_point_def rbind_Inr)
  have "rtu_parse_address (pa_kind (pm_address m)) (pa_value (pm_address m)) (ra_default_slave_id a) = Inr addr"
    using addr by (simp add: rtu_point_address_def map_err_Inr)
  then have "ma_function addr \<in> {1, 2, 3, 4}" by (rule rtu_parse_address_function)
  then show "ma_function addr < 0x80" by auto
  show "m' = m" by (rule m)
  show "0 < unat q" "unat q \<le> 4" using modbus_quantity_bounds [OF q] by simp_all
qed

text \<open>What the stations hold, by station and function, and their answers.\<close>

definition station_payload ::
  "(u8 \<Rightarrow> u8 \<Rightarrow> nat \<Rightarrow> bool) \<Rightarrow> (u8 \<Rightarrow> u8 \<Rightarrow> nat \<Rightarrow> u16) \<Rightarrow> u8 \<Rightarrow> u8 \<Rightarrow> u16 \<Rightarrow> u16 \<Rightarrow> u8 list" where
  "station_payload bits regs s f off q =
     (if is_bit_function f then bit_response (bits s f) (unat off) (unat q)
      else register_response (regs s f) (unat off) (unat q))"

definition stations_answer ::
  "'b transact \<Rightarrow> (u8 \<Rightarrow> u8 \<Rightarrow> nat \<Rightarrow> bool) \<Rightarrow> (u8 \<Rightarrow> u8 \<Rightarrow> nat \<Rightarrow> u16) \<Rightarrow> bool" where
  "stations_answer transact bits regs = (\<forall>b s f off q.
     fst (transact b (build_read_request s f off q)) = Inr (rtu_read_response s f (station_payload bits regs s f off q)))"

lemma length_station_payload: "length (station_payload bits regs s f off q) = expected_bytes f q"
  by (simp add: station_payload_def expected_bytes_def bit_response_def)

text \<open>Holding registers alone, as the field tools read them.\<close>

definition build_read_holding_registers_request :: "u8 \<Rightarrow> u16 \<Rightarrow> u16 \<Rightarrow> u8 list" where
  "build_read_holding_registers_request slave register registers =
     build_read_request slave READ_HOLDING_REGISTERS register registers"

definition parse_read_holding_registers_response :: "u8 list \<Rightarrow> u8 \<Rightarrow> u16 \<Rightarrow> string + u16 list" where
  "parse_read_holding_registers_response response slave registers =
     rbind (rtu_parse_read_response response slave READ_HOLDING_REGISTERS registers) (\<lambda>payload.
       Inr (map (\<lambda>(a, b). from_be_bytes16 a b) (chunks2 payload)))"

text \<open>The points of a window, decoded from the answer to the window.\<close>

lemma rtu_decode_points_ok:
  assumes "window_ok w" "set ps \<subseteq> set (mw_points w)" "mw_is_bit w = is_bit_function (mw_function w)"
    and "\<forall>p \<in> set ps. decode_modbus_value (is_bit_function (mp_function p))
        (pm_value_type (fst (planned ! mp_mapping_index p))) (pm_address (fst (planned ! mp_mapping_index p)))
        (station_payload bits regs (mp_station_id p) (mp_function p) (mp_offset p) (mp_quantity p))
        = Inr (v (mp_mapping_index p))"
  shows "rtu_decode_points planned now w
      (station_payload bits regs (mw_station_id w) (mw_function w) (mw_offset w) (mw_quantity w)) ps samples =
    Inr (foldl (\<lambda>ss p. ss[mp_mapping_index p := Some (rtu_sample now (mp_mapping_index p)
        (fst (planned ! mp_mapping_index p)) (v (mp_mapping_index p)))]) samples ps)"
  using assms(2,4)
proof (induction ps arbitrary: samples)
  case Nil
  then show ?case by simp
next
  case (Cons p ps)
  have p: "p \<in> set (mw_points w)" using Cons.prems(1) by simp
  then have t: "mp_station_id p = mw_station_id w" "mp_function p = mw_function w" "mp_is_bit p = mw_is_bit w"
    using assms(1) by (auto simp: window_ok_def target_def window_target_def)
  have "extract_point_payload w p
      (station_payload bits regs (mw_station_id w) (mw_function w) (mw_offset w) (mw_quantity w)) =
    Inr (station_payload bits regs (mp_station_id p) (mp_function p) (mp_offset p) (mp_quantity p))"
    using extract_window [OF assms(1) p] t assms(3) by (simp add: station_payload_def)
  then show ?case using Cons t by (simp add: Let_def)
qed

lemma rtu_read_windows_ok:
  assumes "stations_answer transact bits regs"
    and "\<forall>w \<in> set ws. window_ok w \<and> mw_is_bit w = is_bit_function (mw_function w) \<and>
      mw_function w < 0x80 \<and> expected_bytes (mw_function w) (mw_quantity w) < 256"
    and "\<forall>p \<in> set (windows_points ws). decode_modbus_value (is_bit_function (mp_function p))
        (pm_value_type (fst (planned ! mp_mapping_index p))) (pm_address (fst (planned ! mp_mapping_index p)))
        (station_payload bits regs (mp_station_id p) (mp_function p) (mp_offset p) (mp_quantity p))
        = Inr (v (mp_mapping_index p))"
  shows "fst (rtu_read_windows transact planned now ws samples b) =
    Inr (foldl (\<lambda>ss p. ss[mp_mapping_index p := Some (rtu_sample now (mp_mapping_index p)
        (fst (planned ! mp_mapping_index p)) (v (mp_mapping_index p)))]) samples (windows_points ws))"
  using assms(2,3)
proof (induction ws arbitrary: samples b)
  case Nil
  then show ?case by (simp add: windows_points_def bus_return_def)
next
  case (Cons w ws)
  let ?payload = "station_payload bits regs (mw_station_id w) (mw_function w) (mw_offset w) (mw_quantity w)"
  obtain b' where send: "bus_send transact (build_read_request (mw_station_id w) (mw_function w) (mw_offset w)
      (mw_quantity w)) b = (Inr (rtu_read_response (mw_station_id w) (mw_function w) ?payload), b')"
    using assms(1) unfolding stations_answer_def bus_send_def by (metis prod.collapse)
  have w: "window_ok w" "mw_is_bit w = is_bit_function (mw_function w)" "mw_function w < 0x80"
      "expected_bytes (mw_function w) (mw_quantity w) < 256" using Cons.prems(1) by simp_all
  have parse: "rtu_parse_read_response (rtu_read_response (mw_station_id w) (mw_function w) ?payload)
      (mw_station_id w) (mw_function w) (mw_quantity w) = Inr ?payload"
    using w(4) by (simp add: rtu_read_response_parse [OF w(3)] length_station_payload)
  have "\<forall>p \<in> set (mw_points w). decode_modbus_value (is_bit_function (mp_function p))
        (pm_value_type (fst (planned ! mp_mapping_index p))) (pm_address (fst (planned ! mp_mapping_index p)))
        (station_payload bits regs (mp_station_id p) (mp_function p) (mp_offset p) (mp_quantity p))
        = Inr (v (mp_mapping_index p))"
    using Cons.prems(2) by (simp add: windows_points_def)
  note dec = rtu_decode_points_ok [OF w(1) subset_refl w(2) this]
  show ?case
    using Cons.IH Cons.prems
    by (simp add: bus_bind_def [of "bus_send transact r" for r] send parse dec windows_points_def)
qed

lemma foldl_set_all:
  "i < length xs \<Longrightarrow> foldl (\<lambda>ss p. ss[f p := Some (g (f p))]) xs ps ! i = (if i \<in> f ` set ps then Some (g i) else xs ! i)"
  by (induction ps arbitrary: xs) (auto simp: nth_list_update)

lemma length_foldl_set: "length (foldl (\<lambda>ss p. ss[f p := h p]) xs ps) = length xs"
  by (induction ps arbitrary: xs) simp_all

lemma foldl_set_range:
  assumes "f ` set ps = {0 ..< n}"
  shows "foldl (\<lambda>ss p. ss[f p := Some (g (f p))]) (replicate n None) ps = map (\<lambda>i. Some (g i)) [0 ..< n]"
  by (rule nth_equalityI) (simp_all add: length_foldl_set foldl_set_all assms)

lemma map_filter_Some: "List.map_filter id (map (\<lambda>i. Some (g i)) xs) = map g xs"
  by (induction xs) (simp_all add: List.map_filter_simps)

lemma rtu_plan_facts:
  assumes "rtu_plan a = Inr planned" "i < length planned" "planned ! i = (m, addr, q)"
  shows "ma_function addr < 0x80" "0 < unat q" "unat q \<le> 4"
proof -
  have "list_all2 (\<lambda>m y. rtu_plan_point a m = Inr y)
      (filter (\<lambda>m. pm_protocol_connection_id m = pc_connection_id (ra_connection a)) (ra_mappings a)) planned"
    using assms(1) by (simp add: rtu_plan_def collect_Inr)
  from list_all2_nthD2 [OF this assms(2)] obtain m' where "rtu_plan_point a m' = Inr (m, addr, q)"
    unfolding assms(3) by blast
  then show "ma_function addr < 0x80" "0 < unat q" "unat q \<le> 4" by (auto dest: rtu_plan_point_ok)
qed

lemma planned_points:
  "p \<in> set (map (\<lambda>(i, pp). rtu_read_point i pp) (List.enumerate 0 planned)) \<longleftrightarrow>
     (\<exists>i < length planned. p = rtu_read_point i (planned ! i))"
proof -
  have "set (List.enumerate 0 planned) = (\<lambda>i. (i, planned ! i)) ` {0 ..< length planned}"
    by (auto simp: in_set_enumerate_eq)
  then show ?thesis by auto
qed

text \<open>A window over planned points asks one bit or register function for an answer of at most 255 bytes.\<close>

lemma window_request_ok:
  assumes "window_ok w"
    and "\<And>p. p \<in> set (mw_points w) \<Longrightarrow> unat (mp_quantity p) \<le> 4 \<and> mp_function p < 0x80 \<and>
      mp_is_bit p = is_bit_function (mp_function p)"
  shows "window_ok w \<and> mw_is_bit w = is_bit_function (mw_function w) \<and> mw_function w < 0x80 \<and>
    expected_bytes (mw_function w) (mw_quantity w) < 256"
proof -
  obtain p where p: "p \<in> set (mw_points w)" using assms(1) by (cases "mw_points w") (auto simp: window_ok_def)
  then have "mp_function p = mw_function w" "mp_is_bit p = mw_is_bit w"
    using assms(1) by (auto simp: window_ok_def target_def window_target_def)
  then have f: "mw_is_bit w = is_bit_function (mw_function w)" "mw_function w < 0x80"
    using assms(2) [OF p] by auto
  have "\<forall>p \<in> set (mw_points w). unat (mp_quantity p) \<le> read_limit (mp_is_bit p)"
    using assms(2) by (force simp: read_limit_def)
  then have "unat (mw_quantity w) \<le> read_limit (mw_is_bit w)" using assms(1) by (simp add: window_ok_def)
  with assms(1) f show ?thesis
    by (auto simp: expected_bytes_def read_limit_def div_ceil_def split: if_splits)
qed

definition point_value ::
  "(u8 \<Rightarrow> u8 \<Rightarrow> nat \<Rightarrow> bool) \<Rightarrow> (u8 \<Rightarrow> u8 \<Rightarrow> nat \<Rightarrow> u16) \<Rightarrow> planned_point \<Rightarrow> string + telemetry_value" where
  "point_value bits regs pp = (case pp of (m, addr, q) \<Rightarrow>
     decode_modbus_value (is_bit_function (ma_function addr)) (pm_value_type m) (pm_address m)
       (station_payload bits regs (ma_slave_id addr) (ma_function addr) (ma_offset addr) q))"

text \<open>
  C2. Polling through batches gives what polling each point alone would: if the stations answer read
  requests from their memory and every point decodes, the poll returns one sample per mapped point,
  in the order of the mappings, with the value that a read of this point alone decodes to.
\<close>

theorem rtu_read_telemetry_correct:
  assumes "pc_protocol (ra_connection a) = ModbusRtu" "rtu_plan a = Inr planned"
    and "stations_answer transact bits regs"
    and "\<forall>(m, addr, q) \<in> set planned. unat (ma_offset addr) + unat q \<le> 65536"
    and "\<forall>i < length planned. point_value bits regs (planned ! i) = Inr (v i)"
  shows "fst (rtu_read_telemetry transact now a b) =
    Inr (map (\<lambda>i. rtu_sample now i (fst (planned ! i)) (v i)) [0 ..< length planned])"
proof -
  let ?ps = "map (\<lambda>(i, pp). rtu_read_point i pp) (List.enumerate 0 planned)"
  have facts: "\<exists>m addr q. planned ! i = (m, addr, q) \<and> ma_function addr < 0x80 \<and> 0 < unat q \<and> unat q \<le> 4
      \<and> unat (ma_offset addr) + unat q \<le> 65536" if "i < length planned" for i
    using rtu_plan_facts [OF assms(2) that] assms(4) that nth_mem [OF that]
    by (cases "planned ! i") fastforce
  have pt: "0 < unat (mp_quantity p) \<and> point_end p \<le> 65536 \<and> unat (mp_quantity p) \<le> 4 \<and> mp_function p < 0x80
      \<and> mp_is_bit p = is_bit_function (mp_function p)" if "p \<in> set ?ps" for p
    using that facts unfolding planned_points by (fastforce simp: rtu_read_point_def point_end_def)
  then obtain ws where ws: "plan_read_windows ?ps = Inr ws" "\<forall>w \<in> set ws. window_ok w"
      "mset (windows_points ws) = mset ?ps"
    using plan_windows_ok [of ?ps] by blast
  have pts: "set (windows_points ws) = set ?ps" using ws(3) by (rule mset_eq_setD)
  have win: "\<forall>w \<in> set ws. window_ok w \<and> mw_is_bit w = is_bit_function (mw_function w) \<and>
      mw_function w < 0x80 \<and> expected_bytes (mw_function w) (mw_quantity w) < 256"
  proof
    fix w assume w: "w \<in> set ws"
    then have "set (mw_points w) \<subseteq> set ?ps" using pts by (auto simp: windows_points_def)
    then show "window_ok w \<and> mw_is_bit w = is_bit_function (mw_function w) \<and> mw_function w < 0x80 \<and>
        expected_bytes (mw_function w) (mw_quantity w) < 256"
      using ws(2) w pt by (intro window_request_ok) blast+
  qed
  have dec: "\<forall>p \<in> set (windows_points ws). decode_modbus_value (is_bit_function (mp_function p))
        (pm_value_type (fst (planned ! mp_mapping_index p))) (pm_address (fst (planned ! mp_mapping_index p)))
        (station_payload bits regs (mp_station_id p) (mp_function p) (mp_offset p) (mp_quantity p))
        = Inr (v (mp_mapping_index p))"
  proof
    fix p assume "p \<in> set (windows_points ws)"
    then obtain i where i: "i < length planned" "p = rtu_read_point i (planned ! i)"
      unfolding pts planned_points by blast
    moreover have "point_value bits regs (planned ! i) = Inr (v i)" using assms(5) i(1) by blast
    ultimately show "decode_modbus_value (is_bit_function (mp_function p))
        (pm_value_type (fst (planned ! mp_mapping_index p))) (pm_address (fst (planned ! mp_mapping_index p)))
        (station_payload bits regs (mp_station_id p) (mp_function p) (mp_offset p) (mp_quantity p))
        = Inr (v (mp_mapping_index p))"
      by (cases "planned ! i") (simp add: point_value_def rtu_read_point_def)
  qed
  have "mp_mapping_index ` set (windows_points ws) = {0 ..< length planned}"
  proof -
    have "set ?ps = (\<lambda>i. rtu_read_point i (planned ! i)) ` {0 ..< length planned}"
      by (rule set_eqI, unfold planned_points) auto
    moreover have "mp_mapping_index (rtu_read_point i pp) = i" for i pp
      by (simp add: rtu_read_point_def split: prod.split)
    ultimately show ?thesis unfolding pts by (simp add: image_image)
  qed
  then show ?thesis
    using rtu_read_windows_ok [OF assms(3) win dec, of now "replicate (length planned) None" b] ws(1) assms(1,2)
    by (cases "rtu_read_windows transact planned now ws (replicate (length planned) None) b")
      (simp add: rtu_read_telemetry_def rtu_require_def bus_bind_def [of "rtu_read_windows x y z u t" for x y z u t]
        foldl_set_range [where g = "\<lambda>i. rtu_sample now i (fst (planned ! i)) (v i)"] map_filter_Some bus_return_def)
qed

text \<open>Stations that answer from their memory, and an adapter with one point per given coil address.\<close>

definition memory_station ::
  "(u8 \<Rightarrow> u8 \<Rightarrow> nat \<Rightarrow> bool) \<Rightarrow> (u8 \<Rightarrow> u8 \<Rightarrow> nat \<Rightarrow> u16) \<Rightarrow> 'b transact" where
  "memory_station bits regs b req =
     (Inr (rtu_read_response (req ! 0) (req ! 1) (station_payload bits regs (req ! 0) (req ! 1)
        (from_be_bytes16 (req ! 2) (req ! 3)) (from_be_bytes16 (req ! 4) (req ! 5)))), b)"

lemma memory_station_answers: "stations_answer (memory_station bits regs) bits regs"
  by (simp add: stations_answer_def memory_station_def build_read_request_def append_modbus_rtu_crc_def
      to_be_bytes16_def from_be_to_be16)

definition coil_mapping :: "string \<Rightarrow> telemetry_point_mapping" where
  "coil_mapping value = (mapping_new value ''device'' ''coil'' ''rtu''
     \<lparr>pa_kind = ''coil'', pa_value = value, pa_modbus = None\<rparr> TyBoolean)\<lparr>pm_access := ReadWrite\<rparr>"

definition coil_adapter :: "string list \<Rightarrow> rtu_adapter" where
  "coil_adapter values = rtu_adapter_new ((connection_simulated ''rtu'')\<lparr>pc_protocol := ModbusRtu\<rparr>) (map coil_mapping values)"

lemma coil_mapping_sel:
  "pm_address (coil_mapping value) = \<lparr>pa_kind = ''coil'', pa_value = value, pa_modbus = None\<rparr>"
  "pm_value_type (coil_mapping value) = TyBoolean" "pm_access (coil_mapping value) = ReadWrite"
  "pm_protocol_connection_id (coil_mapping value) = ''rtu''" "pm_point_id (coil_mapping value) = value"
  by (simp_all add: coil_mapping_def mapping_new_def)

lemma coil_adapter_sel:
  "pc_protocol (ra_connection (coil_adapter values)) = ModbusRtu"
  "pc_connection_id (ra_connection (coil_adapter values)) = ''rtu''"
  "ra_mappings (coil_adapter values) = map coil_mapping values" "ra_default_slave_id (coil_adapter values) = 1"
  by (simp_all add: coil_adapter_def rtu_adapter_new_def connection_simulated_def)

lemma coil_address:
  "parse_uint 10 (2 ^ 32) value = Some n \<Longrightarrow> CHR '':'' \<notin> set value \<Longrightarrow> 0 < n \<Longrightarrow> n \<le> 65536 \<Longrightarrow>
     rtu_point_address (coil_adapter vs) (coil_mapping value) =
     Inr \<lparr>ma_slave_id = 1, ma_function = 1, ma_offset = of_nat (n - 1)\<rparr>"
  by (simp add: rtu_point_address_def rtu_parse_address_def rtu_reference_def coil_mapping_sel coil_adapter_sel
      split_once_None [THEN iffD2] Let_def)

lemma coil_options: "validate_modbus_point_options (pm_address (coil_mapping value)) TyBoolean ReadWrite = Inr ()"
  by (simp add: validate_modbus_point_options_def validate_point_access_def coil_mapping_sel)

theorem rtu_read_telemetry_correct_witness:
  "fst (rtu_read_telemetry (memory_station (\<lambda>s f n. n = 0) (\<lambda>s f n. 0)) (\<lambda>i. 7) (coil_adapter [''1'', ''2'']) ()) =
     Inr [rtu_sample (\<lambda>i. 7) 0 (coil_mapping ''1'') (Boolean True),
          rtu_sample (\<lambda>i. 7) 1 (coil_mapping ''2'') (Boolean False)]"
proof -
  let ?planned = "[(coil_mapping ''1'', \<lparr>ma_slave_id = 1, ma_function = 1, ma_offset = 0\<rparr>, 1),
    (coil_mapping ''2'', \<lparr>ma_slave_id = 1, ma_function = 1, ma_offset = 1\<rparr>, 1)] :: planned_point list"
  have parse: "parse_uint 10 (2 ^ 32) ''1'' = Some 1" "parse_uint 10 (2 ^ 32) ''2'' = Some 2" by (simp_all add: parse_uint_def digit_val_def)
  have plan: "rtu_plan (coil_adapter [''1'', ''2'']) = Inr ?planned"
    using coil_address [OF parse(1)] coil_address [OF parse(2)]
    by (simp add: rtu_plan_def rtu_plan_point_def coil_adapter_sel coil_mapping_sel(2-5) coil_options is_bit_function_def
        modbus_quantity_def coil_mapping_sel(1) validate_modbus_point_options_def validate_point_access_def)
  have vals: "\<forall>i < length ?planned. point_value (\<lambda>s f n. n = 0) (\<lambda>s f n. 0) (?planned ! i) = Inr (Boolean (i = 0))"
    by (auto simp: less_Suc_eq point_value_def station_payload_def is_bit_function_def bit_response_def pack_bits_def
        div_ceil_def or_bit_def decode_modbus_value_def)
  have "\<forall>(m, addr, q) \<in> set ?planned. unat (ma_offset addr) + unat q \<le> 65536" by simp
  from rtu_read_telemetry_correct [OF coil_adapter_sel(1) plan memory_station_answers this vals, of "\<lambda>i. 7" "()"]
  show ?thesis by (simp add: upt_rec)
qed

end
