(* ===== verification/Rtu_Write.thy ===== *)
theory Rtu_Write
  imports Modbus_Rtu
begin

text \<open>
  Writing through Modbus RTU: a station executes the frames that \<open>build_write_request\<close> makes, and a
  batch of \<open>prepare_write_batch\<close> leaves a station in the state of the single writes it replaces.
\<close>

section \<open>A station\<close>

text \<open>Coils and holding registers, and a write of values from an address on.\<close>

type_synonym station_memory = "(nat \<Rightarrow> bool) \<times> (nat \<Rightarrow> u16)"

definition put_values :: "nat \<Rightarrow> 'a list \<Rightarrow> (nat \<Rightarrow> 'a) \<Rightarrow> nat \<Rightarrow> 'a" where
  "put_values off vs mem = (\<lambda>a. if off \<le> a \<and> a < off + length vs then vs ! (a - off) else mem a)"

lemma put_values_nil [simp]: "put_values off [] mem = mem"
  by (rule ext) (auto simp: put_values_def)

lemma put_values_append:
  "put_values (off + length xs) ys (put_values off xs mem) = put_values off (xs @ ys) mem"
  by (rule ext) (auto simp: put_values_def nth_append)

text \<open>What the functions 5, 6, 15 and 16 of the Modbus specification do with a request.\<close>

definition station_execute :: "u8 list \<Rightarrow> station_memory \<Rightarrow> station_memory" where
  "station_execute req = (\<lambda>(coils, regs).
     let function = req ! 1; off = unat (from_be_bytes16 (req ! 2) (req ! 3));
         word = from_be_bytes16 (req ! 4) (req ! 5) in
     if function = WRITE_SINGLE_COIL then (put_values off [word = 0xFF00] coils, regs)
     else if function = WRITE_SINGLE_REGISTER then (coils, put_values off [word] regs)
     else if function = WRITE_MULTIPLE_COILS
     then (put_values off (map (get_bit (drop 7 req)) [0 ..< unat word]) coils, regs)
     else if function = WRITE_MULTIPLE_REGISTERS
     then (coils, put_values off (map (\<lambda>i. from_be_bytes16 (req ! (7 + 2 * i)) (req ! (7 + (2 * i + 1)))) [0 ..< unat word]) regs)
     else (coils, regs))"

definition apply_write :: "modbus_address \<times> modbus_write_command \<Rightarrow> station_memory \<Rightarrow> station_memory" where
  "apply_write = (\<lambda>(addr, c) (coils, regs).
     if wc_function c \<in> {WRITE_SINGLE_COIL, WRITE_MULTIPLE_COILS}
     then (put_values (unat (ma_offset addr)) (map (\<lambda>v. v \<noteq> 0) (wc_values c)) coils, regs)
     else (coils, put_values (unat (ma_offset addr)) (wc_values c) regs))"

text \<open>The commands that the adapter sends.\<close>

definition command_ok :: "modbus_write_command \<Rightarrow> bool" where
  "command_ok c = (wc_values c \<noteq> [] \<and> length (wc_values c) \<le> 1968 \<and>
     wc_function c \<in> {WRITE_SINGLE_COIL, WRITE_SINGLE_REGISTER, WRITE_MULTIPLE_COILS, WRITE_MULTIPLE_REGISTERS} \<and>
     (wc_function c = WRITE_SINGLE_COIL \<longrightarrow> wc_values c = [0xFF00] \<or> wc_values c = [0]) \<and>
     (wc_function c = WRITE_SINGLE_REGISTER \<longrightarrow> length (wc_values c) = 1))"

lemma be_pairs: "from_be_bytes16 (to_be_bytes16 w ! 0) (to_be_bytes16 w ! Suc 0) = w"
  by (simp add: to_be_bytes16_def from_be_to_be16)

lemma nth_concat_be:
  "i < length vs \<Longrightarrow> concat (map to_be_bytes16 vs) ! (2 * i) = to_be_bytes16 (vs ! i) ! 0 \<and>
     concat (map to_be_bytes16 vs) ! (2 * i + 1) = to_be_bytes16 (vs ! i) ! 1"
proof (induction vs arbitrary: i)
  case Nil
  then show ?case by simp
next
  case (Cons v vs)
  then show ?case by (cases i) (auto simp: to_be_bytes16_def)
qed

lemma packed_coils_read:
  assumes "length h = 7"
  shows "map (get_bit (drop 7 (append_modbus_rtu_crc (h @ pack_coils vs)))) [0 ..< length vs] = map (\<lambda>v. v \<noteq> 0) vs"
proof (rule nth_equalityI)
  fix i
  assume "i < length (map (get_bit (drop 7 (append_modbus_rtu_crc (h @ pack_coils vs)))) [0 ..< length vs])"
  then have i: "i < length vs" by simp
  then have lt: "i div 8 < div_ceil (length vs) 8" by (rule div_ceil_8_less)
  then have "drop 7 (append_modbus_rtu_crc (h @ pack_coils vs)) ! (i div 8) = pack_coils vs ! (i div 8)"
    using assms by (simp add: append_modbus_rtu_crc_def nth_append pack_coils_def)
  then have "get_bit (drop 7 (append_modbus_rtu_crc (h @ pack_coils vs))) i = get_bit (pack_coils vs) i"
    by (simp add: get_bit_def)
  then show "map (get_bit (drop 7 (append_modbus_rtu_crc (h @ pack_coils vs)))) [0 ..< length vs] ! i
      = map (\<lambda>v. v \<noteq> 0) vs ! i"
    using i get_pack_bits [OF lt] by (simp add: pack_coils_def)
qed simp

lemma registers_read:
  assumes "length h = 7" "req = append_modbus_rtu_crc (h @ concat (map to_be_bytes16 vs))"
  shows "map (\<lambda>i. from_be_bytes16 (req ! (7 + 2 * i)) (req ! (7 + (2 * i + 1)))) [0 ..< length vs] = vs"
proof (rule nth_equalityI)
  fix i
  assume "i < length (map (\<lambda>i. from_be_bytes16 (req ! (7 + 2 * i)) (req ! (7 + (2 * i + 1)))) [0 ..< length vs])"
  then have i: "i < length vs" by simp
  have len: "length (concat (map to_be_bytes16 vs)) = 2 * length vs"
    by (induction vs) (simp_all add: to_be_bytes16_def)
  have nth: "req ! (7 + k) = concat (map to_be_bytes16 vs) ! k" if "k < 2 * length vs" for k
    using that assms len by (simp add: append_modbus_rtu_crc_def nth_append)
  have "req ! (7 + 2 * i) = to_be_bytes16 (vs ! i) ! 0" "req ! (7 + (2 * i + 1)) = to_be_bytes16 (vs ! i) ! 1"
    unfolding nth [of "2 * i"] using i nth_concat_be [OF i] nth [of "2 * i"] nth [of "2 * i + 1"] by simp_all
  then show "map (\<lambda>i. from_be_bytes16 (req ! (7 + 2 * i)) (req ! (7 + (2 * i + 1)))) [0 ..< length vs] ! i = vs ! i"
    using i be_pairs by simp
qed simp

lemma execute_build_write:
  assumes "command_ok c"
  shows "station_execute (build_write_request (ma_slave_id addr) (ma_offset addr) c) mem = apply_write (addr, c) mem"
proof -
  obtain coils regs where mem: "mem = (coils, regs)" by (cases mem)
  let ?vs = "wc_values c" and ?off = "ma_offset addr" and ?s = "ma_slave_id addr"
  have hdr: "append_modbus_rtu_crc ([?s, f] @ to_be_bytes16 ?off @ rest) ! 1 = f"
      "from_be_bytes16 (append_modbus_rtu_crc ([?s, f] @ to_be_bytes16 ?off @ rest) ! 2)
         (append_modbus_rtu_crc ([?s, f] @ to_be_bytes16 ?off @ rest) ! 3) = ?off" for f rest
    by (simp_all add: append_modbus_rtu_crc_def to_be_bytes16_def from_be_to_be16)
  have wd: "from_be_bytes16 (append_modbus_rtu_crc ([?s, f] @ to_be_bytes16 ?off @ to_be_bytes16 w @ rest) ! 4)
         (append_modbus_rtu_crc ([?s, f] @ to_be_bytes16 ?off @ to_be_bytes16 w @ rest) ! 5) = w" for f w rest
    by (simp add: append_modbus_rtu_crc_def to_be_bytes16_def from_be_to_be16)
  have q: "unat (of_nat (min (length ?vs) 65535) :: u16) = length ?vs"
    using assms by (simp add: command_ok_def unat_of_nat min_def)
  let ?w = "of_nat (min (length ?vs) 65535) :: u16"
  let ?h = "\<lambda>f n. [?s, f] @ to_be_bytes16 ?off @ to_be_bytes16 ?w @ [n]"
  have len: "length (?h f n) = 7" for f n by (simp add: to_be_bytes16_def)
  consider (sc) v where "wc_function c = WRITE_SINGLE_COIL" "?vs = [v]" "v = 0xFF00 \<or> v = 0"
    | (sr) v where "wc_function c = WRITE_SINGLE_REGISTER" "?vs = [v]"
    | (mc) "wc_function c = WRITE_MULTIPLE_COILS" | (mr) "wc_function c = WRITE_MULTIPLE_REGISTERS"
    using assms by (auto simp: command_ok_def length_Suc_conv)
  then show ?thesis
  proof cases
    case sc
    then show ?thesis using hdr [of 5] wd [of 5 _ "[]"]
      by (auto simp: mem station_execute_def build_write_request_def apply_write_def Let_def)
  next
    case sr
    then show ?thesis using hdr [of 6] wd [of 6 _ "[]"]
      by (auto simp: mem station_execute_def build_write_request_def apply_write_def Let_def)
  next
    case mc
    then show ?thesis using hdr [of 15] wd [of 15 ?w] q packed_coils_read [OF len]
      by (simp add: mem station_execute_def build_write_request_def apply_write_def Let_def)
  next
    case mr
    then show ?thesis using hdr [of 16] wd [of 16 ?w] q registers_read [OF len refl, of 16 _ ?vs]
      by (simp add: mem station_execute_def build_write_request_def apply_write_def Let_def)
  qed
qed

section \<open>Prepared writes\<close>

lemma length_be_bytes:
  "length (be_bytes (x :: u16)) = 2" "length (be_bytes (y :: u32)) = 4" "length (be_bytes (z :: u64)) = 8"
  by (simp_all add: be_bytes_def)

lemma checked_integer_Inr: "checked_integer lo hi bytes v = Inr b \<Longrightarrow> \<exists>i. b = bytes i"
  by (auto simp: checked_integer_def split: if_splits)

lemma encode_integer_length: "encode_integer e v = Inr bytes \<Longrightarrow> length bytes \<in> {2, 4, 8}"
  unfolding encode_integer_def
  by (cases e; simp only: modbus_encoding.case split: if_splits; (drule checked_integer_Inr)?)
    (auto simp: length_be_bytes)

lemma encode_value_bytes_length:
  assumes "encode_value_bytes opts e ty value = Inr bytes"
  shows "length bytes \<in> {2, 4, 8}"
proof -
  consider (f) v where "ty = TyFloat" "value = Float v" | (i) v where "ty = TyInteger" "value = Integer v"
    | (b) v where "ty = TyBoolean" "value = Boolean v"
    using assms by (cases ty; cases "value") (simp_all add: encode_value_bytes_def)
  then show ?thesis
  proof cases
    case f
    with assms show ?thesis
      by (cases e) (auto simp: encode_value_bytes_def rbind_Inr Let_def length_be_bytes split: if_splits)
  next
    case i
    with assms show ?thesis by (auto simp: encode_value_bytes_def rbind_Inr dest: encode_integer_length)
  next
    case b
    with assms show ?thesis by (auto simp: encode_value_bytes_def length_be_bytes)
  qed
qed

lemma encode_register_values_length:
  assumes "encode_modbus_register_values ty addr value = Inr regs"
  shows "regs \<noteq> [] \<and> length regs \<le> 4"
proof -
  obtain e bytes where "encode_value_bytes (options_of addr) e ty value = Inr bytes"
      and len: "length regs = length (chunks2 bytes)"
    using assms by (auto simp: encode_modbus_register_values_def Let_def rbind_Inr split: if_splits)
  then have "length bytes \<in> {2, 4, 8}" by (intro encode_value_bytes_length)
  then have "length regs \<in> {1, 2, 4}"
    unfolding len by (auto simp: length_Suc_conv numeral_eq_Suc)
  then show ?thesis by auto
qed

lemma prepare_point_write_ok:
  assumes "prepare_point_write a m value = Inr (addr, c)"
  shows "command_ok c \<and> length (wc_values c) \<le> 4 \<and>
    (ma_function addr = READ_COILS \<longrightarrow> wc_function c = WRITE_SINGLE_COIL) \<and>
    (ma_function addr = READ_HOLDING_REGISTERS \<longrightarrow>
       wc_function c = WRITE_SINGLE_REGISTER \<or> wc_function c = WRITE_MULTIPLE_REGISTERS)"
proof -
  have "encode_write_command addr (pm_address m) (pm_value_type m) value = Inr c"
    using assms by (auto simp: prepare_point_write_def rbind_Inr split: if_splits)
  then show ?thesis
    by (fastforce simp: encode_write_command_def command_ok_def rbind_Inr
        dest: encode_register_values_length split: if_splits telemetry_value.splits)
qed

section \<open>Batches\<close>

definition apply_writes :: "(modbus_address \<times> modbus_write_command) list \<Rightarrow> station_memory \<Rightarrow> station_memory" where
  "apply_writes ws mem = foldl (\<lambda>m w. apply_write w m) mem ws"

lemma coil_batch_apply:
  assumes "coil_batch e ws vs = Inr (Some out)"
    and "\<forall>(addr, c) \<in> set ws. command_ok c"
  shows "\<exists>more. out = vs @ more \<and> length more = length ws \<and>
    apply_writes ws (coils, regs) = (put_values (unat e) (map (\<lambda>v. v \<noteq> 0) more) coils, regs)"
  using assms
proof (induction ws arbitrary: e vs coils)
  case Nil
  then show ?case by (simp add: apply_writes_def)
next
  case (Cons w ws)
  obtain addr c where w: "w = (addr, c)" by (cases w)
  obtain e' where off: "ma_offset addr = e" and f: "wc_function c = WRITE_SINGLE_COIL" and e': "checked_add e 1 = Some e'"
    and rest: "coil_batch e' ws (vs @ [if hd (wc_values c) \<noteq> 0 then 1 else 0]) = Inr (Some out)"
    using Cons.prems(1) by (auto simp: w rbind_Inr ok_or_Inr split: if_splits)
  have c: "wc_values c = [0xFF00] \<or> wc_values c = [0]" using Cons.prems(2) f by (auto simp: w command_ok_def)
  then obtain v where v: "wc_values c = [v]" by blast
  have nx: "unat e' = unat e + 1" using checked_add_unat [OF e'] by simp
  from Cons.IH [OF rest] Cons.prems(2) obtain more where
    more: "out = (vs @ [if hd (wc_values c) \<noteq> 0 then 1 else 0]) @ more" "length more = length ws"
      "apply_writes ws (put_values (unat e) [v \<noteq> 0] coils, regs) =
        (put_values (unat e') (map (\<lambda>v. v \<noteq> 0) more) (put_values (unat e) [v \<noteq> 0] coils), regs)"
    by fastforce
  have "apply_writes (w # ws) (coils, regs) = apply_writes ws (put_values (unat e) [v \<noteq> 0] coils, regs)"
    by (simp add: apply_writes_def w apply_write_def f off v)
  then show ?case
    using more nx v put_values_append [of "unat e" "[v \<noteq> 0]" "map (\<lambda>v. v \<noteq> 0) more" coils]
    by (intro exI [of _ "(if v \<noteq> 0 then 1 else 0) # more"]) auto
qed

lemma register_batch_apply:
  assumes "register_batch e ws vs = Inr (Some out)"
    and "\<forall>(addr, c) \<in> set ws. command_ok c"
  shows "\<exists>more. out = vs @ more \<and> length ws \<le> length more \<and>
    apply_writes ws (coils, regs) = (coils, put_values (unat e) more regs)"
  using assms
proof (induction ws arbitrary: e vs regs)
  case Nil
  then show ?case by (simp add: apply_writes_def)
next
  case (Cons w ws)
  obtain addr c where w: "w = (addr, c)" by (cases w)
  obtain e' where off: "ma_offset addr = e"
    and f: "wc_function c = WRITE_SINGLE_REGISTER \<or> wc_function c = WRITE_MULTIPLE_REGISTERS"
    and e': "checked_add e (of_nat (length (wc_values c))) = Some e'"
    and rest: "register_batch e' ws (vs @ wc_values c) = Inr (Some out)"
    using Cons.prems(1) by (auto simp: w rbind_Inr ok_or_Inr split: if_splits)
  have c: "wc_values c \<noteq> []" "length (wc_values c) \<le> 1968" using Cons.prems(2) by (auto simp: w command_ok_def)
  then have nx: "unat e' = unat e + length (wc_values c)"
    using checked_add_unat [OF e'] by (simp add: unat_of_nat)
  from Cons.IH [OF rest] Cons.prems(2) obtain more where
    more: "out = (vs @ wc_values c) @ more" "length ws \<le> length more"
      "apply_writes ws (coils, put_values (unat e) (wc_values c) regs) =
        (coils, put_values (unat e') more (put_values (unat e) (wc_values c) regs))"
    by fastforce
  have "apply_writes (w # ws) (coils, regs) = apply_writes ws (coils, put_values (unat e) (wc_values c) regs)"
    using f by (auto simp: apply_writes_def w apply_write_def off)
  then show ?case
    using more nx c put_values_append [of "unat e" "wc_values c" more regs]
    by (intro exI [of _ "wc_values c @ more"]) (cases "wc_values c", auto)
qed

lemma execute_writes:
  assumes "\<forall>(addr, c) \<in> set ws. command_ok c"
  shows "foldl (\<lambda>m (addr, c). station_execute (build_write_request (ma_slave_id addr) (ma_offset addr) c) m) mem ws
    = apply_writes ws mem"
  using assms
proof (induction ws arbitrary: mem)
  case Nil
  then show ?case by (simp add: apply_writes_def)
next
  case (Cons w ws)
  obtain addr c where w: "w = (addr, c)" by (cases w)
  have "command_ok c" using Cons.prems by (simp add: w)
  from execute_build_write [OF this] Cons show ?case by (simp add: apply_writes_def w)
qed

lemma batch_of_apply:
  assumes "batch_of ws = Inr (Some (addr, c))" "ws \<noteq> []" "\<forall>(addr, c) \<in> set ws. command_ok c"
  shows "command_ok c \<and> apply_write (addr, c) mem = apply_writes ws mem \<and>
    list_all (\<lambda>(ad, _). ma_slave_id ad = ma_slave_id addr) ws"
proof -
  obtain coils regs where mem: "mem = (coils, regs)" by (cases mem)
  have len: "0 < length ws" using assms(2) by simp
  have addr: "addr = fst (hd ws)"
    and slaves: "list_all (\<lambda>(ad, _). ma_slave_id ad = ma_slave_id addr) ws"
    using assms(1)
    by (auto simp: batch_of_def Let_def rbind_Inr list_ex_iff list_all_iff split: if_splits option.splits)
  have "ma_function addr = READ_COILS \<or> ma_function addr = READ_HOLDING_REGISTERS"
    using assms(1) unfolding addr by (auto simp: batch_of_def Let_def split: if_splits)
  then have "command_ok c \<and> apply_write (addr, c) mem = apply_writes ws mem"
  proof
    assume f: "ma_function addr = READ_COILS"
    then obtain vs where vs: "coil_batch (ma_offset addr) ws [] = Inr (Some vs)" "length vs \<le> 1968"
        "c = \<lparr>wc_function = WRITE_MULTIPLE_COILS, wc_values = vs\<rparr>"
      using assms(1) unfolding addr
      by (auto simp: batch_of_def Let_def rbind_Inr split: if_splits option.splits)
    from coil_batch_apply [OF vs(1) assms(3), of coils regs] show ?thesis
      using vs(2,3) len by (auto simp: command_ok_def apply_write_def mem)
  next
    assume f: "ma_function addr = READ_HOLDING_REGISTERS"
    then obtain vs where vs: "register_batch (ma_offset addr) ws [] = Inr (Some vs)" "length vs \<le> 123"
        "c = \<lparr>wc_function = WRITE_MULTIPLE_REGISTERS, wc_values = vs\<rparr>"
      using assms(1) unfolding addr
      by (auto simp: batch_of_def Let_def rbind_Inr split: if_splits option.splits)
    from register_batch_apply [OF vs(1) assms(3), of coils regs] show ?thesis
      using vs(2,3) len by (auto simp: command_ok_def apply_write_def mem)
  qed
  with slaves show ?thesis by blast
qed

text \<open>
  C7. Writing a batch is writing its points one after the other: when the adapter merges writes
  into one request, all of them go to the station of that request, and a station that executes the
  merged frame ends in the same state as one that executes the frames of the single writes in order.
\<close>

theorem rtu_write_batch_equivalent:
  assumes "prepare_write_batch a writes = Inr (Some (addr, c))"
  shows "\<exists>prepared. collect (\<lambda>w. prepare_point_write a (pw_mapping w) (pw_value w)) writes = Inr prepared \<and>
    list_all (\<lambda>(ad, _). ma_slave_id ad = ma_slave_id addr) prepared \<and>
    station_execute (build_write_request (ma_slave_id addr) (ma_offset addr) c) mem =
    foldl (\<lambda>m (ad, d). station_execute (build_write_request (ma_slave_id ad) (ma_offset ad) d) m) mem prepared"
proof -
  obtain prepared where p: "collect (\<lambda>w. prepare_point_write a (pw_mapping w) (pw_value w)) writes = Inr prepared"
      "batch_of prepared = Inr (Some (addr, c))" and two: "2 \<le> length writes"
    using assms by (auto simp: prepare_write_batch_def rbind_Inr split: if_splits)
  from p(1) have all: "list_all2 (\<lambda>w y. prepare_point_write a (pw_mapping w) (pw_value w) = Inr y) writes prepared"
    by (simp add: collect_Inr)
  then have "length prepared = length writes" by (simp add: list_all2_lengthD)
  then have ne: "prepared \<noteq> []" using two by auto
  have ok: "\<forall>(ad, d) \<in> set prepared. command_ok d"
    using all prepare_point_write_ok by (fastforce simp: list_all2_conv_all_nth in_set_conv_nth)
  show ?thesis
    using p(1) batch_of_apply [OF p(2) ne ok, of mem] execute_build_write [of c addr mem] execute_writes [OF ok, of mem]
    by auto
qed

lemma coil_write:
  assumes "parse_uint 10 (2 ^ 32) value = Some n" "CHR '':'' \<notin> set value" "0 < n" "n \<le> 65536"
  shows "prepare_point_write (coil_adapter vs) (coil_mapping value) (Boolean b) =
    Inr (\<lparr>ma_slave_id = 1, ma_function = 1, ma_offset = of_nat (n - 1)\<rparr>,
         \<lparr>wc_function = WRITE_SINGLE_COIL, wc_values = [if b then 0xFF00 else 0]\<rparr>)"
  using coil_address [OF assms] coil_options
  by (simp add: prepare_point_write_def coil_adapter_sel coil_mapping_sel(2-5) is_writable_def encode_write_command_def)

definition coil_writes :: "string \<Rightarrow> string \<Rightarrow> protocol_point_write list" where
  "coil_writes x y = [\<lparr>pw_mapping = coil_mapping x, pw_value = Boolean True\<rparr>,
     \<lparr>pw_mapping = coil_mapping y, pw_value = Boolean True\<rparr>]"

lemma parse_coils:
  "parse_uint 10 (2 ^ 32) ''1'' = Some 1" "parse_uint 10 (2 ^ 32) ''2'' = Some 2"
  "parse_uint 10 (2 ^ 32) ''65535'' = Some 65535" "parse_uint 10 (2 ^ 32) ''65536'' = Some 65536"
  by (simp_all add: parse_uint_def digit_val_def)

theorem rtu_write_batch_equivalent_witness:
  "prepare_write_batch (coil_adapter []) (coil_writes ''1'' ''2'') =
     Inr (Some (\<lparr>ma_slave_id = 1, ma_function = 1, ma_offset = 0\<rparr>,
       \<lparr>wc_function = WRITE_MULTIPLE_COILS, wc_values = [1, 1]\<rparr>)) \<and>
   station_execute (build_write_request 1 0 \<lparr>wc_function = WRITE_MULTIPLE_COILS, wc_values = [1, 1]\<rparr>)
      ((\<lambda>_. False), (\<lambda>_. 0)) =
   station_execute (build_write_request 1 1 \<lparr>wc_function = WRITE_SINGLE_COIL, wc_values = [0xFF00]\<rparr>)
     (station_execute (build_write_request 1 0 \<lparr>wc_function = WRITE_SINGLE_COIL, wc_values = [0xFF00]\<rparr>)
       ((\<lambda>_. False), (\<lambda>_. 0)))"
proof -
  let ?c = "\<lparr>wc_function = WRITE_MULTIPLE_COILS, wc_values = [1, 1]\<rparr>"
  have prep: "collect (\<lambda>w. prepare_point_write (coil_adapter []) (pw_mapping w) (pw_value w)) (coil_writes ''1'' ''2'') =
      Inr [(\<lparr>ma_slave_id = 1, ma_function = 1, ma_offset = 0\<rparr>, \<lparr>wc_function = WRITE_SINGLE_COIL, wc_values = [0xFF00]\<rparr>),
        (\<lparr>ma_slave_id = 1, ma_function = 1, ma_offset = 1\<rparr>, \<lparr>wc_function = WRITE_SINGLE_COIL, wc_values = [0xFF00]\<rparr>)]"
    using coil_write [OF parse_coils(1)] coil_write [OF parse_coils(2)] by (simp add: coil_writes_def)
  have batch: "prepare_write_batch (coil_adapter []) (coil_writes ''1'' ''2'') =
     Inr (Some (\<lparr>ma_slave_id = 1, ma_function = 1, ma_offset = 0\<rparr>, ?c))"
    unfolding prepare_write_batch_def prep by (simp add: coil_writes_def batch_of_def Let_def checked_add_def)
  from rtu_write_batch_equivalent [OF batch, of "((\<lambda>_. False), (\<lambda>_. 0))"] show ?thesis
    using batch unfolding prep by simp
qed

text \<open>
  A batch that ends at the last address cannot be written: the adapter computes the address
  after the last point, which does not fit, and refuses coils 65534 and 65535 although it writes each alone.
\<close>

theorem rtu_write_batch_top_refused:
  assumes "pc_protocol (ra_connection a) = ModbusRtu"
    and "prepare_point_write a (pw_mapping u) (pw_value u) = Inr (x, c)" "prepare_point_write a (pw_mapping v) (pw_value v) = Inr (y, d)"
    and "ma_slave_id y = ma_slave_id x" "ma_function x = READ_COILS" "ma_function y = READ_COILS"
    and "ma_offset x = 65534" "ma_offset y = 65535"
  shows "rtu_write_points transact a [u, v] b = (Inl ''Modbus coil batch exceeds address range'', b)"
proof -
  have "wc_function c = WRITE_SINGLE_COIL" "wc_function d = WRITE_SINGLE_COIL"
    using prepare_point_write_ok [OF assms(2)] prepare_point_write_ok [OF assms(3)] assms(5,6) by auto
  then have "prepare_write_batch a [u, v] = Inl ''Modbus coil batch exceeds address range''"
    using assms(2-8) by (simp add: prepare_write_batch_def batch_of_def Let_def checked_add_def)
  then show ?thesis using assms(1) by (simp add: rtu_write_points_def rtu_require_def)
qed

theorem rtu_write_batch_top_refused_witness:
  "rtu_write_points (memory_station (\<lambda>s f n. False) (\<lambda>s f n. 0)) (coil_adapter []) (coil_writes ''65535'' ''65536'') () =
     (Inl ''Modbus coil batch exceeds address range'', ())"
  unfolding coil_writes_def
proof (rule rtu_write_batch_top_refused [OF coil_adapter_sel(1)])
  show "prepare_point_write (coil_adapter [])
      (pw_mapping \<lparr>pw_mapping = coil_mapping ''65535'', pw_value = Boolean True\<rparr>)
      (pw_value \<lparr>pw_mapping = coil_mapping ''65535'', pw_value = Boolean True\<rparr>) =
    Inr (\<lparr>ma_slave_id = 1, ma_function = 1, ma_offset = 65534\<rparr>, \<lparr>wc_function = 5, wc_values = [0xFF00]\<rparr>)"
    using coil_write [OF parse_coils(3)] by simp
  show "prepare_point_write (coil_adapter [])
      (pw_mapping \<lparr>pw_mapping = coil_mapping ''65536'', pw_value = Boolean True\<rparr>)
      (pw_value \<lparr>pw_mapping = coil_mapping ''65536'', pw_value = Boolean True\<rparr>) =
    Inr (\<lparr>ma_slave_id = 1, ma_function = 1, ma_offset = 65535\<rparr>, \<lparr>wc_function = 5, wc_values = [0xFF00]\<rparr>)"
    using coil_write [OF parse_coils(4)] by simp
qed simp_all

text \<open>
  C38. An exception reply of a station to a write is not recognised: its frame has 5 bytes and is
  refused for its length, while the same reply to a read is reported with its exception code.
\<close>

theorem rtu_write_exception_hidden:
  "rtu_parse_write_response (append_modbus_rtu_crc [s, wc_function c OR 0x80, code]) s off c =
     Inl ''Modbus RTU write response must contain 8 bytes'' \<and>
   rtu_parse_read_response (append_modbus_rtu_crc [s, f OR 0x80, code]) s f q =
     Inl (''Modbus RTU exception code '' @ show_nat (unat code))"
proof -
  have "verify_modbus_rtu_crc (append_modbus_rtu_crc [s, f OR 0x80, code]) = Inr ()"
    unfolding verify_crc_iff by blast
  then show ?thesis
    by (simp add: rtu_parse_write_response_def rtu_parse_read_response_def nth_append_crc)
qed

end
