(* ===== verification/Dlt645.thy ===== *)
theory Dlt645
  imports Serial_Bus "HOL-Library.Multiset"
begin

text \<open>
  DL/T 645-2007 meters: the table of standard data identifiers (crates/edge-core/src/config.rs) and
  the adapter that groups points by meter and data identifier, reads each group with one exchange and
  decodes the BCD digits (crates/edge-runtime/src/dlt645.rs). The \<open>k\<close>-th sample of a poll is
  stamped \<open>now k\<close>; counters of \<open>usize\<close> are natural numbers.
\<close>

section \<open>Standard data identifiers\<close>

text \<open>The display names of the templates are left out.\<close>

record dlt645_data_identifier_template =
  dt_template_id :: string
  dt_semantic_id :: string
  dt_data_identifier :: string
  dt_value_type :: telemetry_type
  dt_decimal_places :: u8
  dt_value_bytes :: u8
  dt_unit :: "string option"

definition dlt645_template ::
  "string \<Rightarrow> string \<Rightarrow> string \<Rightarrow> telemetry_type \<Rightarrow> u8 \<Rightarrow> u8 \<Rightarrow> string option \<Rightarrow> dlt645_data_identifier_template" where
  "dlt645_template i sem did ty dec n u = \<lparr>dt_template_id = i, dt_semantic_id = sem, dt_data_identifier = did,
     dt_value_type = ty, dt_decimal_places = dec, dt_value_bytes = n, dt_unit = u\<rparr>"

definition dlt645_data_identifier_templates :: "dlt645_data_identifier_template list" where
  "dlt645_data_identifier_templates =
    [dlt645_template ''total_active_energy'' ''electric.energy.active.total'' ''00000000'' TyFloat 2 4 (Some ''kWh''),
     dlt645_template ''forward_active_energy'' ''electric.energy.active.forward'' ''00010000'' TyFloat 2 4 (Some ''kWh''),
     dlt645_template ''reverse_active_energy'' ''electric.energy.active.reverse'' ''00020000'' TyFloat 2 4 (Some ''kWh''),
     dlt645_template ''voltage_a'' ''electric.voltage.a'' ''02010100'' TyFloat 1 2 (Some ''V''),
     dlt645_template ''voltage_b'' ''electric.voltage.b'' ''02010200'' TyFloat 1 2 (Some ''V''),
     dlt645_template ''voltage_c'' ''electric.voltage.c'' ''02010300'' TyFloat 1 2 (Some ''V''),
     dlt645_template ''current_a'' ''electric.current.a'' ''02020100'' TyFloat 3 3 (Some ''A''),
     dlt645_template ''current_b'' ''electric.current.b'' ''02020200'' TyFloat 3 3 (Some ''A''),
     dlt645_template ''current_c'' ''electric.current.c'' ''02020300'' TyFloat 3 3 (Some ''A''),
     dlt645_template ''active_power_total'' ''electric.power.active.total'' ''02030000'' TyFloat 4 3 (Some ''kW''),
     dlt645_template ''active_power_a'' ''electric.power.active.a'' ''02030100'' TyFloat 4 3 (Some ''kW''),
     dlt645_template ''reactive_power_total'' ''electric.power.reactive.total'' ''02040000'' TyFloat 4 3 (Some ''kvar''),
     dlt645_template ''apparent_power_total'' ''electric.power.apparent.total'' ''02050000'' TyFloat 4 3 (Some ''kVA''),
     dlt645_template ''power_factor_total'' ''electric.power_factor.total'' ''02060000'' TyFloat 3 2 (None),
     dlt645_template ''frequency'' ''electric.frequency'' ''02800002'' TyFloat 2 2 (Some ''Hz''),
     dlt645_template ''meter_number'' ''meter.serial_number'' ''04000401'' TyText 0 6 (None)]"

definition dlt645_template_by_identifier :: "u32 \<Rightarrow> dlt645_data_identifier_template option" where
  "dlt645_template_by_identifier did =
     find (\<lambda>t. map_option of_nat (parse_uint 16 (2 ^ 32) (dt_data_identifier t)) = Some did)
       dlt645_data_identifier_templates"

section \<open>Frames\<close>

abbreviation FRAME_START :: u8 where "FRAME_START \<equiv> 0x68"
abbreviation FRAME_END :: u8 where "FRAME_END \<equiv> 0x16"
abbreviation READ_DATA :: u8 where "READ_DATA \<equiv> 0x11"
abbreviation READ_DATA_RESPONSE :: u8 where "READ_DATA_RESPONSE \<equiv> 0x91"
abbreviation DATA_OFFSET :: u8 where "DATA_OFFSET \<equiv> 0x33"

text \<open>\<open>{:08X}\<close> and \<open>{:02X}\<close>.\<close>

definition hex_upper :: "nat \<Rightarrow> char" where
  "hex_upper d = (if d < 10 then char_of (48 + d) else char_of (55 + d))"

definition show_hex :: "nat \<Rightarrow> nat \<Rightarrow> string" where
  "show_hex width n = map (\<lambda>i. hex_upper (n div 16 ^ i mod 16)) (rev [0 ..< width])"

definition dlt645_checksum :: "u8 list \<Rightarrow> u8" where
  "dlt645_checksum bytes = wrapping_sum bytes"

definition append_dlt645_checksum :: "u8 list \<Rightarrow> u8 list" where
  "append_dlt645_checksum frame = frame @ [dlt645_checksum frame]"

definition digit_byte :: "char \<Rightarrow> u8" where
  "digit_byte c = of_nat (of_char c :: nat) - 48"

definition encode_meter_address :: "string \<Rightarrow> string + u8 list" where
  "encode_meter_address value =
     (let digits = trim value in
      if length digits \<noteq> 12 \<or> \<not> list_all is_ascii_digit digits
      then Inl ''DL/T 645 meter address must contain 12 decimal digits''
      else Inr (map (\<lambda>i. push_bit 4 (digit_byte (digits ! i)) OR digit_byte (digits ! (i + 1))) [10, 8, 6, 4, 2, 0]))"

definition build_read_data_request :: "u8 list \<Rightarrow> u32 \<Rightarrow> u8 list" where
  "build_read_data_request meter did =
     append_dlt645_checksum ([FRAME_START] @ meter @ [FRAME_START, READ_DATA, 4]
       @ map (\<lambda>b. b + DATA_OFFSET) (to_le_bytes32 did)) @ [FRAME_END]"

definition parse_read_data_response :: "u8 list \<Rightarrow> u8 list \<Rightarrow> u32 \<Rightarrow> string + u8 list" where
  "parse_read_data_response response meter did =
     rbind (ok_or ''DL/T 645 response has no frame start'' (position (\<lambda>b. b = FRAME_START) response)) (\<lambda>start.
     let frame = drop start response in
     if length frame < 12 then Inl ''DL/T 645 response is too short''
     else if frame ! 7 \<noteq> FRAME_START then Inl ''DL/T 645 response has an invalid second frame start''
     else
       let data_len = unat (frame ! 9); expected_len = 12 + data_len in
       if length frame \<noteq> expected_len then Inl ''DL/T 645 response length does not match data length''
       else if frame ! (expected_len - 1) \<noteq> FRAME_END then Inl ''DL/T 645 response has an invalid frame end''
       else if dlt645_checksum (take (expected_len - 2) frame) \<noteq> frame ! (expected_len - 2)
       then Inl ''DL/T 645 checksum mismatch''
       else if take 6 (drop 1 frame) \<noteq> meter
       then Inl ''DL/T 645 response meter address does not match request''
       else
         let control = frame ! 8; decoded = map (\<lambda>b. b - DATA_OFFSET) (take data_len (drop 10 frame)) in
         if control AND 0x40 \<noteq> 0
         then Inl (''DL/T 645 exception code 0x'' @ show_hex 2 (unat (case decoded of [] \<Rightarrow> 0 | c # _ \<Rightarrow> c)))
         else if control \<noteq> READ_DATA_RESPONSE
         then Inl ''DL/T 645 response control code does not match read-data request''
         else if length decoded < 4 then Inl ''DL/T 645 read-data response is missing its data identifier''
         else if from_le_bytes32 (decoded ! 0) (decoded ! 1) (decoded ! 2) (decoded ! 3) \<noteq> did
         then Inl ''DL/T 645 response data identifier does not match request''
         else Inr (drop 4 decoded))"

fun bcd_digits :: "u8 list \<Rightarrow> string \<Rightarrow> string + string" where
  "bcd_digits [] digits = Inr digits"
| "bcd_digits (byte # rest) digits =
     (let high = drop_bit 4 byte; low = byte AND 0x0F in
      if high > 9 \<or> low > 9 then Inl ''DL/T 645 value contains invalid BCD data''
      else bcd_digits rest (digits @ [char_of (48 + unat high), char_of (48 + unat low)]))"

definition decode_bcd_value :: "telemetry_type \<Rightarrow> u8 list \<Rightarrow> u8 \<Rightarrow> string + telemetry_value" where
  "decode_bcd_value ty bytes decimal_places =
     (if bytes = [] then Inl ''DL/T 645 response contains no value data''
      else rbind (bcd_digits (rev bytes) []) (\<lambda>digits. case ty of
          TyText \<Rightarrow> Inr (Text digits)
        | TyInteger \<Rightarrow>
            rbind (ok_or ''DL/T 645 integer value exceeds i64 range'' (parse_uint 10 (2 ^ 63) digits)) (\<lambda>v.
              Inr (Integer (of_nat v)))
        | TyFloat \<Rightarrow>
            rbind (ok_or ''DL/T 645 float value exceeds u64 range'' (parse_uint 10 (2 ^ 64) digits)) (\<lambda>v.
              Inr (Float (f64_div (f64_of_int (int v)) (f64_of_int (uint (10 ^ unat decimal_places :: u64))))))
        | TyBoolean \<Rightarrow> Inr (Boolean (list_ex (\<lambda>c. c \<noteq> CHR ''0'') digits))))"

section \<open>Read groups\<close>

record dlt645_read_target =
  rt_mapping :: telemetry_point_mapping
  rt_decimal_places :: u8

record dlt645_read_group =
  rg_meter_address :: string
  rg_data_identifier :: u32
  rg_expected_value_bytes :: "u8 option"
  rg_targets :: "dlt645_read_target list"

definition expected_value_bytes :: "u32 \<Rightarrow> u8 option \<Rightarrow> string \<Rightarrow> string + u8 option" where
  "expected_value_bytes did configured point = (case dlt645_template_by_identifier did of
       None \<Rightarrow> Inr configured
     | Some t \<Rightarrow>
         if (case configured of Some n \<Rightarrow> n \<noteq> dt_value_bytes t | None \<Rightarrow> False)
         then Inl (''DL/T 645 point '' @ point @ '' data identifier '' @ dt_data_identifier t
                @ '' uses the standard response length '' @ show_nat (unat (dt_value_bytes t))
                @ '' but configures '' @ show_nat (unat (the configured)))
         else Inr (Some (dt_value_bytes t)))"

definition validate_value_length :: "u32 \<Rightarrow> u8 option \<Rightarrow> nat \<Rightarrow> string + unit" where
  "validate_value_length did expected actual = (case expected of
       None \<Rightarrow> Inr ()
     | Some n \<Rightarrow> if actual \<noteq> unat n
         then Inl (''DL/T 645 data identifier '' @ show_hex 8 (unat did) @ '' expects '' @ show_nat (unat n)
                @ '' value bytes, received '' @ show_nat actual)
         else Inr ())"

definition group_key :: "dlt645_read_group \<Rightarrow> string \<times> u32" where
  "group_key g = (rg_meter_address g, rg_data_identifier g)"

fun add_target ::
  "dlt645_point_address \<Rightarrow> u8 option \<Rightarrow> dlt645_read_target \<Rightarrow> dlt645_read_group list \<Rightarrow> string + dlt645_read_group list" where
  "add_target addr expected target [] =
     Inr [\<lparr>rg_meter_address = da_meter_address addr, rg_data_identifier = da_data_identifier addr,
           rg_expected_value_bytes = expected, rg_targets = [target]\<rparr>]"
| "add_target addr expected target (g # gs) =
     (if group_key g = (da_meter_address addr, da_data_identifier addr) then
        (case (rg_expected_value_bytes g, expected) of
           (Some current, Some candidate) \<Rightarrow>
             if current \<noteq> candidate
             then Inl (''DL/T 645 points sharing meter '' @ da_meter_address addr @ '' data identifier ''
                    @ show_hex 8 (unat (da_data_identifier addr))
                    @ '' configure conflicting response value byte lengths: '' @ show_nat (unat current)
                    @ '' and '' @ show_nat (unat candidate))
             else Inr (g\<lparr>rg_targets := rg_targets g @ [target]\<rparr> # gs)
         | (None, Some candidate) \<Rightarrow>
             Inr (g\<lparr>rg_expected_value_bytes := Some candidate, rg_targets := rg_targets g @ [target]\<rparr> # gs)
         | _ \<Rightarrow> Inr (g\<lparr>rg_targets := rg_targets g @ [target]\<rparr> # gs))
      else rbind (add_target addr expected target gs) (\<lambda>gs'. Inr (g # gs')))"

definition group_mapping ::
  "dlt645_read_group list \<Rightarrow> telemetry_point_mapping \<Rightarrow> string + dlt645_read_group list" where
  "group_mapping groups m =
     (if pa_kind (pm_address m) \<noteq> ''dlt645_address''
      then Inl ''DL/T 645 adapter supports dlt645_address addresses''
      else rbind (map_err (\<lambda>_. ''invalid point address for '' @ pm_point_id m)
             (parse_dlt645_point_address (pa_value (pm_address m)))) (\<lambda>addr.
        rbind (expected_value_bytes (da_data_identifier addr) (da_value_bytes addr) (pm_point_id m)) (\<lambda>expected.
          add_target addr expected \<lparr>rt_mapping = m, rt_decimal_places = da_decimal_places addr\<rparr> groups)))"

fun group_mappings ::
  "dlt645_read_group list \<Rightarrow> telemetry_point_mapping list \<Rightarrow> string + dlt645_read_group list" where
  "group_mappings groups [] = Inr groups"
| "group_mappings groups (m # ms) = rbind (group_mapping groups m) (\<lambda>groups'. group_mappings groups' ms)"

definition build_read_groups :: "string \<Rightarrow> telemetry_point_mapping list \<Rightarrow> string + dlt645_read_group list" where
  "build_read_groups conn mappings = group_mappings [] (filter (\<lambda>m. pm_protocol_connection_id m = conn) mappings)"

section \<open>The adapter\<close>

record dlt645_read_failure =
  rf_meter_address :: string
  rf_data_identifier :: u32
  rf_point_count :: nat
  rf_quality_code :: data_quality_code
  rf_reason :: string

record dlt645_adapter =
  dl_connection :: protocol_connection
  dl_mappings :: "telemetry_point_mapping list"
  dl_read_failures :: "dlt645_read_failure list"

definition dlt645_adapter_new :: "protocol_connection \<Rightarrow> telemetry_point_mapping list \<Rightarrow> dlt645_adapter" where
  "dlt645_adapter_new c ms = \<lparr>dl_connection = c, dl_mappings = ms, dl_read_failures = []\<rparr>"

definition classify_dlt645_error :: "string \<Rightarrow> data_quality_code" where
  "classify_dlt645_error error =
     (let has = str_contains (to_ascii_lowercase error) in
      if has ''timeout'' \<or> has ''timed out'' then BadTimeout
      else if has ''meter address'' \<or> has ''configuration'' then BadConfiguration
      else if has ''bcd'' \<or> has ''value bytes'' \<or> has ''value data'' \<or> has ''exceeds'' then BadDecode
      else if has ''checksum'' \<or> has ''exception'' \<or> has ''response'' \<or> has ''frame''
           \<or> has ''control code'' \<or> has ''data identifier'' then BadProtocol
      else BadCommunication)"

definition read_group :: "'b transact \<Rightarrow> dlt645_read_group \<Rightarrow> (u8 list, 'b) bus_op" where
  "read_group transact g =
     bus_bind (bus_lift (encode_meter_address (rg_meter_address g))) (\<lambda>meter.
     bus_bind (bus_send transact (build_read_data_request meter (rg_data_identifier g))) (\<lambda>response.
     bus_bind (bus_lift (parse_read_data_response response meter (rg_data_identifier g))) (\<lambda>value_bytes.
     bus_bind (bus_lift (validate_value_length (rg_data_identifier g) (rg_expected_value_bytes g) (length value_bytes))) (\<lambda>_.
       bus_return value_bytes))))"

definition group_failure :: "dlt645_read_group \<Rightarrow> nat \<Rightarrow> string \<Rightarrow> dlt645_read_failure" where
  "group_failure g n error = \<lparr>rf_meter_address = rg_meter_address g, rf_data_identifier = rg_data_identifier g,
     rf_point_count = n, rf_quality_code = classify_dlt645_error error, rf_reason = error\<rparr>"

record dlt645_poll =
  pp_samples :: "telemetry_sample list"
  pp_failures :: "dlt645_read_failure list"
  pp_successful_groups :: nat
  pp_failed_groups :: nat
  pp_first_group_error :: "string option"

definition decode_target ::
  "(nat \<Rightarrow> timestamp) \<Rightarrow> dlt645_read_group \<Rightarrow> u8 list \<Rightarrow> dlt645_poll \<Rightarrow> dlt645_read_target \<Rightarrow> dlt645_poll" where
  "decode_target now g bytes p t =
     (case decode_bcd_value (pm_value_type (rt_mapping t)) bytes (rt_decimal_places t) of
        Inr v \<Rightarrow> p\<lparr>pp_samples := pp_samples p @ [sample_new (pm_device_id (rt_mapping t)) (pm_point_id (rt_mapping t))
                     v QGood (now (length (pp_samples p)))]\<rparr>
      | Inl e \<Rightarrow> p\<lparr>pp_failures := pp_failures p @ [group_failure g 1 e]\<rparr>)"

definition poll_group ::
  "'b transact \<Rightarrow> (nat \<Rightarrow> timestamp) \<Rightarrow> dlt645_read_group \<Rightarrow> dlt645_poll \<times> 'b \<Rightarrow> dlt645_poll \<times> 'b" where
  "poll_group transact now g = (\<lambda>(p, b). case read_group transact g b of
       (Inr bytes, b') \<Rightarrow>
         (foldl (decode_target now g bytes) (p\<lparr>pp_successful_groups := pp_successful_groups p + 1\<rparr>) (rg_targets g), b')
     | (Inl e, b') \<Rightarrow>
         (p\<lparr>pp_failed_groups := pp_failed_groups p + 1,
            pp_failures := pp_failures p @ [group_failure g (length (rg_targets g)) e],
            pp_first_group_error := (case pp_first_group_error p of None \<Rightarrow> Some e | Some e' \<Rightarrow> Some e')\<rparr>, b'))"

definition poll_new :: dlt645_poll where
  "poll_new = \<lparr>pp_samples = [], pp_failures = [], pp_successful_groups = 0, pp_failed_groups = 0,
     pp_first_group_error = None\<rparr>"

definition dlt645_read_telemetry ::
  "'b transact \<Rightarrow> (nat \<Rightarrow> timestamp) \<Rightarrow> dlt645_adapter \<times> 'b \<Rightarrow> (string + telemetry_sample list) \<times> dlt645_adapter \<times> 'b" where
  "dlt645_read_telemetry transact now = (\<lambda>(a0, b). let a = a0\<lparr>dl_read_failures := []\<rparr> in
     if pc_protocol (dl_connection a) \<noteq> Dlt645 then (Inl ''DL/T 645 adapter requires a Dlt645 protocol connection'', a, b)
     else (case build_read_groups (pc_connection_id (dl_connection a)) (dl_mappings a) of
         Inl e \<Rightarrow> (Inl e, a, b)
       | Inr groups \<Rightarrow>
           let (p, b') = foldl (\<lambda>s g. poll_group transact now g s) (poll_new, b) groups;
               a' = a\<lparr>dl_read_failures := pp_failures p\<rparr> in
           (if pp_successful_groups p = 0 \<and> pp_failed_groups p > 0
            then Inl (''all '' @ show_nat (pp_failed_groups p) @ '' DL/T 645 read groups failed: ''
                   @ the (pp_first_group_error p))
            else Inr (pp_samples p), a', b')))"

section \<open>BCD values\<close>

text \<open>The \<open>k\<close> bytes of a number in BCD, least significant byte first.\<close>

fun bcd_bytes :: "nat \<Rightarrow> nat \<Rightarrow> u8 list" where
  "bcd_bytes 0 n = []"
| "bcd_bytes (Suc k) n = of_nat (16 * (n div 10 mod 10) + n mod 10) # bcd_bytes k (n div 100)"

lemma of_nat_u8_eq: "k < 256 \<Longrightarrow> of_nat k = b \<longleftrightarrow> k = unat b" for b :: u8
  by (auto simp: unat_of_nat)

lemma unat_of_nat_u8: "k < 256 \<Longrightarrow> unat (of_nat k :: u8) = k"
  by (simp add: unat_of_nat)

lemma div_mod_16: "l < 16 \<Longrightarrow> 16 * h + l = u \<longleftrightarrow> u div 16 = h \<and> u mod 16 = l" for u :: nat
  by auto

lemma two_digits:
  "h \<le> 9 \<and> l \<le> 9 \<and> (\<exists>v. Q v \<and> n = v * 100 + h * 10 + l) \<longleftrightarrow> h = n div 10 mod 10 \<and> l = n mod 10 \<and> Q (n div 100)"
  for n :: nat
proof
  assume "h \<le> 9 \<and> l \<le> 9 \<and> (\<exists>v. Q v \<and> n = v * 100 + h * 10 + l)"
  then obtain v where v: "h \<le> 9" "l \<le> 9" "Q v" "n = v * 100 + h * 10 + l" by blast
  have n: "n = (v * 10 + h) * 10 + l" using v(4) by simp
  have ten: "(k * 10 + d) mod 10 = d" "(k * 10 + d) div 10 = k" if "d \<le> 9" for k d :: nat using that by simp_all
  have "n mod 10 = l" unfolding n using v(2) by (rule ten)
  moreover have "n div 10 = v * 10 + h" unfolding n using v(2) by (rule ten)
  moreover have "n div 100 = n div 10 div 10" by (simp add: div_mult2_eq [symmetric])
  ultimately have "h = n div 10 mod 10 \<and> l = n mod 10 \<and> n div 100 = v" using ten [OF v(1)] by simp
  with v(3) show "h = n div 10 mod 10 \<and> l = n mod 10 \<and> Q (n div 100)" by blast
next
  assume r: "h = n div 10 mod 10 \<and> l = n mod 10 \<and> Q (n div 100)"
  have "n div 100 = n div 10 div 10" by (simp add: div_mult2_eq [symmetric])
  then have "n div 10 = n div 100 * 10 + h" using r div_mult_mod_eq [of "n div 10" 10] by metis
  moreover have "n = n div 10 * 10 + l" using r div_mult_mod_eq [of n 10] by metis
  ultimately have "n = n div 100 * 100 + h * 10 + l" by linarith
  moreover have "h \<le> 9 \<and> l \<le> 9" using r mod_less_divisor [of 10 n] mod_less_divisor [of 10 "n div 10"] by linarith
  ultimately have "h \<le> 9 \<and> l \<le> 9 \<and> n = n div 100 * 100 + h * 10 + l" by blast
  with r show "h \<le> 9 \<and> l \<le> 9 \<and> (\<exists>v. Q v \<and> n = v * 100 + h * 10 + l)" by blast
qed

lemma unat_nibbles:
  "unat (drop_bit 4 b) = unat b div 16" "unat (b AND 0x0F) = unat b mod 16" for b :: u8
proof -
  show "unat (drop_bit 4 b) = unat b div 16" by (simp add: drop_bit_eq_div unat_div)
  have "b AND 0x0F = take_bit 4 b" by (simp add: take_bit_eq_mask mask_eq_exp_minus_1)
  then show "unat (b AND 0x0F) = unat b mod 16" by (simp add: take_bit_eq_mod unat_mod)
qed

lemma bcd_digits_append: "bcd_digits (xs @ ys) acc = rbind (bcd_digits xs acc) (bcd_digits ys)"
  by (induction xs arbitrary: acc) (simp_all add: Let_def)

lemma bcd_digits_one:
  "bcd_digits [b] acc = (if unat b div 16 > 9 \<or> unat b mod 16 > 9 then Inl ''DL/T 645 value contains invalid BCD data''
     else Inr (acc @ [char_of (48 + unat b div 16), char_of (48 + unat b mod 16)]))"
  by (simp add: Let_def word_less_nat_alt unat_nibbles)

lemma bcd_digits_acc: "bcd_digits bs acc = rbind (bcd_digits bs []) (\<lambda>ds. Inr (acc @ ds))"
proof (induction bs arbitrary: acc)
  case Nil
  then show ?case by simp
next
  case (Cons b bs)
  show ?case
    by (simp only: bcd_digits.simps Let_def)
      (subst Cons, subst (2) Cons, auto simp: rbind_def split: sum.splits)
qed

lemma digits_val_pair:
  "h < 10 \<Longrightarrow> l < 10 \<Longrightarrow> digits_val 10 (ds @ [char_of (48 + h), char_of (48 + l)]) 0 =
     map_option (\<lambda>v. v * 100 + h * 10 + l) (digits_val 10 ds 0)"
  by (cases "digits_val 10 ds 0") (simp_all add: digits_val_append digit_char)

text \<open>The digits of a byte string, as a number, determine the bytes.\<close>

lemma bcd_digits_val:
  "(\<exists>ds. bcd_digits (rev bytes) [] = Inr ds \<and> digits_val 10 ds 0 = Some n) \<longleftrightarrow> bytes = bcd_bytes (length bytes) n \<and> n < 100 ^ length bytes"
proof (induction bytes arbitrary: n)
  case Nil
  then show ?case by auto
next
  case (Cons b bytes)
  let ?h = "unat b div 16" and ?l = "unat b mod 16"
  have step: "bcd_digits (rev (b # bytes)) [] = Inr ds \<longleftrightarrow> ?h \<le> 9 \<and> ?l \<le> 9 \<and>
      (\<exists>ds'. bcd_digits (rev bytes) [] = Inr ds' \<and> ds = ds' @ [char_of (48 + ?h), char_of (48 + ?l)])" for ds
    by (auto simp: bcd_digits_append rbind_Inr bcd_digits_one split: if_splits simp del: bcd_digits.simps)
  have b: "of_nat (16 * (m div 10 mod 10) + m mod 10) = b \<longleftrightarrow> ?h = m div 10 mod 10 \<and> ?l = m mod 10" for m
    using mod_less_divisor [of 10 "m div 10"] mod_less_divisor [of 10 m]
    by (subst of_nat_u8_eq, linarith, intro div_mod_16) linarith
  have "(\<exists>ds. bcd_digits (rev (b # bytes)) [] = Inr ds \<and> digits_val 10 ds 0 = Some n) \<longleftrightarrow> ?h \<le> 9 \<and> ?l \<le> 9 \<and>
      (\<exists>v. (\<exists>ds. bcd_digits (rev bytes) [] = Inr ds \<and> digits_val 10 ds 0 = Some v) \<and> n = v * 100 + ?h * 10 + ?l)"
    unfolding step by (auto simp: digits_val_pair)
  also have "\<dots> \<longleftrightarrow> ?h \<le> 9 \<and> ?l \<le> 9 \<and>
      (\<exists>v. bytes = bcd_bytes (length bytes) v \<and> v < 100 ^ length bytes \<and> n = v * 100 + ?h * 10 + ?l)"
    unfolding Cons.IH by blast
  also have "\<dots> \<longleftrightarrow> ?h = n div 10 mod 10 \<and> ?l = n mod 10 \<and> bytes = bcd_bytes (length bytes) (n div 100)
      \<and> n div 100 < 100 ^ length bytes"
    using two_digits [of ?h ?l "\<lambda>v. bytes = bcd_bytes (length bytes) v \<and> v < 100 ^ length bytes" n]
    unfolding conj_assoc .
  also have "\<dots> \<longleftrightarrow> b # bytes = bcd_bytes (length (b # bytes)) n \<and> n < 100 ^ length (b # bytes)"
    using b [of n] by (simp add: div_less_iff_less_mult mult.commute) blast
  finally show ?case .
qed

lemma unat_numeral_u8: "unat (9 :: u8) = 9"
  by simp

lemma bcd_digits_shape:
  "bcd_digits bs acc = Inr ds \<Longrightarrow> \<forall>c \<in> set acc. is_ascii_digit c \<Longrightarrow>
     (\<forall>c \<in> set ds. is_ascii_digit c) \<and> length ds = length acc + 2 * length bs"
proof (induction bs arbitrary: acc)
  case Nil
  then show ?case by simp
next
  case (Cons b bs)
  let ?h = "drop_bit 4 b" and ?l = "b AND 0x0F"
  have ok: "\<not> (?h > 9 \<or> ?l > 9)" using Cons.prems(1) unfolding bcd_digits.simps Let_def by (rule contrapos_pn) (simp only: if_True, simp)
  have rest: "bcd_digits bs (acc @ [char_of (48 + unat ?h), char_of (48 + unat ?l)]) = Inr ds"
    using Cons.prems(1) unfolding bcd_digits.simps Let_def if_not_P [OF ok] .
  have "unat ?h \<le> 9" "unat ?l \<le> 9" using ok by (simp_all only: de_Morgan_disj not_less word_le_nat_alt, simp_all only: unat_numeral_u8)
  then have "is_ascii_digit (char_of (48 + unat ?h))" "is_ascii_digit (char_of (48 + unat ?l))"
    unfolding is_ascii_digit_def by simp_all
  then have "\<forall>c \<in> set (acc @ [char_of (48 + unat ?h), char_of (48 + unat ?l)]). is_ascii_digit c"
    using Cons.prems(2) by (simp only: set_append list.set ball_Un) blast
  from Cons.IH [OF rest this] show ?case by (simp only: length_append list.size) simp
qed

lemma parse_digits:
  assumes "\<forall>c \<in> set ds. is_ascii_digit c" "ds \<noteq> []"
  shows "parse_uint 10 bound ds = Some n \<longleftrightarrow> digits_val 10 ds 0 = Some n \<and> n < bound"
proof -
  have "(case ds of c # cs \<Rightarrow> if c = CHR ''+'' then cs else ds | [] \<Rightarrow> []) = ds"
    using assms by (cases ds) (auto simp: is_ascii_digit_def)
  then show ?thesis using assms(2) by (auto simp: parse_uint_def split: option.splits)
qed

lemma decode_bcd_integer:
  assumes "n < 2 ^ 63"
  shows "decode_bcd_value TyInteger bytes d = Inr (Integer (of_nat n)) \<longleftrightarrow>
    bytes \<noteq> [] \<and> bytes = bcd_bytes (length bytes) n \<and> n < 100 ^ length bytes"
proof (cases "bytes = []")
  case True
  then show ?thesis by (simp add: decode_bcd_value_def)
next
  case False
  have inj: "(of_nat v :: i64) = of_nat n \<longleftrightarrow> v = n" if "v < 2 ^ 63" for v
    using that assms by (auto simp: word_of_nat_eq_iff take_bit_eq_mod)
  have parse: "parse_uint 10 (2 ^ 63) ds = Some v \<longleftrightarrow> digits_val 10 ds 0 = Some v \<and> v < 2 ^ 63"
    if "bcd_digits (rev bytes) [] = Inr ds" for ds v
    using bcd_digits_shape [OF that] False by (intro parse_digits) auto
  have "decode_bcd_value TyInteger bytes d = Inr (Integer (of_nat n)) \<longleftrightarrow>
      (\<exists>ds. bcd_digits (rev bytes) [] = Inr ds \<and> (\<exists>v. parse_uint 10 (2 ^ 63) ds = Some v \<and> of_nat v = (of_nat n :: i64)))"
    using False by (simp add: decode_bcd_value_def rbind_Inr ok_or_Inr)
  also have "\<dots> \<longleftrightarrow> (\<exists>ds. bcd_digits (rev bytes) [] = Inr ds \<and> digits_val 10 ds 0 = Some n)"
    using parse inj assms by blast
  finally show ?thesis unfolding bcd_digits_val using False by blast
qed

text \<open>
  A meter reading is the number its BCD bytes spell, least significant byte first: an integer
  point decodes to \<open>n\<close> exactly when the bytes are the BCD bytes of \<open>n\<close>; every nibble above 9 is refused.
\<close>

theorem dlt645_bcd_roundtrip:
  assumes "n < 2 ^ 63"
  shows "decode_bcd_value TyInteger bytes d = Inr (Integer (of_nat n)) \<longleftrightarrow>
    bytes \<noteq> [] \<and> bytes = bcd_bytes (length bytes) n \<and> n < 100 ^ length bytes"
  using assms by (rule decode_bcd_integer)

lemma bcd_bytes_2: "bcd_bytes 2 n = [of_nat (16 * (n div 10 mod 10) + n mod 10),
    of_nat (16 * (n div 100 div 10 mod 10) + n div 100 mod 10)]"
  by (simp add: numeral_2_eq_2)

theorem dlt645_bcd_roundtrip_witness:
  "decode_bcd_value TyInteger [0x34, 0x12] 0 = Inr (Integer 1234) \<and>
   decode_bcd_value TyInteger [0x34, 0x1A] 0 \<noteq> Inr (Integer 1234)"
  using dlt645_bcd_roundtrip [of 1234 "[0x34, 0x12]" 0] dlt645_bcd_roundtrip [of 1234 "[0x34, 0x1A]" 0]
  by (simp add: bcd_bytes_2)

section \<open>Meter addresses\<close>

lemma digit_byte_bounds:
  assumes "is_ascii_digit c"
  shows "unat (digit_byte c) = of_char c - 48" "unat (digit_byte c) \<le> 9" "char_of (48 + unat (digit_byte c)) = c"
proof -
  have c: "48 \<le> (of_char c :: nat)" "(of_char c :: nat) \<le> 57" using assms by (simp_all add: is_ascii_digit_def Let_def)
  have "(48 :: u8) = of_nat 48" by simp
  then have "digit_byte c = of_nat (of_char c - 48)"
    unfolding digit_byte_def using c(1) by (simp only: of_nat_diff)
  moreover have "unat (of_nat k :: u8) = k" if "k < 256" for k using that by (simp add: unat_of_nat)
  moreover have "of_char c - 48 < (256 :: nat)" using c(2) by simp
  ultimately show u: "unat (digit_byte c) = of_char c - 48" by presburger
  then show "unat (digit_byte c) \<le> 9" "char_of (48 + unat (digit_byte c)) = c" using c by simp_all
qed

lemma unat_pack_nibbles:
  fixes h l :: u8
  assumes "unat h \<le> 9" "unat l \<le> 9"
  shows "unat (push_bit 4 h OR l) = 16 * unat h + unat l"
proof -
  have "\<forall>h \<in> set [0 ..< 10]. \<forall>l \<in> set [0 ..< 10]. unat (push_bit 4 (of_nat h :: u8) OR of_nat l) = 16 * h + l"
    by code_simp
  moreover have "unat h \<in> set [0 ..< 10]" "unat l \<in> set [0 ..< 10]" using assms by auto
  ultimately have "unat (push_bit 4 (of_nat (unat h) :: u8) OR of_nat (unat l)) = 16 * unat h + unat l" by blast
  then show ?thesis by simp
qed

lemma bcd_digits_pair:
  assumes "is_ascii_digit a" "is_ascii_digit b"
  shows "bcd_digits ((push_bit 4 (digit_byte a) OR digit_byte b) # bs) acc = bcd_digits bs (acc @ [a, b])"
proof -
  let ?x = "push_bit 4 (digit_byte a) OR digit_byte b"
  note d = digit_byte_bounds [OF assms(1)] digit_byte_bounds [OF assms(2)]
  have "unat ?x = 16 * unat (digit_byte a) + unat (digit_byte b)" using d by (intro unat_pack_nibbles)
  then have "unat (drop_bit 4 ?x) = unat (digit_byte a)" "unat (?x AND 0x0F) = unat (digit_byte b)"
    unfolding unat_nibbles using d by simp_all
  then show ?thesis using d by (simp add: Let_def word_less_nat_alt not_less)
qed

text \<open>
  The meter address in a frame is the twelve digits of the configured address in BCD: reading
  the encoded bytes back as text gives the digits, so no two meters share an encoded address.
\<close>

theorem dlt645_meter_address_roundtrip:
  assumes "encode_meter_address value = Inr meter"
  shows "length meter = 6 \<and> decode_bcd_value TyText meter 0 = Inr (Text (trim value))"
proof -
  have len: "length (trim value) = 12" and dig: "list_all is_ascii_digit (trim value)"
    and meter: "meter = map (\<lambda>i. push_bit 4 (digit_byte (trim value ! i)) OR digit_byte (trim value ! (i + 1))) [10, 8, 6, 4, 2, 0]"
    using assms by (auto simp: encode_meter_address_def Let_def split: if_splits)
  from len obtain c0 c1 c2 c3 c4 c5 c6 c7 c8 c9 ca cb where ds: "trim value = [c0, c1, c2, c3, c4, c5, c6, c7, c8, c9, ca, cb]"
    by (auto simp: length_Suc_conv numeral_eq_Suc)
  have "bcd_digits (rev meter) [] = Inr (trim value)"
    using dig unfolding meter ds by (simp add: bcd_digits_pair del: bcd_digits.simps(2))
  then show ?thesis by (simp add: decode_bcd_value_def meter)
qed

theorem dlt645_meter_address_roundtrip_witness:
  "encode_meter_address ''123456789012'' = Inr [0x12, 0x90, 0x78, 0x56, 0x34, 0x12] \<and>
   decode_bcd_value TyText [0x12, 0x90, 0x78, 0x56, 0x34, 0x12] 0 = Inr (Text ''123456789012'')"
proof -
  have trim: "trim ''123456789012'' = ''123456789012''" by (rule trim_plain) simp_all
  have "encode_meter_address ''123456789012'' = Inr [0x12, 0x90, 0x78, 0x56, 0x34, 0x12]"
    by (simp add: encode_meter_address_def trim is_ascii_digit_def digit_byte_def)
  with dlt645_meter_address_roundtrip [OF this] show ?thesis by (simp add: trim)
qed

section \<open>Responses\<close>

text \<open>The answer of a meter to a read of a data identifier.\<close>

definition dlt645_response_frame :: "u8 list \<Rightarrow> u32 \<Rightarrow> u8 list \<Rightarrow> u8 list" where
  "dlt645_response_frame meter did payload =
     append_dlt645_checksum ([FRAME_START] @ meter @ [FRAME_START, READ_DATA_RESPONSE, of_nat (4 + length payload)]
       @ map (\<lambda>b. b + DATA_OFFSET) (to_le_bytes32 did @ payload)) @ [FRAME_END]"

lemma frame_split:
  assumes "length f = 12 + n"
  shows "f = [f ! 0] @ take 6 (drop 1 f) @ [f ! 7, f ! 8, f ! 9] @ take n (drop 10 f) @ [f ! (10 + n), f ! (11 + n)]"
proof -
  have "length f = Suc (Suc (Suc (Suc (Suc (Suc (Suc (Suc (Suc (Suc (n + 2))))))))))" using assms by simp
  then obtain a0 a1 a2 a3 a4 a5 a6 a7 a8 a9 rest where
    f: "f = a0 # a1 # a2 # a3 # a4 # a5 # a6 # a7 # a8 # a9 # rest" and rest: "length rest = n + 2"
    by (auto simp only: length_Suc_conv)
  have "drop n rest = [rest ! n, rest ! (n + 1)]"
    using rest by (simp add: Cons_nth_drop_Suc [symmetric])
  then have "rest = take n rest @ [rest ! n, rest ! (n + 1)]" by (metis append_take_drop_id)
  then show ?thesis unfolding f by (simp add: nth_Cons')
qed

lemma not_bit_u8_far: "\<not> bit b (16 + n)" "\<not> bit b (24 + n)" for b :: u8
  using bit_imp_le_length [of b "16 + n"] bit_imp_le_length [of b "24 + n"] by auto

lemma from_le_to_le32_list: "length bs = 4 \<Longrightarrow> to_le_bytes32 (from_le_bytes32 (bs ! 0) (bs ! 1) (bs ! 2) (bs ! 3)) = bs"
proof -
  assume "length bs = 4"
  then obtain a b c d where bs: "bs = [a, b, c, d]" by (auto simp: length_Suc_conv numeral_eq_Suc)
  have "ucast (from_le_bytes32 a b c d) = a" "ucast (drop_bit 8 (from_le_bytes32 a b c d)) = b"
      "ucast (drop_bit 16 (from_le_bytes32 a b c d)) = c" "ucast (drop_bit 24 (from_le_bytes32 a b c d)) = d"
    by (auto intro!: bit_word_eqI simp: from_le_bytes32_def bit_simps not_bit_u8_far)
  then show ?thesis unfolding bs by (simp add: to_le_bytes32_def)
qed

lemma take_length_append: "length xs = k \<Longrightarrow> take k (xs @ ys) = xs"
  by simp

lemma parse_response_facts:
  assumes "parse_read_data_response response meter did = Inr payload"
  obtains start f n where "position (\<lambda>b. b = FRAME_START) response = Some start" "f = drop start response"
    "n = unat (f ! 9)" "length f = 12 + n" "f ! 7 = FRAME_START" "f ! (11 + n) = FRAME_END"
    "dlt645_checksum (take (10 + n) f) = f ! (10 + n)" "take 6 (drop 1 f) = meter" "f ! 8 = READ_DATA_RESPONSE"
    "4 \<le> n" "map (\<lambda>b. b - DATA_OFFSET) (take n (drop 10 f)) = to_le_bytes32 did @ payload"
proof -
  obtain start where start: "position (\<lambda>b. b = FRAME_START) response = Some start"
    using assms by (auto simp: parse_read_data_response_def rbind_Inr ok_or_Inr)
  define f n where "f = drop start response" and "n = unat (f ! 9)"
  define decoded where "decoded = map (\<lambda>b. b - DATA_OFFSET) (take n (drop 10 f))"
  note body = assms [unfolded parse_read_data_response_def start ok_or_simps rbind_simps Let_def,
      folded f_def, folded n_def, folded decoded_def]
  from body have len: "length f = 12 + n" by (simp split: if_splits)
  then have sub: "12 + n - 1 = 11 + n" "12 + n - 2 = 10 + n" by simp_all
  from body have rest: "f ! 7 = FRAME_START" "f ! (11 + n) = FRAME_END" "dlt645_checksum (take (10 + n) f) = f ! (10 + n)"
      "take 6 (drop 1 f) = meter" "f ! 8 = READ_DATA_RESPONSE" and d: "4 \<le> length decoded"
      "from_le_bytes32 (decoded ! 0) (decoded ! 1) (decoded ! 2) (decoded ! 3) = did" "payload = drop 4 decoded"
    by (simp_all only: sub sum.simps refl not_less split: if_splits)
  have n: "length decoded = n" using len by (simp add: decoded_def)
  have "to_le_bytes32 did = take 4 decoded"
    using from_le_to_le32_list [of "take 4 decoded"] d(1) unfolding d(2) [symmetric] by simp
  then have "decoded = to_le_bytes32 did @ payload" unfolding d(3) by simp
  then show thesis using that [OF start f_def n_def len rest(1-5)] d(1) n unfolding decoded_def by simp
qed

lemma parse_response_frame:
  assumes "length meter = 6"
  shows "parse_read_data_response response meter did = Inr payload \<longleftrightarrow>
    (\<exists>pre. FRAME_START \<notin> set pre \<and> response = pre @ dlt645_response_frame meter did payload \<and> length payload \<le> 251)"
proof
  assume "parse_read_data_response response meter did = Inr payload"
  then obtain start f n where start: "position (\<lambda>b. b = FRAME_START) response = Some start" "f = drop start response"
    and f: "n = unat (f ! 9)" "length f = 12 + n" "f ! 7 = FRAME_START" "f ! (11 + n) = FRAME_END"
      "dlt645_checksum (take (10 + n) f) = f ! (10 + n)" "take 6 (drop 1 f) = meter" "f ! 8 = READ_DATA_RESPONSE"
      "4 \<le> n" and dec: "map (\<lambda>b. b - DATA_OFFSET) (take n (drop 10 f)) = to_le_bytes32 did @ payload"
    by (rule parse_response_facts)
  have "map (\<lambda>b. b + DATA_OFFSET) (map (\<lambda>b. b - DATA_OFFSET) (take n (drop 10 f))) = take n (drop 10 f)"
    by (simp add: comp_def)
  then have data: "take n (drop 10 f) = map (\<lambda>b. b + DATA_OFFSET) (to_le_bytes32 did @ payload)" unfolding dec by simp
  have n: "n = 4 + length payload"
    using arg_cong [OF data, of length] f(2) by (simp add: to_le_bytes32_def)
  have f0: "f ! 0 = FRAME_START" using position_Some [OF start(1)] start(2) by simp
  have "f = [f ! 0] @ take 6 (drop 1 f) @ [f ! 7, f ! 8, f ! 9] @ take n (drop 10 f) @ [f ! (10 + n), f ! (11 + n)]"
    using f(2) by (rule frame_split)
  moreover have "f ! 9 = of_nat (4 + length payload)" unfolding n [symmetric] f(1) by simp
  ultimately have split: "f = ([FRAME_START] @ meter @ [FRAME_START, READ_DATA_RESPONSE, of_nat (4 + length payload)]
      @ map (\<lambda>b. b + DATA_OFFSET) (to_le_bytes32 did @ payload)) @ [f ! (10 + n), FRAME_END]"
    unfolding f0 f(3,4,6,7) data by simp
  have "take (10 + n) f = [FRAME_START] @ meter @ [FRAME_START, READ_DATA_RESPONSE, of_nat (4 + length payload)]
      @ map (\<lambda>b. b + DATA_OFFSET) (to_le_bytes32 did @ payload)"
    by (subst split) (rule take_length_append, simp add: n assms to_le_bytes32_def)
  then have "f = dlt645_response_frame meter did payload"
    using split f(5) by (simp add: dlt645_response_frame_def append_dlt645_checksum_def)
  moreover have "response = take start response @ f" using start(2) by simp
  moreover have "FRAME_START \<notin> set (take start response)" using position_Some [OF start(1)] by auto
  moreover have "n < 256" using f(1) unsigned_less [of "f ! 9", where 'a = nat] by simp
  ultimately show "\<exists>pre. FRAME_START \<notin> set pre \<and> response = pre @ dlt645_response_frame meter did payload \<and> length payload \<le> 251"
    using n by auto
next
  assume "\<exists>pre. FRAME_START \<notin> set pre \<and> response = pre @ dlt645_response_frame meter did payload \<and> length payload \<le> 251"
  then obtain pre where pre: "FRAME_START \<notin> set pre" "response = pre @ dlt645_response_frame meter did payload"
      "length payload \<le> 251" by blast
  from assms obtain m0 m1 m2 m3 m4 m5 where m: "meter = [m0, m1, m2, m3, m4, m5]"
    by (auto simp: length_Suc_conv numeral_eq_Suc)
  have "position (\<lambda>b. b = FRAME_START) response = Some (length pre)"
    unfolding pre(2) dlt645_response_frame_def append_dlt645_checksum_def using pre(1)
    by simp (rule position_append_skip, auto)
  moreover have "unat (4 + of_nat (length payload) :: u8) = 4 + length payload"
    using pre(3) unat_of_nat_u8 [of "4 + length payload"] by simp
  ultimately show "parse_read_data_response response meter did = Inr payload"
    using from_le_to_le32
    by (simp add: parse_read_data_response_def pre(2) dlt645_response_frame_def append_dlt645_checksum_def m
        to_le_bytes32_def comp_def Let_def nth_append take_Cons' drop_Cons' nth_Cons')
qed

text \<open>
  A response is accepted exactly when, after bytes that are no frame start (the wake-up
  preamble), it is one complete answer frame of the meter for the data identifier: start bytes,
  address, control code, length, offset data, checksum and end byte. The value is the data of the frame.
\<close>

theorem dlt645_response_accepted:
  assumes "length meter = 6"
  shows "parse_read_data_response response meter did = Inr payload \<longleftrightarrow>
    (\<exists>pre. FRAME_START \<notin> set pre \<and> response = pre @ dlt645_response_frame meter did payload \<and> length payload \<le> 251)"
  using assms by (rule parse_response_frame)

theorem dlt645_response_accepted_witness:
  "parse_read_data_response ([0xFE, 0xFE] @ dlt645_response_frame [1, 2, 3, 4, 5, 6] 0x02010100 [0x05, 0x22]) [1, 2, 3, 4, 5, 6]
     0x02010100 = Inr [0x05, 0x22]"
proof -
  have "\<exists>pre. FRAME_START \<notin> set pre \<and> [0xFE, 0xFE] @ dlt645_response_frame [1, 2, 3, 4, 5, 6] 0x02010100 [0x05, 0x22] =
      pre @ dlt645_response_frame [1, 2, 3, 4, 5, 6] 0x02010100 [0x05, 0x22] \<and> length [0x05, 0x22 :: u8] \<le> 251"
    by (rule exI [of _ "[0xFE, 0xFE]"]) simp
  then show ?thesis using dlt645_response_accepted [of "[1, 2, 3, 4, 5, 6]"] by simp
qed

section \<open>Grouping\<close>

definition group_targets :: "dlt645_read_group list \<Rightarrow> dlt645_read_target list" where
  "group_targets gs = concat (map rg_targets gs)"

definition groups_ok :: "dlt645_read_group list \<Rightarrow> bool" where
  "groups_ok gs = (distinct (map group_key gs) \<and> (\<forall>g \<in> set gs. rg_targets g \<noteq> []))"

lemma add_target_ok:
  assumes "add_target addr e t gs = Inr gs'"
  shows "mset (group_targets gs') = add_mset t (mset (group_targets gs)) \<and>
    set (map group_key gs') = insert (da_meter_address addr, da_data_identifier addr) (set (map group_key gs)) \<and>
    (groups_ok gs \<longrightarrow> groups_ok gs')"
  using assms
proof (induction gs arbitrary: gs')
  case Nil
  then show ?case by (auto simp: group_targets_def groups_ok_def group_key_def)
next
  case (Cons g gs)
  show ?case
  proof (cases "group_key g = (da_meter_address addr, da_data_identifier addr)")
    case True
    then obtain g' where g': "gs' = g' # gs" "rg_targets g' = rg_targets g @ [t]" "group_key g' = group_key g"
      using Cons.prems
      by (auto simp: group_key_def split: option.splits if_splits)
    then show ?thesis using True by (auto simp: group_targets_def groups_ok_def)
  next
    case False
    then obtain gs'' where "add_target addr e t gs = Inr gs''" "gs' = g # gs''"
      using Cons.prems by (auto simp: rbind_Inr)
    then show ?thesis
      using Cons.IH [of gs''] False by (auto simp: group_targets_def groups_ok_def)
  qed
qed

lemma group_mappings_ok:
  assumes "group_mappings gs ms = Inr gs'" "groups_ok gs"
  shows "groups_ok gs' \<and> image_mset rt_mapping (mset (group_targets gs')) =
    mset ms + image_mset rt_mapping (mset (group_targets gs))"
  using assms
proof (induction ms arbitrary: gs)
  case Nil
  then show ?case by simp
next
  case (Cons m ms)
  then obtain gs1 addr e where g1: "group_mapping gs m = Inr gs1" "group_mappings gs1 ms = Inr gs'"
    "add_target addr e \<lparr>rt_mapping = m, rt_decimal_places = da_decimal_places addr\<rparr> gs = Inr gs1"
    by (auto simp: group_mapping_def rbind_Inr split: if_splits)
  from add_target_ok [OF g1(3)] Cons.IH [OF g1(2)] Cons.prems(2) show ?case by simp
qed

text \<open>
  Grouping loses and invents nothing: the targets of the read groups are the mapped points of
  the connection, each once, no group is empty, and no two groups ask one meter for one data identifier.
\<close>

theorem dlt645_read_groups_partition:
  assumes "build_read_groups conn mappings = Inr groups"
  shows "mset (map rt_mapping (group_targets groups)) = mset (filter (\<lambda>m. pm_protocol_connection_id m = conn) mappings)
    \<and> distinct (map group_key groups) \<and> list_all (\<lambda>g. rg_targets g \<noteq> []) groups"
  using group_mappings_ok [of "[]" _ groups] assms
  by (simp add: build_read_groups_def groups_ok_def group_targets_def list_all_iff)

section \<open>Polling\<close>

definition failed_points :: "dlt645_read_failure list \<Rightarrow> nat" where
  "failed_points fs = sum_list (map rf_point_count fs)"

lemma decode_targets_count:
  "length (pp_samples (foldl (decode_target now g bytes) p ts)) + failed_points (pp_failures (foldl (decode_target now g bytes) p ts)) =
     length (pp_samples p) + failed_points (pp_failures p) + length ts
   \<and> pp_successful_groups (foldl (decode_target now g bytes) p ts) = pp_successful_groups p
   \<and> pp_failed_groups (foldl (decode_target now g bytes) p ts) = pp_failed_groups p
   \<and> pp_first_group_error (foldl (decode_target now g bytes) p ts) = pp_first_group_error p"
proof (induction ts arbitrary: p)
  case Nil
  then show ?case by simp
next
  case (Cons t ts)
  let ?q = "decode_target now g bytes p t"
  have "length (pp_samples ?q) + failed_points (pp_failures ?q) = length (pp_samples p) + failed_points (pp_failures p) + 1
      \<and> pp_successful_groups ?q = pp_successful_groups p \<and> pp_failed_groups ?q = pp_failed_groups p
      \<and> pp_first_group_error ?q = pp_first_group_error p"
    by (simp add: decode_target_def failed_points_def group_failure_def split: sum.split)
  then show ?case using Cons [of ?q] by simp
qed

definition poll_inv :: "dlt645_poll \<Rightarrow> nat \<Rightarrow> bool" where
  "poll_inv p n = (length (pp_samples p) + failed_points (pp_failures p) = n \<and>
     (pp_successful_groups p = 0 \<longrightarrow> pp_samples p = []) \<and>
     (pp_failed_groups p > 0 \<longrightarrow> pp_first_group_error p \<noteq> None))"

lemma poll_group_inv:
  "poll_inv p n \<Longrightarrow> poll_inv (fst (poll_group transact now g (p, b))) (n + length (rg_targets g))"
  using decode_targets_count [of now g _ "p\<lparr>pp_successful_groups := pp_successful_groups p + 1\<rparr>" "rg_targets g"]
  by (auto simp: poll_inv_def poll_group_def failed_points_def group_failure_def split: prod.split sum.split option.split)

lemma poll_groups_inv:
  "poll_inv p n \<Longrightarrow> poll_inv (fst (foldl (\<lambda>s g. poll_group transact now g s) (p, b) gs)) (n + length (group_targets gs))"
proof (induction gs arbitrary: p b n)
  case Nil
  then show ?case by (simp add: group_targets_def)
next
  case (Cons g gs)
  obtain p' b' where s: "poll_group transact now g (p, b) = (p', b')" by fastforce
  then have "poll_inv p' (n + length (rg_targets g))" using poll_group_inv [OF Cons.prems] by (metis fst_conv)
  from Cons.IH [OF this, of b'] show ?case by (simp add: s group_targets_def add.assoc)
qed

text \<open>
  No point is lost by a poll: whatever the meters answer, every mapped point of the connection
  is either in the samples or counted by a recorded read failure.
\<close>

theorem dlt645_poll_accounts_points:
  assumes "pc_protocol (dl_connection a) = Dlt645"
    and "build_read_groups (pc_connection_id (dl_connection a)) (dl_mappings a) = Inr groups"
    and "dlt645_read_telemetry transact now (a, b) = (r, a', b')"
  shows "length (case r of Inr samples \<Rightarrow> samples | Inl _ \<Rightarrow> []) + failed_points (dl_read_failures a') =
    length (filter (\<lambda>m. pm_protocol_connection_id m = pc_connection_id (dl_connection a)) (dl_mappings a))"
proof -
  obtain p b'' where p: "foldl (\<lambda>s g. poll_group transact now g s) (poll_new, b) groups = (p, b'')" by fastforce
  have inv: "poll_inv p (length (group_targets groups))"
    using poll_groups_inv [of poll_new 0 transact now b groups] p by (simp add: poll_inv_def poll_new_def failed_points_def)
  have "length (map rt_mapping (group_targets groups)) =
      length (filter (\<lambda>m. pm_protocol_connection_id m = pc_connection_id (dl_connection a)) (dl_mappings a))"
    using group_mappings_ok [of "[]" _ groups] assms(2)
    by (intro mset_eq_length) (simp add: build_read_groups_def groups_ok_def group_targets_def)
  with inv assms(1,2,3) p show ?thesis
    by (auto simp: dlt645_read_telemetry_def Let_def poll_inv_def split: if_splits)
qed

text \<open>Meters whose reply depends on the request alone: what one group reads and yields.\<close>

definition group_reading :: "(u8 list \<Rightarrow> string + u8 list) \<Rightarrow> dlt645_read_group \<Rightarrow> string + u8 list" where
  "group_reading reply g = fst (read_group (\<lambda>b req. (reply req, b)) g ())"

definition group_values ::
  "(u8 list \<Rightarrow> string + u8 list) \<Rightarrow> dlt645_read_group \<Rightarrow> (string \<times> string \<times> telemetry_value) list" where
  "group_values reply g = (case group_reading reply g of
       Inl _ \<Rightarrow> []
     | Inr bytes \<Rightarrow> List.map_filter (\<lambda>t.
         case decode_bcd_value (pm_value_type (rt_mapping t)) bytes (rt_decimal_places t) of
           Inr v \<Rightarrow> Some (pm_device_id (rt_mapping t), pm_point_id (rt_mapping t), v)
         | Inl _ \<Rightarrow> None) (rg_targets g))"

definition sample_content :: "telemetry_sample \<Rightarrow> string \<times> string \<times> telemetry_value" where
  "sample_content s = (ts_device_id s, ts_telemetry_id s, ts_value s)"

lemma read_group_pure: "read_group (\<lambda>b req. (reply req, b)) g b = (group_reading reply g, b)"
  by (auto simp: group_reading_def read_group_def bus_bind_def bus_lift_def bus_send_def bus_return_def split: sum.split)

lemma decode_targets_values:
  "map sample_content (pp_samples (foldl (decode_target now g bytes) p ts)) = map sample_content (pp_samples p) @
     List.map_filter (\<lambda>t. case decode_bcd_value (pm_value_type (rt_mapping t)) bytes (rt_decimal_places t) of
         Inr v \<Rightarrow> Some (pm_device_id (rt_mapping t), pm_point_id (rt_mapping t), v) | Inl _ \<Rightarrow> None) ts"
proof (induction ts arbitrary: p)
  case Nil
  then show ?case by (simp add: List.map_filter_simps)
next
  case (Cons t ts)
  then show ?case
    by (simp add: decode_target_def [of now g bytes p t] List.map_filter_simps sample_content_def sample_new_def
        split: sum.split)
qed

lemma poll_group_pure:
  "\<exists>p'. poll_group (\<lambda>b req. (reply req, b)) now g (p, b) = (p', b) \<and>
     map sample_content (pp_samples p') = map sample_content (pp_samples p) @ group_values reply g \<and>
     pp_successful_groups p' = pp_successful_groups p + (if isl (group_reading reply g) then 0 else 1) \<and>
     pp_failed_groups p' = pp_failed_groups p + (if isl (group_reading reply g) then 1 else 0) \<and>
     pp_first_group_error p' = (if isl (group_reading reply g) \<and> pp_first_group_error p = None
       then Some (projl (group_reading reply g)) else pp_first_group_error p)"
proof (cases "group_reading reply g")
  case (Inl e)
  then show ?thesis
    by (auto simp: poll_group_def read_group_pure group_values_def split: option.split)
next
  case (Inr bytes)
  let ?p = "p\<lparr>pp_successful_groups := pp_successful_groups p + 1\<rparr>"
  show ?thesis
    using decode_targets_values [of now g bytes ?p "rg_targets g"] decode_targets_count [of now g bytes ?p "rg_targets g"]
    by (simp add: poll_group_def read_group_pure group_values_def Inr)
qed

lemma poll_groups_pure:
  "\<exists>p'. foldl (\<lambda>s g. poll_group (\<lambda>b req. (reply req, b)) now g s) (p, b) gs = (p', b) \<and>
     map sample_content (pp_samples p') = map sample_content (pp_samples p) @ concat (map (group_values reply) gs) \<and>
     pp_successful_groups p' = pp_successful_groups p + length (filter (\<lambda>g. \<not> isl (group_reading reply g)) gs) \<and>
     pp_failed_groups p' = pp_failed_groups p + length (filter (\<lambda>g. isl (group_reading reply g)) gs) \<and>
     pp_first_group_error p' = (case pp_first_group_error p of Some e \<Rightarrow> Some e
       | None \<Rightarrow> map_option projl (find isl (map (group_reading reply) gs)))"
proof (induction gs arbitrary: p)
  case Nil
  then show ?case by (simp split: option.split)
next
  case (Cons g gs)
  from poll_group_pure [of reply now g p b] obtain p1 where
    p1: "poll_group (\<lambda>b req. (reply req, b)) now g (p, b) = (p1, b)"
      "map sample_content (pp_samples p1) = map sample_content (pp_samples p) @ group_values reply g"
      "pp_successful_groups p1 = pp_successful_groups p + (if isl (group_reading reply g) then 0 else 1)"
      "pp_failed_groups p1 = pp_failed_groups p + (if isl (group_reading reply g) then 1 else 0)"
      "pp_first_group_error p1 = (if isl (group_reading reply g) \<and> pp_first_group_error p = None
         then Some (projl (group_reading reply g)) else pp_first_group_error p)" by blast
  from Cons [of p1] show ?case by (simp add: p1 split: option.splits if_splits)
qed


section \<open>A poll\<close>

definition meter_mapping :: telemetry_point_mapping where
  "meter_mapping = mapping_new ''energy'' ''meter'' ''energy'' ''dlt''
     \<lparr>pa_kind = ''dlt645_address'', pa_value = ''000000000001:00010000:2'', pa_modbus = None\<rparr> TyInteger"

definition meter_adapter :: dlt645_adapter where
  "meter_adapter = dlt645_adapter_new ((connection_simulated ''dlt'')\<lparr>pc_protocol := Dlt645\<rparr>) [meter_mapping]"

definition meter_group :: dlt645_read_group where
  "meter_group = \<lparr>rg_meter_address = ''000000000001'', rg_data_identifier = 0x00010000,
     rg_expected_value_bytes = Some 4, rg_targets = [\<lparr>rt_mapping = meter_mapping, rt_decimal_places = 2\<rparr>]\<rparr>"

lemma meter_adapter_sel:
  "pc_protocol (dl_connection meter_adapter) = Dlt645" "pc_connection_id (dl_connection meter_adapter) = ''dlt''"
  "dl_mappings meter_adapter = [meter_mapping]"
  by (simp_all add: meter_adapter_def dlt645_adapter_new_def connection_simulated_def)

lemma meter_groups: "build_read_groups ''dlt'' [meter_mapping] = Inr [meter_group]"
proof -
  have trim: "trim ''000000000001'' = ''000000000001''" by (rule trim_plain) simp_all
  have "parse_dlt645_point_address ''000000000001:00010000:2'' =
      Inr \<lparr>da_meter_address = ''000000000001'', da_data_identifier = 0x00010000, da_decimal_places = 2, da_value_bytes = None\<rparr>"
    by (simp add: parse_dlt645_point_address_def trim is_ascii_digit_def strip_prefix_def parse_uint_def parse_u8_def
        digit_val_def dlt645_address_tail_def)
  moreover have "dlt645_template_by_identifier 0x00010000 =
      Some (dlt645_template ''forward_active_energy'' ''electric.energy.active.forward'' ''00010000'' TyFloat 2 4 (Some ''kWh''))"
    by (simp add: dlt645_template_by_identifier_def dlt645_data_identifier_templates_def dlt645_template_def parse_uint_def digit_val_def)
  ultimately show ?thesis
    by (simp add: build_read_groups_def group_mapping_def expected_value_bytes_def meter_group_def meter_mapping_def
        mapping_new_def dlt645_template_def)
qed

theorem dlt645_read_groups_partition_witness:
  "mset (map rt_mapping (group_targets [meter_group])) = mset [meter_mapping]"
  using dlt645_read_groups_partition [OF meter_groups] by (simp add: meter_mapping_def mapping_new_def)

theorem dlt645_poll_accounts_points_witness:
  "failed_points (dl_read_failures (fst (snd (dlt645_read_telemetry (\<lambda>b req. (Inl ''timeout'', b)) (\<lambda>k. 0) (meter_adapter, ()))))) = 1"
proof -
  obtain r a' b' where poll: "dlt645_read_telemetry (\<lambda>b req. (Inl ''timeout'', b)) (\<lambda>k. 0) (meter_adapter, ()) = (r, a', b')"
    by (metis prod_cases3)
  have groups: "build_read_groups (pc_connection_id (dl_connection meter_adapter)) (dl_mappings meter_adapter) = Inr [meter_group]"
    using meter_groups by (simp add: meter_adapter_sel)
  from poll groups have "r = Inl (projl r)"
    by (auto simp: dlt645_read_telemetry_def Let_def meter_adapter_sel poll_group_def read_group_def poll_new_def
        bus_bind_def bus_lift_def bus_send_def split: sum.splits prod.splits if_splits)
  then show ?thesis
    using dlt645_poll_accounts_points [OF meter_adapter_sel(1) groups poll] poll
    by (cases r) (simp_all add: meter_adapter_sel meter_mapping_def mapping_new_def)
qed


end
