(* ===== verification/Iec101.thy ===== *)
theory Iec101
  imports Serial_Bus
begin

text \<open>
  IEC 60870-5-101 (crates/edge-runtime/src/iec101.rs): FT1.2 frames, point reads and control commands
  over an unbalanced link. The adapter's link state (\<open>initialized_link\<close>, \<open>frame_count_bit\<close>) and
  the bus form the state of the operations. The calendar of the chrono crate, the printing of
  floating-point numbers and the debug printing of values are the argument \<open>env\<close>; the clock reading
  for the \<open>i\<close>-th mapping of a poll is \<open>now i\<close>, in nanoseconds.
\<close>

abbreviation VARIABLE_FRAME_START :: u8 where "VARIABLE_FRAME_START \<equiv> 0x68"
abbreviation FIXED_FRAME_START :: u8 where "FIXED_FRAME_START \<equiv> 0x10"
abbreviation FRAME_END_101 :: u8 where "FRAME_END_101 \<equiv> 0x16"
abbreviation SINGLE_CHAR_ACK :: u8 where "SINGLE_CHAR_ACK \<equiv> 0xE5"
abbreviation PRIMARY_RESET_REMOTE_LINK :: u8 where "PRIMARY_RESET_REMOTE_LINK \<equiv> 0x40"
abbreviation PRIMARY_SEND_CONFIRMED_USER_DATA :: u8 where "PRIMARY_SEND_CONFIRMED_USER_DATA \<equiv> 0x53"
abbreviation PRIMARY_REQUEST_CLASS_1_DATA :: u8 where "PRIMARY_REQUEST_CLASS_1_DATA \<equiv> 0x5A"
abbreviation PRIMARY_REQUEST_CLASS_2_DATA :: u8 where "PRIMARY_REQUEST_CLASS_2_DATA \<equiv> 0x5B"
abbreviation C_RD_NA_1 :: u8 where "C_RD_NA_1 \<equiv> 102"
abbreviation COT_REQUEST :: u8 where "COT_REQUEST \<equiv> 5"
abbreviation COT_ACTIVATION :: u8 where "COT_ACTIVATION \<equiv> 6"
abbreviation COT_ACTIVATION_CONFIRMATION :: u8 where "COT_ACTIVATION_CONFIRMATION \<equiv> 7"

record iec_env =
  ie_days :: "int \<Rightarrow> nat \<Rightarrow> nat \<Rightarrow> int option"
  ie_show_f64 :: "f64 \<Rightarrow> string"
  ie_debug_value :: "telemetry_value \<Rightarrow> string"

section \<open>Addresses and command values\<close>

record iec101_point_address =
  ia_link_address :: u8
  ia_common_address :: u16
  ia_information_object_address :: u32

record decoded_iec101_value =
  dv_value :: telemetry_value
  dv_quality :: data_quality
  dv_timestamp :: "timestamp option"

datatype iec101_command_value = Single bool | Double u8 | Setpoint f32

definition iec101_parse_point_address :: "string \<Rightarrow> string \<Rightarrow> string + iec101_point_address" where
  "iec101_parse_point_address kind value =
     (if kind \<noteq> ''iec101_ioa'' then Inl ''IEC 101 adapter supports iec101_ioa addresses''
      else rbind (parse_iec101_point_address value) (\<lambda>(link, ca, ioa).
        Inr \<lparr>ia_link_address = link, ia_common_address = ca, ia_information_object_address = ioa\<rparr>))"

definition f32_max_as_f64 :: f64 where
  "f32_max_as_f64 = f64_of_f32 0x7F7FFFFF"

definition f32_min_as_f64 :: f64 where
  "f32_min_as_f64 = f64_of_f32 0xFF7FFFFF"

definition show_int :: "int \<Rightarrow> string" where
  "show_int n = (if n < 0 then ''-'' @ show_nat (nat (- n)) else show_nat (nat n))"

definition command_value_try_from ::
  "iec_env \<Rightarrow> control_type \<Rightarrow> telemetry_value \<Rightarrow> string + iec101_command_value" where
  "command_value_try_from env ct value = (case (ct, value) of
       (SingleCommand, Boolean v) \<Rightarrow> Inr (Single v)
     | (DoubleCommand, Integer v) \<Rightarrow>
         if v = 1 \<or> v = 2 then Inr (Double (ucast v))
         else Inl (''IEC 101 double command value must be 1 (OFF) or 2 (ON), got '' @ show_int (sint v))
     | (SetpointFloat, Float v) \<Rightarrow>
         if f64_is_finite v \<and> f64_le f32_min_as_f64 v \<and> f64_le v f32_max_as_f64
         then Inr (Setpoint (f32_of_f64 v))
         else Inl (''IEC 101 float setpoint must be a finite f32 value, got '' @ ie_show_f64 env v)
     | _ \<Rightarrow> Inl (''IEC 101 control type '' @ debug_control_type ct @ '' cannot encode telemetry value ''
              @ ie_debug_value env value))"

section \<open>Frames\<close>

definition append_iec101_checksum :: "u8 list \<Rightarrow> nat \<Rightarrow> u8 list" where
  "append_iec101_checksum frame start = frame @ [wrapping_sum (drop start frame)]"

definition build_variable_frame :: "u8 list \<Rightarrow> u8 list" where
  "build_variable_frame body = (let n = of_nat (length body) in
     append_iec101_checksum ([VARIABLE_FRAME_START, n, n, VARIABLE_FRAME_START] @ body) 4 @ [FRAME_END_101])"

definition build_fixed_frame :: "u8 \<Rightarrow> u8 \<Rightarrow> u8 list" where
  "build_fixed_frame control link =
     append_iec101_checksum [FIXED_FRAME_START, control, link] 1 @ [FRAME_END_101]"

definition control_type_id :: "control_type \<Rightarrow> u8" where
  "control_type_id ct = (case ct of SingleCommand \<Rightarrow> 45 | DoubleCommand \<Rightarrow> 46 | SetpointFloat \<Rightarrow> 50)"

definition ioa_bytes :: "u32 \<Rightarrow> u8 list" where
  "ioa_bytes ioa = [ucast ioa, ucast (drop_bit 8 ioa), ucast (drop_bit 16 ioa)]"

definition ioa_of_bytes :: "u8 \<Rightarrow> u8 \<Rightarrow> u8 \<Rightarrow> u32" where
  "ioa_of_bytes a b c = ucast a OR push_bit 8 (ucast b) OR push_bit 16 (ucast c)"

definition command_information :: "control_type \<Rightarrow> iec101_command_value \<Rightarrow> bool \<Rightarrow> string + u8 list" where
  "command_information ct command select =
     (let select_bit = (if select then 0x80 else 0) in
      case (ct, command) of
        (SingleCommand, Single v) \<Rightarrow> Inr [(if v then 1 else 0) OR select_bit]
      | (DoubleCommand, Double v) \<Rightarrow> Inr [v OR select_bit]
      | (SetpointFloat, Setpoint v) \<Rightarrow> Inr (to_le_bytes32 v @ [select_bit])
      | _ \<Rightarrow> Inl ''IEC 101 command value does not match its configured control type'')"

definition build_control_command ::
  "u8 \<Rightarrow> iec101_point_address \<Rightarrow> control_type \<Rightarrow> iec101_command_value \<Rightarrow> bool \<Rightarrow> string + u8 list" where
  "build_control_command control addr ct command select =
     rbind (command_information ct command select) (\<lambda>information.
       Inr (build_variable_frame ([control, ia_link_address addr, control_type_id ct, 1, COT_ACTIVATION, 0]
         @ to_le_bytes16 (ia_common_address addr) @ ioa_bytes (ia_information_object_address addr) @ information)))"

definition build_read_command :: "u8 \<Rightarrow> iec101_point_address \<Rightarrow> u8 list" where
  "build_read_command control addr =
     build_variable_frame ([control, ia_link_address addr, C_RD_NA_1, 1, COT_REQUEST, 0]
       @ to_le_bytes16 (ia_common_address addr) @ ioa_bytes (ia_information_object_address addr))"

definition contains_variable_frame :: "u8 list \<Rightarrow> bool" where
  "contains_variable_frame response = (VARIABLE_FRAME_START \<in> set response)"

definition validate_link_ack :: "u8 list \<Rightarrow> u8 \<Rightarrow> string + unit" where
  "validate_link_ack response link =
     (if response = [SINGLE_CHAR_ACK] then Inr ()
      else rbind (ok_or ''IEC 101 response is not a link acknowledgement''
                   (position (\<lambda>b. b = FIXED_FRAME_START) response)) (\<lambda>start.
        rbind (ok_or ''IEC 101 fixed frame is truncated'' (slice_get response start (start + 5))) (\<lambda>frame.
          if frame ! 4 \<noteq> FRAME_END_101 then Inl ''IEC 101 fixed frame has an invalid end byte''
          else if frame ! 2 \<noteq> link then Inl ''IEC 101 fixed frame link address does not match request''
          else if frame ! 3 \<noteq> frame ! 1 + frame ! 2 then Inl ''IEC 101 fixed frame checksum mismatch''
          else Inr ())))"

definition parse_variable_frame :: "u8 list \<Rightarrow> string + u8 list" where
  "parse_variable_frame response =
     rbind (ok_or ''IEC 101 response has no variable frame'' (position (\<lambda>b. b = VARIABLE_FRAME_START) response)) (\<lambda>start.
     rbind (ok_or ''IEC 101 variable frame header is truncated'' (slice_get response start (start + 4))) (\<lambda>header.
       if header ! 1 \<noteq> header ! 2 \<or> header ! 3 \<noteq> VARIABLE_FRAME_START
       then Inl ''IEC 101 variable frame length header is invalid''
       else
         let body_len = unat (header ! 1); frame_len = body_len + 6 in
         rbind (ok_or ''IEC 101 variable frame is truncated'' (slice_get response start (start + frame_len))) (\<lambda>frame.
           if frame ! (frame_len - 1) \<noteq> FRAME_END_101 then Inl ''IEC 101 variable frame has an invalid end byte''
           else
             let body = take body_len (drop 4 frame) in
             if wrapping_sum body \<noteq> frame ! (frame_len - 2) then Inl ''IEC 101 variable frame checksum mismatch''
             else Inr body)))"

definition parse_command_confirmation ::
  "u8 list \<Rightarrow> iec101_point_address \<Rightarrow> control_type \<Rightarrow> string \<Rightarrow> string + unit" where
  "parse_command_confirmation response expected ct phase =
     rbind (parse_variable_frame response) (\<lambda>body.
       if length body < 11 then Inl (''IEC 101 '' @ phase @ '' confirmation ASDU is too short'')
       else if body ! 1 \<noteq> ia_link_address expected
       then Inl (''IEC 101 '' @ phase @ '' confirmation link address does not match request'')
       else
         let asdu = drop 2 body in
         if asdu ! 0 \<noteq> control_type_id ct then Inl (''IEC 101 '' @ phase @ '' confirmation type does not match request'')
         else if asdu ! 1 AND 0x7F \<noteq> 1 \<or> asdu ! 1 AND 0x80 \<noteq> 0
         then Inl (''IEC 101 '' @ phase @ '' confirmation must contain one explicit information object'')
         else if asdu ! 2 AND 0x3F \<noteq> COT_ACTIVATION_CONFIRMATION
         then Inl (''IEC 101 '' @ phase @ '' confirmation cause is not activation confirmation'')
         else if asdu ! 2 AND 0x40 \<noteq> 0 then Inl (''IEC 101 '' @ phase @ '' command was rejected by the station'')
         else if from_le_bytes16 (asdu ! 4) (asdu ! 5) \<noteq> ia_common_address expected
         then Inl (''IEC 101 '' @ phase @ '' confirmation common address does not match request'')
         else if ioa_of_bytes (asdu ! 6) (asdu ! 7) (asdu ! 8) \<noteq> ia_information_object_address expected
         then Inl (''IEC 101 '' @ phase @ '' confirmation information object address does not match request'')
         else Inr ())"

section \<open>Values and time tags\<close>

definition iec101_quality :: "u8 \<Rightarrow> data_quality" where
  "iec101_quality descriptor =
     (if descriptor AND 0x80 \<noteq> 0 then QBad else if descriptor AND 0x70 \<noteq> 0 then QUncertain else QGood)"

definition iec101_coerce_value :: "iec_env \<Rightarrow> telemetry_value \<Rightarrow> telemetry_type \<Rightarrow> string + telemetry_value" where
  "iec101_coerce_value env value ty = (case (value, ty) of
       (Float v, TyFloat) \<Rightarrow> Inr (Float v)
     | (Integer v, TyInteger) \<Rightarrow> Inr (Integer v)
     | (Boolean v, TyBoolean) \<Rightarrow> Inr (Boolean v)
     | (Text v, TyText) \<Rightarrow> Inr (Text v)
     | (Integer v, TyFloat) \<Rightarrow> Inr (Float (f64_of_int (sint v)))
     | (Boolean v, TyInteger) \<Rightarrow> Inr (Integer (if v then 1 else 0))
     | (Boolean v, TyFloat) \<Rightarrow> Inr (Float (if v then f64_one else f64_zero))
     | (Integer v, TyBoolean) \<Rightarrow> Inr (Boolean (v \<noteq> 0))
     | (Float v, TyBoolean) \<Rightarrow> Inr (Boolean (\<not> f64_eq v f64_zero))
     | (Float v, TyInteger) \<Rightarrow> Inr (Integer (word_of_int (f64_as_int (- (2 ^ 63)) (2 ^ 63 - 1) v)))
     | (Float v, TyText) \<Rightarrow> Inr (Text (ie_show_f64 env v))
     | (Integer v, TyText) \<Rightarrow> Inr (Text (show_int (sint v)))
     | (Boolean v, TyText) \<Rightarrow> Inr (Text (if v then ''true'' else ''false''))
     | (Text v, _) \<Rightarrow> Inl ''IEC 101 text value cannot be coerced to numeric type'')"

abbreviation NS_PER_HOUR :: int where "NS_PER_HOUR \<equiv> 3600000000000"

text \<open>\<open>num_milliseconds\<close> truncates towards zero, so its absolute value is the floor of the absolute value.\<close>

definition abs_millis :: "int \<Rightarrow> int" where
  "abs_millis d = \<bar>d\<bar> div 1000000"

text \<open>\<open>min_by_key\<close>: the first of the least.\<close>

fun min_by_key :: "('a \<Rightarrow> int) \<Rightarrow> 'a list \<Rightarrow> 'a option" where
  "min_by_key k [] = None"
| "min_by_key k (x # xs) = (case min_by_key k xs of None \<Rightarrow> Some x | Some y \<Rightarrow> Some (if k x \<le> k y then x else y))"

definition parse_cp24_time2a :: "timestamp \<Rightarrow> u8 list \<Rightarrow> string + timestamp option" where
  "parse_cp24_time2a observed bytes =
     (if length bytes \<noteq> 3 then Inl ''IEC 101 CP24Time2a must contain 3 bytes''
      else if bytes ! 2 AND 0x80 \<noteq> 0 then Inr None
      else
        let milliseconds = uint (from_le_bytes16 (bytes ! 0) (bytes ! 1)); minute = uint (bytes ! 2 AND 0x3F) in
        if milliseconds \<ge> 60000 \<or> minute \<ge> 60 then Inl ''IEC 101 CP24Time2a contains an invalid clock value''
        else
          let second = milliseconds div 1000; nanosecond = milliseconds mod 1000 * 1000000;
              candidate = observed div NS_PER_HOUR * NS_PER_HOUR + (minute * 60 + second) * 1000000000 + nanosecond
          in Inr (min_by_key (\<lambda>v. abs_millis (v - observed)) [candidate - NS_PER_HOUR, candidate, candidate + NS_PER_HOUR]))"

definition parse_cp56_time2a :: "iec_env \<Rightarrow> u8 list \<Rightarrow> i16 \<Rightarrow> string + timestamp option" where
  "parse_cp56_time2a env bytes offset =
     (if length bytes \<noteq> 7 then Inl ''IEC 101 CP56Time2a must contain 7 bytes''
      else if bytes ! 2 AND 0x80 \<noteq> 0 then Inr None
      else
        let milliseconds = uint (from_le_bytes16 (bytes ! 0) (bytes ! 1)); minute = uint (bytes ! 2 AND 0x3F);
            hour = uint (bytes ! 3 AND 0x1F); day = unat (bytes ! 4 AND 0x1F); month = unat (bytes ! 5 AND 0x0F);
            year = 2000 + uint (bytes ! 6 AND 0x7F) in
        if milliseconds \<ge> 60000 \<or> minute \<ge> 60 \<or> hour \<ge> 24 then Inl ''IEC 101 CP56Time2a contains an invalid clock value''
        else
          let second = milliseconds div 1000; offset_seconds = sint offset * 60 in
          if \<not> (- 86400 < offset_seconds \<and> offset_seconds < 86400)
          then Inl ''IEC 101 CP56Time2a timezone offset is invalid''
          else rbind (ok_or ''IEC 101 CP56Time2a contains an invalid date'' (ie_days env year month day)) (\<lambda>days.
            Inr (Some ((days * 86400 + hour * 3600 + minute * 60 + second - offset_seconds) * 1000000000
                         + milliseconds mod 1000 * 1000000))))"

definition element_layout :: "u8 \<Rightarrow> (u8 \<times> nat) option" where
  "element_layout type_id =
     (if type_id \<in> {1, 3, 9, 11, 13} then Some (type_id, 0)
      else if type_id = 2 then Some (1, 3) else if type_id = 4 then Some (3, 3)
      else if type_id = 10 then Some (9, 3) else if type_id = 12 then Some (11, 3)
      else if type_id = 14 then Some (13, 3) else if type_id = 30 then Some (1, 7)
      else if type_id = 31 then Some (3, 7) else if type_id = 34 then Some (9, 7)
      else if type_id = 35 then Some (11, 7) else if type_id = 36 then Some (13, 7) else None)"

definition decode_element :: "u8 \<Rightarrow> u8 \<Rightarrow> u8 list \<Rightarrow> string + telemetry_value \<times> data_quality \<times> nat" where
  "decode_element type_id base bytes =
     (if base = 1 then
        rbind (ok_or ''IEC 101 single-point value is missing'' (case bytes of [] \<Rightarrow> None | b # _ \<Rightarrow> Some b)) (\<lambda>siq.
          Inr (Boolean (siq AND 0x01 \<noteq> 0), iec101_quality siq, 1))
      else if base = 3 then
        rbind (ok_or ''IEC 101 double-point value is missing'' (case bytes of [] \<Rightarrow> None | b # _ \<Rightarrow> Some b)) (\<lambda>diq.
          Inr (Integer (ucast (diq AND 0x03)), iec101_quality diq, 1))
      else if base = 9 \<or> base = 11 then
        (if length bytes < 3 then Inl ''IEC 101 measured value is truncated''
         else
           let v = sint (from_le_bytes16 (bytes ! 0) (bytes ! 1)) in
           Inr (if type_id = 9 then Float (f64_div (f64_of_int v) (f64_of_int 32767)) else Integer (word_of_int v),
                iec101_quality (bytes ! 2), 3))
      else if length bytes < 5 then Inl ''IEC 101 short floating-point value is truncated''
      else Inr (Float (f64_of_f32 (from_le_bytes32 (bytes ! 0) (bytes ! 1) (bytes ! 2) (bytes ! 3))),
                iec101_quality (bytes ! 4), 5))"

definition decode_information_element ::
  "iec_env \<Rightarrow> timestamp \<Rightarrow> u8 \<Rightarrow> u8 list \<Rightarrow> telemetry_type \<Rightarrow> i16 \<Rightarrow> string + decoded_iec101_value" where
  "decode_information_element env observed type_id bytes ty offset =
     rbind (ok_or (''unsupported IEC 101 monitoring type id: '' @ show_nat (unat type_id)) (element_layout type_id)) (\<lambda>(base, time_size).
     rbind (decode_element type_id base bytes) (\<lambda>(raw, q, value_size).
       if length bytes < value_size + time_size then Inl ''IEC 101 time-tagged information element is truncated''
       else
         let tag = take time_size (drop value_size bytes) in
         rbind (if time_size = 0 then Inr None
                else if time_size = 3 then parse_cp24_time2a observed tag
                else parse_cp56_time2a env tag offset) (\<lambda>timestamp.
         rbind (iec101_coerce_value env raw ty) (\<lambda>v.
           Inr \<lparr>dv_value = v,
                dv_quality = (if time_size > 0 \<and> timestamp = None \<and> q = QGood then QUncertain else q),
                dv_timestamp = timestamp\<rparr>))))"

definition iec101_parse_read_response ::
  "iec_env \<Rightarrow> timestamp \<Rightarrow> u8 list \<Rightarrow> iec101_point_address \<Rightarrow> telemetry_type \<Rightarrow> i16 \<Rightarrow> string + decoded_iec101_value" where
  "iec101_parse_read_response env observed response expected ty offset =
     rbind (parse_variable_frame response) (\<lambda>body.
       if length body < 11 then Inl ''IEC 101 response ASDU is too short''
       else if body ! 1 \<noteq> ia_link_address expected then Inl ''IEC 101 response link address does not match request''
       else
         let asdu = drop 2 body in
         if asdu ! 1 AND 0x7F \<noteq> 1 \<or> asdu ! 1 AND 0x80 \<noteq> 0
         then Inl ''IEC 101 point read response must contain one explicit information object''
         else if asdu ! 2 AND 0x3F \<noteq> COT_REQUEST then Inl ''IEC 101 response cause of transmission is not request''
         else if from_le_bytes16 (asdu ! 4) (asdu ! 5) \<noteq> ia_common_address expected
         then Inl ''IEC 101 response common address does not match request''
         else if ioa_of_bytes (asdu ! 6) (asdu ! 7) (asdu ! 8) \<noteq> ia_information_object_address expected
         then Inl ''IEC 101 response information object address does not match request''
         else decode_information_element env observed (asdu ! 0) (drop 9 asdu) ty offset)"

section \<open>The adapter\<close>

record iec101_adapter =
  ad_connection :: protocol_connection
  ad_mappings :: "telemetry_point_mapping list"
  ad_initialized_link :: "u8 option"
  ad_frame_count_bit :: bool

definition iec101_adapter_new :: "protocol_connection \<Rightarrow> telemetry_point_mapping list \<Rightarrow> iec101_adapter" where
  "iec101_adapter_new c ms = \<lparr>ad_connection = c, ad_mappings = ms, ad_initialized_link = None, ad_frame_count_bit = False\<rparr>"

type_synonym ('a, 'b) link_op = "('a, iec101_adapter \<times> 'b) bus_op"

definition link_send :: "'b transact \<Rightarrow> u8 list \<Rightarrow> (u8 list, 'b) link_op" where
  "link_send transact request = (\<lambda>(a, b). case transact b request of (r, b') \<Rightarrow> (r, (a, b')))"

definition link_get :: "(iec101_adapter, 'b) link_op" where
  "link_get = (\<lambda>(a, b). (Inr a, (a, b)))"

definition link_modify :: "(iec101_adapter \<Rightarrow> iec101_adapter) \<Rightarrow> (unit, 'b) link_op" where
  "link_modify f = (\<lambda>(a, b). (Inr (), (f a, b)))"

definition link_context :: "string \<Rightarrow> ('a, 'b) link_op \<Rightarrow> ('a, 'b) link_op" where
  "link_context msg m s = (case m s of (r, s') \<Rightarrow> (map_err (\<lambda>_. msg) r, s'))"

definition primary_control :: "iec101_adapter \<Rightarrow> u8 \<Rightarrow> u8" where
  "primary_control a function = (if ad_frame_count_bit a then function OR 0x20 else function)"

definition toggle_fcb :: "iec101_adapter \<Rightarrow> iec101_adapter" where
  "toggle_fcb a = a\<lparr>ad_frame_count_bit := \<not> ad_frame_count_bit a\<rparr>"

definition ensure_link_initialized :: "'b transact \<Rightarrow> u8 \<Rightarrow> (unit, 'b) link_op" where
  "ensure_link_initialized transact link =
     bus_bind link_get (\<lambda>a.
       if ad_initialized_link a = Some link then bus_return ()
       else bus_bind (link_send transact (build_fixed_frame PRIMARY_RESET_REMOTE_LINK link)) (\<lambda>response.
         bus_bind (bus_lift (map_err (\<lambda>_. ''IEC 101 remote link reset was not acknowledged'')
                     (validate_link_ack response link))) (\<lambda>_.
           link_modify (\<lambda>a. a\<lparr>ad_initialized_link := Some link, ad_frame_count_bit := False\<rparr>))))"

definition read_exchange :: "'b transact \<Rightarrow> iec101_point_address \<Rightarrow> (u8 list, 'b) link_op" where
  "read_exchange transact addr =
     bus_bind link_get (\<lambda>a.
     bus_bind (link_send transact (build_read_command (primary_control a PRIMARY_SEND_CONFIRMED_USER_DATA) addr)) (\<lambda>response.
     bus_bind (link_modify toggle_fcb) (\<lambda>_.
       if contains_variable_frame response then bus_return response
       else bus_bind (bus_lift (validate_link_ack response (ia_link_address addr))) (\<lambda>_.
         bus_bind link_get (\<lambda>a'.
         bus_bind (link_send transact (build_fixed_frame (primary_control a' PRIMARY_REQUEST_CLASS_2_DATA) (ia_link_address addr))) (\<lambda>class_2.
           if \<not> contains_variable_frame class_2
           then bus_lift (Inl ''IEC 101 class 2 response contains no ASDU data'')
           else bus_return class_2))))))"

definition cp56_offset :: "iec101_adapter \<Rightarrow> i16" where
  "cp56_offset a = (case pc_iec101 (ad_connection a) of Some s \<Rightarrow> i1_cp56_timezone_offset_minutes s | None \<Rightarrow> 0)"

definition read_mapping ::
  "iec_env \<Rightarrow> timestamp \<Rightarrow> 'b transact \<Rightarrow> telemetry_point_mapping \<Rightarrow> (telemetry_sample, 'b) link_op" where
  "read_mapping env observed transact m =
     bus_bind (bus_lift (map_err (\<lambda>_. ''invalid point address for '' @ pm_point_id m)
         (iec101_parse_point_address (pa_kind (pm_address m)) (pa_value (pm_address m))))) (\<lambda>addr.
     bus_bind (ensure_link_initialized transact (ia_link_address addr)) (\<lambda>_.
     bus_bind (read_exchange transact addr) (\<lambda>response.
     bus_bind link_get (\<lambda>a.
     bus_bind (bus_lift (iec101_parse_read_response env observed response addr (pm_value_type m) (cp56_offset a))) (\<lambda>decoded.
       bus_return (sample_new (pm_device_id m) (pm_point_id m) (dv_value decoded) (dv_quality decoded)
         (case dv_timestamp decoded of Some t \<Rightarrow> t | None \<Rightarrow> observed)))))))"

fun read_mappings ::
  "iec_env \<Rightarrow> (nat \<Rightarrow> timestamp) \<Rightarrow> 'b transact \<Rightarrow> nat \<Rightarrow> telemetry_point_mapping list \<Rightarrow> (telemetry_sample list, 'b) link_op" where
  "read_mappings env now transact i [] = bus_return []"
| "read_mappings env now transact i (m # ms) =
     bus_bind (read_mapping env (now i) transact m) (\<lambda>s.
     bus_bind (read_mappings env now transact (Suc i) ms) (\<lambda>ss. bus_return (s # ss)))"

definition iec101_read_telemetry ::
  "iec_env \<Rightarrow> (nat \<Rightarrow> timestamp) \<Rightarrow> 'b transact \<Rightarrow> (telemetry_sample list, 'b) link_op" where
  "iec101_read_telemetry env now transact =
     bus_bind link_get (\<lambda>a.
       if pc_protocol (ad_connection a) \<noteq> Iec101 then bus_lift (Inl ''IEC 101 adapter requires an Iec101 protocol connection'')
       else read_mappings env now transact 0
         (filter (\<lambda>m. pm_protocol_connection_id m = pc_connection_id (ad_connection a)) (ad_mappings a)))"

definition send_command ::
  "'b transact \<Rightarrow> iec101_point_address \<Rightarrow> control_type \<Rightarrow> iec101_command_value \<Rightarrow> bool \<Rightarrow> string \<Rightarrow> (unit, 'b) link_op" where
  "send_command transact addr ct command select phase =
     bus_bind link_get (\<lambda>a.
     bus_bind (bus_lift (build_control_command (primary_control a PRIMARY_SEND_CONFIRMED_USER_DATA) addr ct command select)) (\<lambda>request.
     bus_bind (link_context (''IEC 101 '' @ phase @ '' command transport failed'') (link_send transact request)) (\<lambda>response.
     bus_bind (link_modify toggle_fcb) (\<lambda>_.
     bus_bind
       (if contains_variable_frame response then bus_return response
        else bus_bind (bus_lift (map_err (\<lambda>_. ''IEC 101 '' @ phase @ '' command was not acknowledged'')
               (validate_link_ack response (ia_link_address addr)))) (\<lambda>_.
          bus_bind link_get (\<lambda>a'.
          bus_bind (link_context (''IEC 101 '' @ phase @ '' confirmation poll failed'')
              (link_send transact (build_fixed_frame (primary_control a' PRIMARY_REQUEST_CLASS_1_DATA) (ia_link_address addr)))) (\<lambda>poll.
            if \<not> contains_variable_frame poll
            then bus_lift (Inl (''IEC 101 '' @ phase @ '' confirmation contains no ASDU data''))
            else bus_return poll)))) (\<lambda>confirmation.
       bus_lift (parse_command_confirmation confirmation addr ct phase))))))"

definition iec101_check_write :: "iec_env \<Rightarrow> iec101_adapter \<Rightarrow> telemetry_point_mapping \<Rightarrow> telemetry_value \<Rightarrow>
    string + iec101_point_address \<times> iec_point_options \<times> iec101_command_value" where
  "iec101_check_write env a m value =
     (if pc_protocol (ad_connection a) \<noteq> Iec101 then Inl ''IEC 101 adapter requires an Iec101 protocol connection''
      else if pm_protocol_connection_id m \<noteq> pc_connection_id (ad_connection a)
      then Inl (''IEC 101 point '' @ pm_point_id m @ '' references connection '' @ pm_protocol_connection_id m
             @ '' instead of '' @ pc_connection_id (ad_connection a))
      else if \<not> is_writable (pm_access m) then Inl (''IEC 101 point '' @ pm_point_id m @ '' is read-only'')
      else rbind (validate_iec101_point (pm_address m) (pm_value_type m) (pm_access m) (pm_iec101 m)) (\<lambda>_.
        rbind (map_err (\<lambda>_. ''invalid IEC 101 address for point '' @ pm_point_id m)
          (iec101_parse_point_address (pa_kind (pm_address m)) (pa_value (pm_address m)))) (\<lambda>addr.
        rbind (ok_or ''writable IEC 101 point is missing control options'' (pm_iec101 m)) (\<lambda>options.
        rbind (command_value_try_from env (io_control_type options) value) (\<lambda>command.
          Inr (addr, options, command))))))"

definition iec101_write_point ::
  "iec_env \<Rightarrow> 'b transact \<Rightarrow> telemetry_point_mapping \<Rightarrow> telemetry_value \<Rightarrow> (protocol_write_result, 'b) link_op" where
  "iec101_write_point env transact m value =
     bus_bind link_get (\<lambda>a.
     bus_bind (bus_lift (iec101_check_write env a m value)) (\<lambda>(addr, options, command).
     bus_bind (ensure_link_initialized transact (ia_link_address addr)) (\<lambda>_.
     bus_bind (if io_select_before_operate options
               then send_command transact addr (io_control_type options) command True ''select'' else bus_return ()) (\<lambda>_.
     bus_bind (send_command transact addr (io_control_type options) command False ''execute'') (\<lambda>_.
       bus_return \<lparr>wr_point_id = pm_point_id m, wr_value = value, wr_verified = True, wr_readback_value = None\<rparr>)))))"

section \<open>Frames are recognised\<close>

lemma slice_get_Some: "slice_get xs i j = Some ys \<longleftrightarrow> i \<le> j \<and> j \<le> length xs \<and> ys = take (j - i) (drop i xs)"
  by (auto simp: slice_get_def)

lemma variable_frame_shape:
  "build_variable_frame body = [VARIABLE_FRAME_START, of_nat (length body), of_nat (length body), VARIABLE_FRAME_START]
     @ body @ [wrapping_sum body, FRAME_END_101]"
  by (simp add: build_variable_frame_def append_iec101_checksum_def Let_def)

lemma variable_frame_split:
  assumes "length f = n + 6"
  shows "f = [f ! 0, f ! 1, f ! 2, f ! 3] @ take n (drop 4 f) @ [f ! (n + 4), f ! (n + 5)]"
proof -
  have "length f = Suc (Suc (Suc (Suc (n + 2))))" using assms by simp
  then obtain a b c d rest where f: "f = a # b # c # d # rest" and rest: "length rest = n + 2"
    by (auto simp only: length_Suc_conv)
  have "drop n rest = [rest ! n, rest ! (n + 1)]" using rest by (simp add: Cons_nth_drop_Suc [symmetric])
  then have "rest = take n rest @ [rest ! n, rest ! (n + 1)]" by (metis append_take_drop_id)
  then show ?thesis unfolding f by (simp add: nth_Cons')
qed

lemma parse_variable_frame_iff:
  "parse_variable_frame response = Inr body \<longleftrightarrow>
     (\<exists>pre post. VARIABLE_FRAME_START \<notin> set pre \<and> response = pre @ build_variable_frame body @ post \<and> length body \<le> 255)"
proof
  assume h: "parse_variable_frame response = Inr body"
  obtain start where start: "position (\<lambda>b. b = VARIABLE_FRAME_START) response = Some start"
    using h by (auto simp: parse_variable_frame_def rbind_Inr ok_or_Inr)
  define r where "r = drop start response"
  obtain header where header: "header = take 4 r" "start + 4 \<le> length response"
    "header ! 1 = header ! 2" "header ! 3 = VARIABLE_FRAME_START"
    using h by (auto simp: parse_variable_frame_def start rbind_Inr ok_or_Inr slice_get_Some r_def split: if_splits)
  define n where "n = unat (header ! 1)"
  define f where "f = take (n + 6) r"
  have s4: "slice_get response start (start + 4) = Some header" using header(1,2) by (simp add: slice_get_def r_def)
  have "\<not> (header ! 1 \<noteq> header ! 2 \<or> header ! 3 \<noteq> VARIABLE_FRAME_START)" using header(3,4) by simp
  note h' = h [unfolded parse_variable_frame_def start ok_or_simps rbind_simps s4 if_not_P [OF this] Let_def, folded n_def]
  have f: "start + (n + 6) \<le> length response" "f ! (n + 5) = FRAME_END_101" "body = take n (drop 4 f)"
    "wrapping_sum body = f ! (n + 4)"
    using h' by (auto simp: rbind_Inr ok_or_Inr slice_get_Some r_def f_def add.commute split: if_splits)
  have len: "length f = n + 6" using f(1) by (simp add: f_def r_def)
  have hd: "f ! i = header ! i" if "i < 4" for i using that by (simp add: f_def header(1))
  have f0: "f ! 0 = VARIABLE_FRAME_START"
    using position_Some [OF start] header(2) by (simp add: f_def r_def)
  have n: "length body = n" "n \<le> 255" using len f(3) unsigned_less [of "header ! 1", where 'a = nat] by (auto simp: n_def)
  have cnt: "header ! 1 = of_nat (length body)" unfolding n(1) n_def by simp
  have "f = [f ! 0, f ! 1, f ! 2, f ! 3] @ take n (drop 4 f) @ [f ! (n + 4), f ! (n + 5)]"
    using len by (rule variable_frame_split)
  also have "\<dots> = build_variable_frame body"
    unfolding variable_frame_shape f0 f(2) f(3) [symmetric] f(4) [symmetric]
    using hd [of 1] hd [of 2] hd [of 3] header(3,4) cnt by simp
  finally have "response = take start response @ build_variable_frame body @ drop (n + 6) r"
    unfolding f_def r_def by (metis append_take_drop_id)
  moreover have "VARIABLE_FRAME_START \<notin> set (take start response)" using position_Some [OF start] by auto
  ultimately show "\<exists>pre post. VARIABLE_FRAME_START \<notin> set pre \<and> response = pre @ build_variable_frame body @ post \<and> length body \<le> 255"
    using n by blast
next
  assume "\<exists>pre post. VARIABLE_FRAME_START \<notin> set pre \<and> response = pre @ build_variable_frame body @ post \<and> length body \<le> 255"
  then obtain pre post where pre: "VARIABLE_FRAME_START \<notin> set pre" "response = pre @ build_variable_frame body @ post"
    "length body \<le> 255" by blast
  have "position (\<lambda>b. b = VARIABLE_FRAME_START) response = Some (length pre)"
    unfolding pre(2) variable_frame_shape using pre(1) by simp (rule position_append_skip, auto)
  moreover have "unat (of_nat (length body) :: u8) = length body" using pre(3) by (simp add: unat_of_nat)
  ultimately show "parse_variable_frame response = Inr body"
    by (simp add: parse_variable_frame_def pre(2) variable_frame_shape slice_get_def Let_def nth_append take_Cons' nth_Cons')
qed

text \<open>
  A variable frame is accepted exactly when, after bytes that are no start byte, the response holds a
  complete FT1.2 frame of the body: both length bytes, both start bytes, the checksum and the end byte.
\<close>

theorem iec101_variable_frame_accepted:
  "parse_variable_frame response = Inr body \<longleftrightarrow>
     (\<exists>pre post. VARIABLE_FRAME_START \<notin> set pre \<and> response = pre @ build_variable_frame body @ post \<and> length body \<le> 255)"
  by (rule parse_variable_frame_iff)

text \<open>
  The acknowledgement of a station with link address 0x68 is taken for data: the fixed frame is a
  valid acknowledgement but contains the start byte of a variable frame, so it is never validated as
  an acknowledgement and is refused as data.
\<close>

theorem iec101_ack_of_link_68_misread:
  "validate_link_ack (build_fixed_frame control 0x68) 0x68 = Inr () \<and>
   contains_variable_frame (build_fixed_frame control 0x68) \<and>
   isl (parse_variable_frame (build_fixed_frame control 0x68))"
proof -
  have frame: "build_fixed_frame control 0x68 = [0x10, control, 0x68, control + 0x68, 0x16]"
    by (simp add: build_fixed_frame_def append_iec101_checksum_def)
  show ?thesis
    unfolding frame
    by (cases "control = 0x68")
      (auto simp: validate_link_ack_def contains_variable_frame_def parse_variable_frame_def slice_get_def)
qed

section \<open>Time tags\<close>

lemma min_by_key_least:
  "xs \<noteq> [] \<Longrightarrow> \<exists>y. min_by_key k xs = Some y \<and> y \<in> set xs \<and> (\<forall>x \<in> set xs. k y \<le> k x)"
proof (induction xs)
  case Nil
  then show ?case by simp
next
  case (Cons x xs)
  show ?case
  proof (cases "xs = []")
    case True
    then show ?thesis by simp
  next
    case False
    then obtain y where "min_by_key k xs = Some y" "y \<in> set xs" "\<forall>z \<in> set xs. k y \<le> k z" using Cons.IH by blast
    then show ?thesis by (auto simp: not_le intro: order_trans less_imp_le)
  qed
qed

lemma near_hour:
  fixes c obs :: int
  assumes "c div NS_PER_HOUR = obs div NS_PER_HOUR" "min_by_key (\<lambda>v. abs_millis (v - obs)) [c - NS_PER_HOUR, c, c + NS_PER_HOUR] = Some t"
  shows "\<bar>t - obs\<bar> < 1800001000000 \<and> t mod NS_PER_HOUR = c mod NS_PER_HOUR"
proof -
  obtain y where y: "min_by_key (\<lambda>v. abs_millis (v - obs)) [c - NS_PER_HOUR, c, c + NS_PER_HOUR] = Some y"
      "y \<in> set [c - NS_PER_HOUR, c, c + NS_PER_HOUR]"
      "\<forall>x \<in> set [c - NS_PER_HOUR, c, c + NS_PER_HOUR]. abs_millis (y - obs) \<le> abs_millis (x - obs)"
    using min_by_key_least [of "[c - NS_PER_HOUR, c, c + NS_PER_HOUR]" "\<lambda>v. abs_millis (v - obs)"] by blast
  have t: "t = y" using y(1) assms(2) by simp
  have "\<bar>c - obs\<bar> < NS_PER_HOUR"
    using assms(1) pos_mod_bound [of NS_PER_HOUR c] pos_mod_bound [of NS_PER_HOUR obs] pos_mod_sign [of NS_PER_HOUR c]
      pos_mod_sign [of NS_PER_HOUR obs] div_mult_mod_eq [of c NS_PER_HOUR] div_mult_mod_eq [of obs NS_PER_HOUR] by linarith
  then have "\<exists>x \<in> set [c - NS_PER_HOUR, c, c + NS_PER_HOUR]. \<bar>x - obs\<bar> \<le> 1800000000000"
    by (cases "c < obs") (auto simp: abs_if split: if_splits)
  then obtain x where x: "x \<in> set [c - NS_PER_HOUR, c, c + NS_PER_HOUR]" "\<bar>x - obs\<bar> \<le> 1800000000000" by blast
  have "\<bar>y - obs\<bar> div 1000000 \<le> \<bar>x - obs\<bar> div 1000000" using bspec [OF y(3) x(1)] by (simp only: abs_millis_def)
  also have "\<dots> \<le> 1800000000000 div 1000000" using x(2) by (rule zdiv_mono1) simp
  finally have "\<bar>y - obs\<bar> < 1800001000000" by (simp add: div_less_iff_less_mult)
  moreover have "y mod NS_PER_HOUR = c mod NS_PER_HOUR" using y(2) by auto
  ultimately show ?thesis using t by simp
qed

text \<open>
  C32. A CP24 time tag, which has no hour, is completed to the instant nearest to the moment of
  observation: it has the minute, second and millisecond of the tag and lies within half an hour
  (up to the millisecond) of the observation, also across the turn of the hour.
\<close>

theorem iec101_cp24_nearest_instant:
  assumes "parse_cp24_time2a observed bytes = Inr (Some t)"
  shows "\<bar>t - observed\<bar> < 1800001000000 \<and>
    t mod NS_PER_HOUR = uint (bytes ! 2 AND 0x3F) * 60000000000 + uint (from_le_bytes16 (bytes ! 0) (bytes ! 1)) * 1000000"
proof -
  define ms where "ms = uint (from_le_bytes16 (bytes ! 0) (bytes ! 1))"
  define mi where "mi = uint (bytes ! 2 AND 0x3F)"
  define c where "c = observed div NS_PER_HOUR * NS_PER_HOUR + (mi * 60 + ms div 1000) * 1000000000 + ms mod 1000 * 1000000"
  have b: "ms < 60000" "mi < 60" "0 \<le> ms" "0 \<le> mi" and
    t: "min_by_key (\<lambda>v. abs_millis (v - observed)) [c - NS_PER_HOUR, c, c + NS_PER_HOUR] = Some t"
    using assms by (simp_all add: parse_cp24_time2a_def Let_def ms_def mi_def c_def split: if_splits)
  have minutes: "(mi * 60 + d) * 1000000000 + m * 1000000 = mi * 60000000000 + (d * 1000 + m) * 1000000" for d m by simp
  have "(mi * 60 + ms div 1000) * 1000000000 + ms mod 1000 * 1000000 = mi * 60000000000 + ms * 1000000"
    unfolding minutes div_mult_mod_eq ..
  then have c: "c = observed div NS_PER_HOUR * NS_PER_HOUR + (mi * 60000000000 + ms * 1000000)" by (simp add: c_def)
  have r: "0 \<le> mi * 60000000000 + ms * 1000000" "mi * 60000000000 + ms * 1000000 < NS_PER_HOUR" using b by simp_all
  then have "c div NS_PER_HOUR = observed div NS_PER_HOUR" "c mod NS_PER_HOUR = mi * 60000000000 + ms * 1000000"
    unfolding c by simp_all
  with near_hour [OF _ t] show ?thesis by (simp add: ms_def mi_def)
qed

theorem iec101_cp24_nearest_instant_witness:
  "parse_cp24_time2a 3600000000000 [0, 0, 59] = Inr (Some 3540000000000) \<and>
   \<bar>3540000000000 - (3600000000000 :: int)\<bar> < 1800001000000"
proof -
  have "parse_cp24_time2a 3600000000000 [0, 0, 59] = Inr (Some 3540000000000)"
    by (simp add: parse_cp24_time2a_def abs_millis_def from_le_bytes16_def from_be_bytes16_def)
  with iec101_cp24_nearest_instant [OF this] show ?thesis by blast
qed

section \<open>Measured values\<close>

text \<open>
  Normalised measured values lose their scale when they carry a time tag: the types 10 and 34 are
  type 9 with a time tag, but only type 9 is divided by 32767; the others are reported as the raw count.
\<close>

theorem iec101_time_tagged_normalised_unscaled:
  assumes "type_id = 10 \<or> type_id = 34"
    and "decode_information_element env observed type_id (lo # hi # q # tag) TyFloat offset = Inr d"
    and "decode_information_element env observed 9 (lo # hi # q # tag) TyFloat offset = Inr d9"
  shows "dv_value d = Float (f64_of_int (sint (from_le_bytes16 lo hi))) \<and>
    dv_value d9 = Float (f64_div (f64_of_int (sint (from_le_bytes16 lo hi))) (f64_of_int 32767))"
proof -
  have s: "sint (word_of_int (sint (from_le_bytes16 lo hi)) :: i64) = sint (from_le_bytes16 lo hi)"
    using sint_greater_eq [of "from_le_bytes16 lo hi"] sint_less [of "from_le_bytes16 lo hi"]
    by (subst sint_sbintrunc') (simp add: signed_take_bit_int_eq_self)
  show ?thesis
    using assms s
    by (auto simp: decode_information_element_def element_layout_def decode_element_def iec101_coerce_value_def
        rbind_Inr Let_def split: if_splits)
qed

section \<open>The frame count bit\<close>

lemma link_simps [simp]:
  "bus_bind link_get f (a, b) = f a (a, b)" "bus_bind (link_modify g) k (a, b) = k () (g a, b)"
  "bus_bind (link_send transact req) h (a, b) =
     (case transact b req of (Inl e, b') \<Rightarrow> (Inl e, (a, b')) | (Inr x, b') \<Rightarrow> h x (a, b'))"
  by (auto simp: bus_bind_def link_get_def link_modify_def link_send_def split: prod.split sum.split)

text \<open>
  The frame count bit is not advanced by a class 2 poll: after a read that needed a poll, the
  next confirmed frame carries the frame count bit of the poll, although both frames are marked as
  counted (bit 4), so the station sees a repetition of the last frame.
\<close>

theorem iec101_poll_repeats_frame_count_bit:
  assumes "transact b (build_read_command (primary_control a PRIMARY_SEND_CONFIRMED_USER_DATA) addr) = (Inr ack, b1)"
    and "\<not> contains_variable_frame ack" "validate_link_ack ack (ia_link_address addr) = Inr ()"
    and "transact b1 (build_fixed_frame poll (ia_link_address addr)) = (Inr response, b2)"
    and "poll = primary_control (toggle_fcb a) PRIMARY_REQUEST_CLASS_2_DATA" "contains_variable_frame response"
  shows "\<exists>a'. read_exchange transact addr (a, b) = (Inr response, (a', b2)) \<and>
    bit (primary_control a' PRIMARY_SEND_CONFIRMED_USER_DATA) 5 = bit poll 5 \<and>
    bit poll 4 \<and> bit (primary_control a' PRIMARY_SEND_CONFIRMED_USER_DATA) 4"
proof -
  have "read_exchange transact addr (a, b) = (Inr response, (toggle_fcb a, b2))"
    using assms by (simp add: read_exchange_def bus_return_def)
  then show ?thesis by (auto simp: primary_control_def assms(5))
qed

theorem iec101_poll_repeats_frame_count_bit_witness:
  "\<exists>a'. read_exchange (\<lambda>b req. if b then (Inr [0x68], b) else (Inr [0xE5], True))
      \<lparr>ia_link_address = 1, ia_common_address = 1, ia_information_object_address = 1\<rparr>
      (iec101_adapter_new (connection_simulated ''iec'') [], False) = (Inr [0x68], (a', True)) \<and>
    bit (primary_control a' PRIMARY_SEND_CONFIRMED_USER_DATA) 5"
  using iec101_poll_repeats_frame_count_bit [of "\<lambda>b req. if b then (Inr [0x68], b) else (Inr [0xE5], True)" False
    "iec101_adapter_new (connection_simulated ''iec'') []"
    "\<lparr>ia_link_address = 1, ia_common_address = 1, ia_information_object_address = 1\<rparr>" "[0xE5]" True _ "[0x68]" True, OF _ _ _ _ refl]
  by (auto simp: contains_variable_frame_def validate_link_ack_def primary_control_def toggle_fcb_def iec101_adapter_new_def
      split: if_splits)

theorem iec101_time_tagged_normalised_unscaled_witness:
  "dv_value (projr (decode_information_element \<lparr>ie_days = \<lambda>y m d. None, ie_show_f64 = \<lambda>_. [], ie_debug_value = \<lambda>_. []\<rparr>
      0 34 [0x00, 0x40, 0, 0, 0, 0x80, 0, 0, 0, 0] TyFloat 0)) = Float (f64_of_int 16384)"
proof -
  let ?env = "\<lparr>ie_days = \<lambda>y m d. None, ie_show_f64 = \<lambda>_. [], ie_debug_value = \<lambda>_. []\<rparr>"
  let ?bytes = "[0x00, 0x40, 0, 0, 0, 0x80, 0, 0, 0, 0] :: u8 list"
  have "\<exists>d. decode_information_element ?env 0 34 ?bytes TyFloat 0 = Inr d"
    by (simp add: decode_information_element_def element_layout_def decode_element_def iec101_coerce_value_def
        parse_cp56_time2a_def)
  moreover have "\<exists>d. decode_information_element ?env 0 9 ?bytes TyFloat 0 = Inr d"
    by (simp add: decode_information_element_def element_layout_def decode_element_def iec101_coerce_value_def)
  ultimately obtain d d9 where "decode_information_element ?env 0 34 ?bytes TyFloat 0 = Inr d"
      "decode_information_element ?env 0 9 ?bytes TyFloat 0 = Inr d9" by blast
  with iec101_time_tagged_normalised_unscaled [OF _ this] show ?thesis
    by (simp add: from_le_bytes16_def from_be_bytes16_def)
qed

section \<open>Commands\<close>

text \<open>A positive activation confirmation for a point, and a request that the station confirmed, at
  once or in answer to a class 1 poll.\<close>

definition activation_confirmed :: "iec101_point_address \<Rightarrow> control_type \<Rightarrow> u8 list \<Rightarrow> bool" where
  "activation_confirmed addr ct body = (11 \<le> length body \<and> body ! 1 = ia_link_address addr \<and> body ! 2 = control_type_id ct \<and>
     body ! 3 = 1 \<and> body ! 4 AND 0x3F = COT_ACTIVATION_CONFIRMATION \<and> \<not> bit (body ! 4) 6 \<and>
     from_le_bytes16 (body ! 6) (body ! 7) = ia_common_address addr \<and>
     ioa_of_bytes (body ! 8) (body ! 9) (body ! 10) = ia_information_object_address addr)"

definition confirms :: "iec101_point_address \<Rightarrow> control_type \<Rightarrow> u8 list \<Rightarrow> bool" where
  "confirms addr ct response = (\<exists>pre body post. response = pre @ build_variable_frame body @ post \<and> activation_confirmed addr ct body)"

definition confirmed_exchange ::
  "'b transact \<Rightarrow> iec101_point_address \<Rightarrow> control_type \<Rightarrow> u8 list \<Rightarrow> 'b \<Rightarrow> 'b \<Rightarrow> bool" where
  "confirmed_exchange transact addr ct request b b' = (\<exists>response b1. transact b request = (Inr response, b1) \<and>
     (b' = b1 \<and> confirms addr ct response \<or>
      (\<exists>control poll. validate_link_ack response (ia_link_address addr) = Inr () \<and>
         transact b1 (build_fixed_frame control (ia_link_address addr)) = (Inr poll, b') \<and> confirms addr ct poll)))"

lemma bit6_mask: "(x AND 0x40 = 0) = (\<not> bit x 6)" for x :: u8
  using and_exp_eq_0_iff_not_bit [of x 6] by simp

lemma one_object: "x AND 0x7F = 1 \<Longrightarrow> x AND 0x80 = 0 \<Longrightarrow> x = 1" for x :: u8
proof -
  assume h: "x AND 0x7F = 1" "x AND 0x80 = 0"
  have "(0xFF :: u8) = - 1" by simp
  then have "x AND 0xFF = x" by (simp only: and.right_neutral)
  then have "x = (x AND 0x7F) OR (x AND 0x80)"
    by (simp flip: bit.conj_disj_distrib)
  then show "x = 1" using h by simp
qed

lemma parse_confirmation_confirms:
  "parse_command_confirmation response addr ct phase = Inr () \<Longrightarrow> confirms addr ct response"
proof -
  assume h: "parse_command_confirmation response addr ct phase = Inr ()"
  then obtain body where body: "parse_variable_frame response = Inr body"
    by (auto simp: parse_command_confirmation_def rbind_Inr)
  with h have "activation_confirmed addr ct body"
    unfolding parse_command_confirmation_def activation_confirmed_def
    by (auto simp: Let_def bit6_mask dest: one_object split: if_splits)
  with body show ?thesis unfolding parse_variable_frame_iff confirms_def by blast
qed

lemma send_command_confirmed:
  assumes "send_command transact addr ct command select phase (a, b) = (Inr (), (a', b'))"
  shows "\<exists>control frame. build_control_command control addr ct command select = Inr frame \<and> confirmed_exchange transact addr ct frame b b'"
proof -
  let ?c = "primary_control a PRIMARY_SEND_CONFIRMED_USER_DATA"
  obtain frame where frame: "build_control_command ?c addr ct command select = Inr frame"
    using assms by (cases "build_control_command ?c addr ct command select") (simp_all add: send_command_def)
  have "confirmed_exchange transact addr ct frame b b'"
    using assms frame
    by (auto simp: send_command_def link_context_def [abs_def] bus_bind_def link_send_def link_get_def link_modify_def
        bus_lift_def bus_return_def map_err_def confirmed_exchange_def
        split: prod.splits sum.splits if_splits dest: parse_confirmation_confirms)
  with frame show ?thesis by blast
qed

lemma bus_bind_cases_Inr:
  assumes "bus_bind m f s = (Inr y, s'')"
  obtains x s' where "m s = (Inr x, s')" "f x s' = (Inr y, s'')"
  using assms unfolding bus_bind_Inr by blast

text \<open>
  C29. A control command is reported as written only when the station confirmed it: the execute frame
  was sent and answered by a positive activation confirmation for exactly this type, station and
  object; and where select-before-operate is configured, the select frame was confirmed in the same
  way before the execute frame was sent.
\<close>

theorem iec101_write_confirmed:
  assumes "iec101_write_point env transact m value (a, b) = (Inr r, (a', b'))"
  shows "\<exists>addr options command b0 b1. iec101_check_write env a m value = Inr (addr, options, command) \<and>
    (if io_select_before_operate options
     then \<exists>control frame. build_control_command control addr (io_control_type options) command True = Inr frame \<and>
       confirmed_exchange transact addr (io_control_type options) frame b0 b1
     else b1 = b0) \<and>
    (\<exists>control frame. build_control_command control addr (io_control_type options) command False = Inr frame \<and>
       confirmed_exchange transact addr (io_control_type options) frame b1 b')"
proof -
  obtain addr options command where check: "iec101_check_write env a m value = Inr (addr, options, command)"
    using assms by (cases "iec101_check_write env a m value") (auto simp: iec101_write_point_def)
  let ?ct = "io_control_type options"
  obtain a0 b0 a1 b1 a2 b2 where
    sel: "(if io_select_before_operate options then send_command transact addr ?ct command True ''select''
           else bus_return ()) (a0, b0) = (Inr (), (a1, b1))"
    and exe: "send_command transact addr ?ct command False ''execute'' (a1, b1) = (Inr (), (a2, b2))" and b': "b2 = b'"
    using assms check unfolding iec101_write_point_def
    by (auto elim!: bus_bind_cases_Inr simp: bus_return_def)
  have "if io_select_before_operate options
     then \<exists>control frame. build_control_command control addr ?ct command True = Inr frame \<and>
       confirmed_exchange transact addr ?ct frame b0 b1
     else b1 = b0"
    using sel send_command_confirmed [of transact addr ?ct command True "''select''" a0 b0 a1 b1]
    by (auto simp: bus_return_def)
  moreover have "\<exists>control frame. build_control_command control addr ?ct command False = Inr frame \<and>
       confirmed_exchange transact addr ?ct frame b1 b'"
    using send_command_confirmed [OF exe] by (simp add: b')
  ultimately show ?thesis using check by blast
qed

text \<open>A breaker that acknowledges the reset and confirms every single command.\<close>

definition breaker_point :: telemetry_point_mapping where
  "breaker_point = (mapping_new ''breaker'' ''bay'' ''breaker'' ''iec''
     \<lparr>pa_kind = ''iec101_ioa'', pa_value = ''1:1:1'', pa_modbus = None\<rparr> TyBoolean)
     \<lparr>pm_access := ReadWrite, pm_iec101 := Some \<lparr>io_control_type = SingleCommand, io_select_before_operate = True\<rparr>\<rparr>"

definition breaker_station :: "unit transact" where
  "breaker_station b req =
     (if req ! 0 = FIXED_FRAME_START then (Inr [SINGLE_CHAR_ACK], b)
      else (Inr (build_variable_frame [0, 1, 45, 1, 7, 0, 1, 0, 1, 0, 0, 1]), b))"

definition iec101_example_env :: iec_env where
  "iec101_example_env = \<lparr>ie_days = \<lambda>y m d. None, ie_show_f64 = \<lambda>_. [], ie_debug_value = \<lambda>_. []\<rparr>"

definition breaker_adapter :: iec101_adapter where
  "breaker_adapter = iec101_adapter_new ((connection_simulated ''iec'')\<lparr>pc_protocol := Iec101\<rparr>) []"

lemma breaker_check:
  "iec101_check_write iec101_example_env breaker_adapter breaker_point (Boolean True) =
     Inr (\<lparr>ia_link_address = 1, ia_common_address = 1, ia_information_object_address = 1\<rparr>,
          \<lparr>io_control_type = SingleCommand, io_select_before_operate = True\<rparr>, Single True)"
  by (simp add: iec101_check_write_def breaker_adapter_def iec101_adapter_new_def connection_simulated_def breaker_point_def
      mapping_new_def is_writable_def validate_iec101_point_def parse_iec101_point_address_def iec101_parse_point_address_def
      parse_u8_def parse_u16_def parse_u32_def parse_uint_def digit_val_def control_accepts_def command_value_try_from_def)

lemma breaker_send:
  "\<exists>a'. send_command breaker_station \<lparr>ia_link_address = 1, ia_common_address = 1, ia_information_object_address = 1\<rparr>
      SingleCommand (Single True) select phase (a, ()) = (Inr (), (a', ()))"
proof -
  let ?conf = "build_variable_frame [0, 1, 45, 1, 7, 0, 1, 0, 1, 0, 0, 1]"
  have "parse_variable_frame ?conf = Inr [0, 1, 45, 1, 7, 0, 1, 0, 1, 0, 0, 1]"
    unfolding parse_variable_frame_iff by (rule exI [of _ "[]"], rule exI [of _ "[]"]) simp
  then have "parse_command_confirmation ?conf \<lparr>ia_link_address = 1, ia_common_address = 1, ia_information_object_address = 1\<rparr>
      SingleCommand phase = Inr ()"
    by (simp add: parse_command_confirmation_def control_type_id_def from_le_bytes16_def from_be_bytes16_def ioa_of_bytes_def)
  moreover have "contains_variable_frame ?conf" by (simp add: contains_variable_frame_def variable_frame_shape)
  ultimately show ?thesis
    by (simp add: send_command_def build_control_command_def command_information_def link_context_def [abs_def]
        bus_bind_def link_send_def link_get_def link_modify_def bus_return_def bus_lift_def breaker_station_def
        variable_frame_shape [of "[x, y] @ z" for x y z] variable_frame_shape [of "x # y" for x y])
qed

theorem iec101_write_confirmed_witness:
  "\<exists>r a'. iec101_write_point iec101_example_env breaker_station breaker_point (Boolean True) (breaker_adapter, ()) = (Inr r, (a', ())) \<and>
    wr_verified r \<and>
    (\<exists>addr command b0 b1. \<exists>control frame. build_control_command control addr SingleCommand command True = Inr frame \<and>
       confirmed_exchange breaker_station addr SingleCommand frame b0 b1)"
proof -
  let ?addr = "\<lparr>ia_link_address = 1, ia_common_address = 1, ia_information_object_address = 1\<rparr>"
  have ini: "\<exists>a1. ensure_link_initialized breaker_station 1 (breaker_adapter, ()) = (Inr (), (a1, ()))"
    by (simp add: ensure_link_initialized_def breaker_adapter_def iec101_adapter_new_def breaker_station_def
        build_fixed_frame_def append_iec101_checksum_def validate_link_ack_def link_modify_def)
  then obtain a1 where a1: "ensure_link_initialized breaker_station 1 (breaker_adapter, ()) = (Inr (), (a1, ()))" by blast
  obtain a2 where a2: "send_command breaker_station ?addr SingleCommand (Single True) True ''select'' (a1, ()) = (Inr (), (a2, ()))"
    using breaker_send by blast
  obtain a3 where a3: "send_command breaker_station ?addr SingleCommand (Single True) False ''execute'' (a2, ()) = (Inr (), (a3, ()))"
    using breaker_send by blast
  have w: "iec101_write_point iec101_example_env breaker_station breaker_point (Boolean True) (breaker_adapter, ()) =
      (Inr \<lparr>wr_point_id = ''breaker'', wr_value = Boolean True, wr_verified = True, wr_readback_value = None\<rparr>, (a3, ()))"
    by (simp add: iec101_write_point_def breaker_check bus_bind_def [of "ensure_link_initialized x y" for x y] a1
        bus_bind_def [of "send_command x1 x2 x3 x4 x5 x6" for x1 x2 x3 x4 x5 x6] a2 a3 bus_return_def)
      (simp add: breaker_point_def mapping_new_def)
  show ?thesis
    using w iec101_write_confirmed [OF w] unfolding breaker_check by auto
qed

end
