(* ===== verification/Graphs.thy ===== *)
theory Graphs
  imports Data_Config "HOL-Library.List_Lexorder" "HOL-Library.Char_ord"
begin

text \<open>
  The cycle check that the validators of data graphs and command flows share
  (crates/edge-core/src/config.rs): count the incoming edges of every node, remove nodes without
  incoming edges one by one, and compare the number of removed nodes with the number of nodes. The
  indegrees are a \<open>BTreeMap\<close>, here the list of its entries; a missing key or a counter
  below zero would be a panic, here \<open>None\<close>.
\<close>

section \<open>The loop\<close>

fun decrement :: "string \<Rightarrow> (string \<times> nat) list \<Rightarrow> (nat \<times> (string \<times> nat) list) option" where
  "decrement k [] = None"
| "decrement k ((x, n) # r) =
     (if x = k then (if n = 0 then None else Some (n - 1, (x, n - 1) # r))
      else map_option (\<lambda>(c, r'). (c, (x, n) # r')) (decrement k r))"

fun relax :: "graph_edge list \<Rightarrow> string list \<Rightarrow> (string \<times> nat) list \<Rightarrow> (string list \<times> (string \<times> nat) list) option" where
  "relax [] queue indegree = Some (queue, indegree)"
| "relax (e # es) queue indegree = (case decrement (ge_to e) indegree of
       None \<Rightarrow> None
     | Some (count, indegree') \<Rightarrow> relax es (if count = 0 then queue @ [ge_to e] else queue) indegree')"

lemma decrement_sum:
  "decrement k m = Some (c, m') \<Longrightarrow> sum_list (map snd m) = Suc (sum_list (map snd m'))"
  by (induction k m arbitrary: m' rule: decrement.induct) (auto split: if_splits)

lemma relax_sum:
  "relax es q m = Some (q', m') \<Longrightarrow> length q' + sum_list (map snd m') \<le> length q + sum_list (map snd m)"
proof (induction es arbitrary: q m)
  case Nil
  then show ?case by simp
next
  case (Cons e es)
  then obtain c m1 where d: "decrement (ge_to e) m = Some (c, m1)"
      and r: "relax es (if c = 0 then q @ [ge_to e] else q) m1 = Some (q', m')"
    by (auto split: option.splits)
  from Cons.IH [OF r] decrement_sum [OF d] show ?case by (auto split: if_splits)
qed

function kahn :: "graph_edge list \<Rightarrow> string list \<Rightarrow> (string \<times> nat) list \<Rightarrow> nat \<Rightarrow> nat option" where
  "kahn edges queue indegree visited =
     (if queue = [] then Some visited
      else (case relax (filter (\<lambda>e. ge_from e = last queue) edges) (butlast queue) indegree of
          None \<Rightarrow> None
        | Some (queue', indegree') \<Rightarrow> kahn edges queue' indegree' (visited + 1)))"
  by pat_completeness auto
termination
proof (relation "measure (\<lambda>(edges, queue, indegree, visited). length queue + sum_list (map snd indegree))")
  fix edges and queue :: "string list" and indegree :: "(string \<times> nat) list" and visited :: nat
    and s :: "string list \<times> (string \<times> nat) list" and queue' indegree'
  assume "queue \<noteq> []" and s: "relax (filter (\<lambda>e. ge_from e = last queue) edges) (butlast queue) indegree = Some s"
    "(queue', indegree') = s"
  then have "length queue' + sum_list (map snd indegree') \<le> length (butlast queue) + sum_list (map snd indegree)"
    using relax_sum by metis
  with \<open>queue \<noteq> []\<close> show "((edges, queue', indegree', visited + 1), (edges, queue, indegree, visited))
      \<in> measure (\<lambda>(edges, queue, indegree, visited). length queue + sum_list (map snd indegree))"
    by (simp add: length_greater_0_conv [symmetric] del: length_greater_0_conv)
qed simp

declare kahn.simps [simp del]

text \<open>
  The counters before the loop: a \<open>BTreeMap\<close> lists its keys in order; every edge adds one to its
  target (an entry that is missing is added, which does not happen for edges between known nodes).
\<close>

fun increment :: "string \<Rightarrow> (string \<times> nat) list \<Rightarrow> (string \<times> nat) list" where
  "increment k [] = [(k, 1)]"
| "increment k ((x, n) # r) = (if x = k then (x, n + 1) # r else (x, n) # increment k r)"

definition indegrees :: "string list \<Rightarrow> graph_edge list \<Rightarrow> (string \<times> nat) list" where
  "indegrees ids edges = foldl (\<lambda>m e. increment (ge_to e) m) (map (\<lambda>k. (k, 0)) (sort ids)) edges"

definition visited_nodes :: "(string \<times> nat) list \<Rightarrow> graph_edge list \<Rightarrow> nat option" where
  "visited_nodes indegree edges = kahn edges (map fst (filter (\<lambda>(_, n). n = 0) indegree)) indegree 0"

section \<open>Its invariant\<close>

definition edge_rel :: "graph_edge list \<Rightarrow> (string \<times> string) set" where
  "edge_rel edges = (\<lambda>e. (ge_from e, ge_to e)) ` set edges"

definition incoming :: "graph_edge list \<Rightarrow> string set \<Rightarrow> string \<Rightarrow> nat" where
  "incoming edges gone v = length (filter (\<lambda>e. ge_to e = v \<and> ge_from e \<notin> gone) edges)"

definition targets :: "graph_edge list \<Rightarrow> string \<Rightarrow> nat" where
  "targets es v = length (filter (\<lambda>e. ge_to e = v) es)"

lemma decrement_ok:
  assumes "map_of m k = Some n" "0 < n"
  shows "\<exists>m'. decrement k m = Some (n - 1, m') \<and> map fst m' = map fst m \<and> map_of m' = (map_of m)(k \<mapsto> n - 1)"
  using assms
proof (induction k m rule: decrement.induct)
  case (1 k)
  then show ?case by simp
next
  case (2 k x n' r)
  then show ?case by (cases "x = k") (auto simp: fun_eq_iff)
qed

text \<open>Decrementing along edges pushes exactly the targets whose counter reaches zero.\<close>

lemma relax_ok:
  assumes "\<forall>e \<in> set es. ge_to e \<in> set (map fst m)" "\<forall>v n. map_of m v = Some n \<longrightarrow> targets es v \<le> n"
  shows "\<exists>p m'. relax es q m = Some (q @ p, m') \<and> map fst m' = map fst m \<and> distinct p \<and>
    set p = {v. \<exists>n. map_of m v = Some n \<and> 0 < n \<and> targets es v = n} \<and>
    (\<forall>v n. map_of m v = Some n \<longrightarrow> map_of m' v = Some (n - targets es v))"
  using assms
proof (induction es arbitrary: q m)
  case Nil
  then show ?case by (auto simp: targets_def)
next
  case (Cons e es)
  let ?k = "ge_to e"
  obtain n where n: "map_of m ?k = Some n"
    using Cons.prems(1) by (metis domD domI dom_map_of_conv_image_fst image_set list.set_intros(1))
  have pos: "0 < n" "targets es ?k < n" using Cons.prems(2) n by (auto simp: targets_def dest!: spec [of _ ?k])
  obtain m1 where m1: "decrement ?k m = Some (n - 1, m1)" "map fst m1 = map fst m" "map_of m1 = (map_of m)(?k \<mapsto> n - 1)"
    using decrement_ok [OF n pos(1)] by blast
  have t: "targets (e # es) v = (if v = ?k then Suc (targets es v) else targets es v)" for v by (simp add: targets_def)
  have "\<forall>v k. map_of m1 v = Some k \<longrightarrow> targets es v \<le> k"
    using Cons.prems(2) pos unfolding m1(3) by (auto simp: t split: if_splits)
  moreover have "\<forall>e \<in> set es. ge_to e \<in> set (map fst m1)" using Cons.prems(1) m1(2) by simp
  ultimately obtain p m' where ih: "relax es (if n - 1 = 0 then q @ [?k] else q) m1 = Some ((if n - 1 = 0 then q @ [?k] else q) @ p, m')"
      "map fst m' = map fst m1" "distinct p" "set p = {v. \<exists>k. map_of m1 v = Some k \<and> 0 < k \<and> targets es v = k}"
      "\<forall>v k. map_of m1 v = Some k \<longrightarrow> map_of m' v = Some (k - targets es v)"
    using Cons.IH [of m1 "if n - 1 = 0 then q @ [?k] else q"] by blast
  let ?p = "(if n - 1 = 0 then [?k] else []) @ p"
  have "relax (e # es) q m = Some (q @ ?p, m')" using m1(1) ih(1) by simp
  moreover have "set ?p = {v. \<exists>k. map_of m v = Some k \<and> 0 < k \<and> targets (e # es) v = k}"
    using n pos unfolding m1(3) by (auto simp: ih(4) m1(3) t split: if_splits)
  moreover have "distinct ?p" using ih(3,4) by (auto simp: m1(3) split: if_splits)
  moreover have "\<forall>v k. map_of m v = Some k \<longrightarrow> map_of m' v = Some (k - targets (e # es) v)"
    using ih(5) n unfolding m1(3) by (auto simp: t split: if_splits)
  moreover have "map fst m' = map fst m" using ih(2) m1(2) by simp
  ultimately show ?case by blast
qed

text \<open>
  \<open>gone\<close> are the removed nodes in their order, \<open>queue\<close> those that wait: together the nodes
  without incoming edges from a node that is still there. Edges into removed nodes come from nodes
  removed before.
\<close>

definition kahn_inv ::
  "string set \<Rightarrow> graph_edge list \<Rightarrow> string list \<Rightarrow> string list \<Rightarrow> (string \<times> nat) list \<Rightarrow> bool" where
  "kahn_inv nodes edges gone queue m = (distinct (gone @ queue) \<and> set (map fst m) = nodes \<and>
     (\<forall>v \<in> nodes. map_of m v = Some (incoming edges (set gone) v)) \<and>
     set gone \<union> set queue = {v \<in> nodes. incoming edges (set gone) v = 0} \<and>
     (\<forall>i < length gone. \<forall>e \<in> set edges. ge_to e = gone ! i \<longrightarrow> ge_from e \<in> set (take i gone)))"

lemma incoming_step:
  assumes "x \<notin> set gone"
  shows "incoming edges (set gone) v = incoming edges (insert x (set gone)) v + targets (filter (\<lambda>e. ge_from e = x) edges) v"
  unfolding incoming_def targets_def using assms by (induction edges) auto

lemma kahn_step:
  assumes inv: "kahn_inv nodes edges gone queue m" and q: "queue \<noteq> []"
    and edges: "\<forall>e \<in> set edges. ge_from e \<in> nodes \<and> ge_to e \<in> nodes"
  shows "\<exists>queue' m'. relax (filter (\<lambda>e. ge_from e = last queue) edges) (butlast queue) m = Some (queue', m') \<and>
    kahn_inv nodes edges (gone @ [last queue]) queue' m'"
proof -
  define x fs where "x = last queue" and "fs = filter (\<lambda>e. ge_from e = x) edges"
  have x: "x \<in> set queue" "x \<notin> set gone" "x \<in> nodes" "queue = butlast queue @ [x]"
    using inv q by (auto simp: kahn_inv_def x_def)
  have split: "incoming edges (set gone) v = incoming edges (insert x (set gone)) v + targets fs v" for v
    unfolding fs_def using x(2) by (rule incoming_step)
  have cnt: "map_of m v = Some (incoming edges (set gone) v)" if "v \<in> nodes" for v
    using inv that by (auto simp: kahn_inv_def)
  have keys: "set (map fst m) = nodes" using inv by (simp only: kahn_inv_def)
  have dom: "v \<in> nodes" if "map_of m v = Some n" for v n
    using map_of_SomeD [OF that] unfolding keys [symmetric] by force
  obtain p m' where r: "relax fs (butlast queue) m = Some (butlast queue @ p, m')" "map fst m' = map fst m" "distinct p"
      "set p = {v. \<exists>n. map_of m v = Some n \<and> 0 < n \<and> targets fs v = n}"
      "\<forall>v n. map_of m v = Some n \<longrightarrow> map_of m' v = Some (n - targets fs v)"
  proof -
    have "\<forall>e \<in> set fs. ge_to e \<in> set (map fst m)" using edges unfolding keys fs_def by simp
    moreover have "\<forall>v n. map_of m v = Some n \<longrightarrow> targets fs v \<le> n" using cnt dom split by fastforce
    ultimately show thesis using relax_ok [of fs m "butlast queue"] that by blast
  qed
  have p: "v \<in> set p \<longleftrightarrow> v \<in> nodes \<and> 0 < incoming edges (set gone) v \<and> incoming edges (insert x (set gone)) v = 0" for v
    unfolding r(4) using cnt dom split [of v] by fastforce
  have zero: "set gone \<union> set queue = {v \<in> nodes. incoming edges (set gone) v = 0}" using inv by (simp add: kahn_inv_def)
  have "set (gone @ [x]) \<union> set (butlast queue @ p) = (set gone \<union> set queue) \<union> set p"
    using arg_cong [OF x(4), of set] by auto
  also have "\<dots> = {v \<in> nodes. incoming edges (insert x (set gone)) v = 0}"
    unfolding zero using p split by auto
  finally have set': "set (gone @ [x]) \<union> set (butlast queue @ p) = {v \<in> nodes. incoming edges (set (gone @ [x])) v = 0}"
    by simp
  have dist: "distinct ((gone @ [x]) @ butlast queue @ p)"
  proof -
    have "distinct (gone @ butlast queue @ [x])" using inv x(4) unfolding kahn_inv_def by metis
    moreover have "set p \<inter> (set gone \<union> set queue) = {}" unfolding zero using p by auto
    moreover have "set (butlast queue) \<subseteq> set queue" by (auto dest: in_set_butlastD)
    ultimately show ?thesis using r(3) x(1) by auto
  qed
  have counts: "\<forall>v \<in> nodes. map_of m' v = Some (incoming edges (set (gone @ [x])) v)"
    using r(5) cnt split by auto
  have "incoming edges (set gone) x = 0" using zero x(1) by auto
  then have pred: "ge_from e \<in> set gone" if "e \<in> set edges" "ge_to e = x" for e
    using that by (auto simp: incoming_def filter_empty_conv)
  have "\<forall>i < length (gone @ [x]). \<forall>e \<in> set edges. ge_to e = (gone @ [x]) ! i \<longrightarrow> ge_from e \<in> set (take i (gone @ [x]))"
    using inv pred by (auto simp: kahn_inv_def nth_append less_Suc_eq)
  with dist counts set' r(2) inv have "kahn_inv nodes edges (gone @ [x]) (butlast queue @ p) m'"
    unfolding kahn_inv_def by (auto simp del: set_append)
  with r(1) show ?thesis unfolding fs_def x_def by blast
qed

section \<open>The check is exact\<close>

lemma kahn_result:
  assumes "kahn_inv nodes edges gone queue m" "\<forall>e \<in> set edges. ge_from e \<in> nodes \<and> ge_to e \<in> nodes"
  shows "\<exists>gone' m'. kahn edges queue m (length gone) = Some (length gone') \<and> kahn_inv nodes edges gone' [] m'"
  using assms
proof (induction edges queue m "length gone" arbitrary: gone rule: kahn.induct)
  case (1 edges queue m)
  show ?case
  proof (cases "queue = []")
    case True
    then show ?thesis using 1(2) kahn.simps [of edges queue m "length gone"] by auto
  next
    case False
    obtain queue' m' where s: "relax (filter (\<lambda>e. ge_from e = last queue) edges) (butlast queue) m = Some (queue', m')"
        "kahn_inv nodes edges (gone @ [last queue]) queue' m'"
      using kahn_step [OF 1(2) False 1(3)] by blast
    from 1(1) [OF False s(1) refl, of "gone @ [last queue]"] s(2) 1(3) show ?thesis
      using s(1) False kahn.simps [of edges queue m "length gone"] by simp
  qed
qed

lemma increment_ok:
  "k \<in> set (map fst m) \<Longrightarrow> map fst (increment k m) = map fst m \<and>
     map_of (increment k m) = (map_of m)(k := map_option Suc (map_of m k))"
proof (induction k m rule: increment.induct)
  case (1 k)
  then show ?case by simp
next
  case (2 k x n r)
  then show ?case by (cases "x = k") (auto simp: fun_eq_iff)
qed

lemma increments_ok:
  assumes "\<forall>e \<in> set edges. ge_to e \<in> set (map fst m)"
  shows "map fst (foldl (\<lambda>m e. increment (ge_to e) m) m edges) = map fst m \<and>
    (\<forall>v n. map_of m v = Some n \<longrightarrow> map_of (foldl (\<lambda>m e. increment (ge_to e) m) m edges) v = Some (n + targets edges v))"
  using assms
proof (induction edges arbitrary: m)
  case Nil
  then show ?case by (simp add: targets_def)
next
  case (Cons e edges)
  let ?m = "increment (ge_to e) m"
  have m: "map fst ?m = map fst m" "map_of ?m = (map_of m)(ge_to e := map_option Suc (map_of m (ge_to e)))"
    using increment_ok [of "ge_to e" m] Cons.prems by simp_all
  have ih: "map fst (foldl (\<lambda>m e. increment (ge_to e) m) ?m edges) = map fst ?m"
    "\<forall>v n. map_of ?m v = Some n \<longrightarrow> map_of (foldl (\<lambda>m e. increment (ge_to e) m) ?m edges) v = Some (n + targets edges v)"
    using Cons.IH [of ?m] Cons.prems m(1) by simp_all
  show ?case using ih m by (auto simp: targets_def)
qed

lemma indegrees_ok:
  assumes "\<forall>e \<in> set edges. ge_to e \<in> set ids"
  shows "set (map fst (indegrees ids edges)) = set ids" "length (indegrees ids edges) = length ids"
    "distinct ids \<Longrightarrow> distinct (map fst (indegrees ids edges))"
    "v \<in> set ids \<Longrightarrow> map_of (indegrees ids edges) v = Some (incoming edges {} v)"
proof -
  let ?m = "map (\<lambda>k. (k, 0 :: nat)) (sort ids)"
  have m: "map fst ?m = sort ids" by (simp add: comp_def)
  have "\<forall>e \<in> set edges. ge_to e \<in> set (map fst ?m)" using assms unfolding m by simp
  from increments_ok [OF this] have *: "map fst (indegrees ids edges) = sort ids"
    "map_of ?m v = Some n \<Longrightarrow> map_of (indegrees ids edges) v = Some (n + targets edges v)" for v n
    unfolding m indegrees_def by blast+
  show "set (map fst (indegrees ids edges)) = set ids" "distinct ids \<Longrightarrow> distinct (map fst (indegrees ids edges))"
    unfolding *(1) by simp_all
  show "length (indegrees ids edges) = length ids" using arg_cong [OF *(1), of length] by simp
  show "map_of (indegrees ids edges) v = Some (incoming edges {} v)" if "v \<in> set ids"
    using *(2) [of v 0] that by (simp add: map_of_map_restrict incoming_def targets_def)
qed

lemma kahn_inv_initial:
  assumes "\<forall>e \<in> set edges. ge_to e \<in> set ids" "distinct ids"
  shows "kahn_inv (set ids) edges [] (map fst (filter (\<lambda>(_, n). n = 0) (indegrees ids edges))) (indegrees ids edges)"
proof -
  note i = indegrees_ok [OF assms(1)]
  have "distinct (map fst (filter (\<lambda>(_, n). n = 0) (indegrees ids edges)))"
    using i(3) [OF assms(2)] by (simp add: distinct_map inj_on_def)
  moreover have "set (map fst (filter (\<lambda>(_, n). n = 0) (indegrees ids edges))) = {v \<in> set ids. incoming edges {} v = 0}"
  proof (intro set_eqI iffI)
    fix v assume "v \<in> set (map fst (filter (\<lambda>(_, n). n = 0) (indegrees ids edges)))"
    then have v: "(v, 0) \<in> set (indegrees ids edges)" by auto
    then have "v \<in> set ids" using i(1) by force
    moreover have "map_of (indegrees ids edges) v = Some 0" using v i(3) [OF assms(2)] by simp
    ultimately show "v \<in> {v \<in> set ids. incoming edges {} v = 0}" using i(4) by simp
  next
    fix v assume "v \<in> {v \<in> set ids. incoming edges {} v = 0}"
    then have "map_of (indegrees ids edges) v = Some 0" using i(4) by simp
    from map_of_SomeD [OF this] show "v \<in> set (map fst (filter (\<lambda>(_, n). n = 0) (indegrees ids edges)))" by force
  qed
  ultimately show ?thesis unfolding kahn_inv_def using i(1,4) by simp
qed

lemma kahn_end_acyclic:
  assumes inv: "kahn_inv nodes edges gone [] m" and edges: "\<forall>e \<in> set edges. ge_from e \<in> nodes \<and> ge_to e \<in> nodes"
    and fin: "finite nodes"
  shows "length gone = card nodes \<longleftrightarrow> acyclic (edge_rel edges)"
proof
  assume len: "length gone = card nodes"
  have sub: "set gone \<subseteq> nodes" and dist: "distinct gone" using inv by (auto simp: kahn_inv_def)
  then have all: "set gone = nodes"
    using len fin by (metis card_subset_eq distinct_card)
  define pos where "pos v = (SOME i. i < length gone \<and> gone ! i = v)" for v
  have pos: "pos v < length gone \<and> gone ! pos v = v" if "v \<in> nodes" for v
    unfolding pos_def by (rule someI_ex) (use that all in \<open>metis in_set_conv_nth\<close>)
  have "edge_rel edges \<subseteq> measure pos"
  proof
    fix uv assume "uv \<in> edge_rel edges"
    then obtain e where e: "e \<in> set edges" "uv = (ge_from e, ge_to e)" by (auto simp: edge_rel_def)
    let ?i = "pos (ge_to e)"
    have "ge_from e \<in> set (take ?i gone)"
      using inv pos [of "ge_to e"] e(1) edges by (auto simp: kahn_inv_def)
    then obtain j where j: "j < ?i" "gone ! j = ge_from e" "j < length gone" by (auto simp: in_set_conv_nth)
    then have "pos (ge_from e) = j"
      using pos [of "ge_from e"] edges e(1) nth_eq_iff_index_eq [OF dist, of "pos (ge_from e)" j] by auto
    then show "uv \<in> measure pos" using e(2) j(1) by simp
  qed
  then show "acyclic (edge_rel edges)" by (metis wf_measure wf_subset wf_acyclic)
next
  assume acyc: "acyclic (edge_rel edges)"
  have fe: "finite (edge_rel edges)" by (simp add: edge_rel_def)
  have wf: "wf (edge_rel edges)" using finite_acyclic_wf [OF fe acyc] .
  have gone: "set gone = {v \<in> nodes. incoming edges (set gone) v = 0}" and dist: "distinct gone"
    using inv by (simp_all add: kahn_inv_def)
  have "v \<in> nodes \<longrightarrow> v \<in> set gone" for v
  proof (induction v rule: wf_induct_rule [OF wf])
    case (1 v)
    have "ge_from e \<in> set gone" if "e \<in> set edges" "ge_to e = v" for e
      using 1 [of "ge_from e"] that edges by (auto simp: edge_rel_def)
    then have "incoming edges (set gone) v = 0" by (auto simp: incoming_def filter_empty_conv)
    then show ?case using gone by auto
  qed
  then have "set gone = nodes" using gone by auto
  then show "length gone = card nodes" using distinct_card [OF dist] by simp
qed

text \<open>The loop ends without a panic and removes all nodes exactly when the graph has no cycle.\<close>

lemma visited_nodes_correct:
  assumes "\<forall>e \<in> set edges. ge_from e \<in> set ids \<and> ge_to e \<in> set ids" "distinct ids"
  shows "\<exists>n. visited_nodes (indegrees ids edges) edges = Some n \<and> (n = length ids \<longleftrightarrow> acyclic (edge_rel edges))"
proof -
  have to: "\<forall>e \<in> set edges. ge_to e \<in> set ids" using assms(1) by blast
  obtain gone m where "visited_nodes (indegrees ids edges) edges = Some (length gone)" "kahn_inv (set ids) edges gone [] m"
    using kahn_result [OF kahn_inv_initial [OF to assms(2)] assms(1)] by (auto simp: visited_nodes_def)
  with kahn_end_acyclic [OF _ assms(1)] show ?thesis by (simp add: distinct_card [OF assms(2)])
qed

section \<open>Paths\<close>

lemma finite_edge_rel [simp]: "finite (edge_rel edges)"
  by (simp add: edge_rel_def)

text \<open>Without cycles, going back along incoming edges ends at a node that needs none, and going
  forward at a node that has none.\<close>

lemma reached_from_source:
  assumes "acyclic (edge_rel edges)" "\<forall>e \<in> set edges. ge_from e \<in> nodes"
    and "\<forall>v \<in> nodes. \<not> source v \<longrightarrow> (\<exists>e \<in> set edges. ge_to e = v)" "v \<in> nodes"
  shows "\<exists>u \<in> nodes. source u \<and> (u, v) \<in> (edge_rel edges)\<^sup>*"
  using assms(4)
proof (induction v rule: wf_induct_rule [OF finite_acyclic_wf [OF finite_edge_rel assms(1)]])
  case (1 v)
  show ?case
  proof (cases "source v")
    case True
    then show ?thesis using 1(2) by blast
  next
    case False
    then obtain e where e: "e \<in> set edges" "ge_to e = v" using assms(3) 1(2) by blast
    then have step: "(ge_from e, v) \<in> edge_rel edges" by (auto simp: edge_rel_def)
    with 1(1) e(1) assms(2) obtain u where "u \<in> nodes" "source u" "(u, ge_from e) \<in> (edge_rel edges)\<^sup>*" by blast
    with step show ?thesis by (meson rtrancl.rtrancl_into_rtrancl)
  qed
qed

lemma reaches_sink:
  assumes "acyclic (edge_rel edges)" "\<forall>e \<in> set edges. ge_to e \<in> nodes"
    and "\<forall>v \<in> nodes. \<not> sink v \<longrightarrow> (\<exists>e \<in> set edges. ge_from e = v)" "v \<in> nodes"
  shows "\<exists>w \<in> nodes. sink w \<and> (v, w) \<in> (edge_rel edges)\<^sup>*"
  using assms(4)
proof (induction v rule: wf_induct_rule [OF finite_acyclic_wf_converse [OF finite_edge_rel assms(1)]])
  case (1 v)
  show ?case
  proof (cases "sink v")
    case True
    then show ?thesis using 1(2) by blast
  next
    case False
    then obtain e where e: "e \<in> set edges" "ge_from e = v" using assms(3) 1(2) by blast
    then have step: "(v, ge_to e) \<in> edge_rel edges" by (auto simp: edge_rel_def)
    with 1(1) e(1) assms(2) obtain w where "w \<in> nodes" "sink w" "(ge_to e, w) \<in> (edge_rel edges)\<^sup>*" by blast
    with step show ?thesis by (meson converse_rtrancl_into_rtrancl)
  qed
qed

end
