(* ===== verification/Flow_Config.thy ===== *)
theory Flow_Config
  imports Graphs
begin

text \<open>
  Validation of visual data graphs and of command flows (crates/edge-core/src/config.rs,
  \<open>validate_data_config_visual_graph\<close> and \<open>validate_command_flow\<close>). Node parameters are JSON values of
  the serde_json crate: the type variable \<open>'j\<close> with the accessors that the code calls, a record
  that is an argument of the operations.
\<close>

record 'j json_ops =
  js_from_slice :: "u8 list \<Rightarrow> 'j option"
  js_get :: "'j \<Rightarrow> string \<Rightarrow> 'j option"
  js_as_str :: "'j \<Rightarrow> string option"
  js_as_f64 :: "'j \<Rightarrow> f64 option"
  js_as_i64 :: "'j \<Rightarrow> i64 option"
  js_as_u64 :: "'j \<Rightarrow> u64 option"
  js_as_bool :: "'j \<Rightarrow> bool option"
  js_as_array :: "'j \<Rightarrow> 'j list option"
  js_bool :: "bool \<Rightarrow> 'j"
  js_eq :: "'j \<Rightarrow> 'j \<Rightarrow> bool"

definition option_filter :: "('a \<Rightarrow> bool) \<Rightarrow> 'a option \<Rightarrow> 'a option" where
  "option_filter P m = (case m of Some x \<Rightarrow> if P x then Some x else None | None \<Rightarrow> None)"

section \<open>Data graphs\<close>

fun check_data_nodes ::
  "string \<Rightarrow> data_config_point list \<Rightarrow> 'j data_graph_node list \<Rightarrow> (string \<rightharpoonup> data_graph_node_kind) \<Rightarrow>
   string + (string \<rightharpoonup> data_graph_node_kind)" where
  "check_data_nodes cid points [] kinds = Inr kinds"
| "check_data_nodes cid points (n # ns) kinds =
     (if trim (gn_node_id n) = [] then Inl (''data config '' @ cid @ '' graph node id is required'')
      else if kinds (gn_node_id n) \<noteq> None
      then Inl (''data config '' @ cid @ '' graph has duplicate node '' @ gn_node_id n)
      else if gn_kind n = NodePoint \<and>
              \<not> list_ex (\<lambda>p. dp_point_id p = (case gn_ref_id n of Some r \<Rightarrow> r | None \<Rightarrow> [])) points
      then Inl (''data config '' @ cid @ '' graph point node '' @ gn_node_id n @ '' references missing point ''
             @ (case gn_ref_id n of Some r \<Rightarrow> r | None \<Rightarrow> []))
      else check_data_nodes cid points ns (kinds(gn_node_id n \<mapsto> gn_kind n)))"

fun check_data_edges ::
  "string \<Rightarrow> (string \<rightharpoonup> data_graph_node_kind) \<Rightarrow> graph_edge list \<Rightarrow> string list \<Rightarrow> string + unit" where
  "check_data_edges cid kinds [] seen = Inr ()"
| "check_data_edges cid kinds (e # es) seen =
     (if ge_edge_id e \<in> set seen
      then Inl (''data config '' @ cid @ '' graph has duplicate edge '' @ ge_edge_id e)
      else (case kinds (ge_from e) of
          None \<Rightarrow> Inl (''data config '' @ cid @ '' graph edge '' @ ge_edge_id e @ '' references missing source '' @ ge_from e)
        | Some from_kind \<Rightarrow> (case kinds (ge_to e) of
              None \<Rightarrow> Inl (''data config '' @ cid @ '' graph edge '' @ ge_edge_id e @ '' references missing target '' @ ge_to e)
            | Some to_kind \<Rightarrow>
                if from_kind = NodeMqtt
                then Inl (''data config '' @ cid @ '' graph MQTT node '' @ ge_from e @ '' cannot have outgoing edges'')
                else if to_kind = NodePoint
                then Inl (''data config '' @ cid @ '' graph point node '' @ ge_to e @ '' cannot have incoming edges'')
                else check_data_edges cid kinds es (ge_edge_id e # seen))))"

definition check_acyclic :: "string \<Rightarrow> string list \<Rightarrow> graph_edge list \<Rightarrow> string + unit" where
  "check_acyclic subject ids edges =
     (case visited_nodes (indegrees ids edges) edges of
        None \<Rightarrow> Inl ''panic''
      | Some visited \<Rightarrow> if visited \<noteq> length ids then Inl (subject @ '' graph contains a cycle'') else Inr ())"

definition validate_data_config_visual_graph :: "'j data_config \<Rightarrow> string + unit" where
  "validate_data_config_visual_graph cfg =
     (let cid = cf_config_id cfg; nodes = dg_nodes (cf_visual_graph cfg); edges = dg_edges (cf_visual_graph cfg) in
      if nodes = [] \<and> edges = [] then Inr ()
      else if nodes = [] then Inl (''data config '' @ cid @ '' graph has edges but no nodes'')
      else rbind (check_data_nodes cid (cf_points cfg) nodes Map.empty) (\<lambda>kinds.
        rbind (check_data_edges cid kinds edges []) (\<lambda>_.
          let outgoing = map ge_from edges; incoming = map ge_to edges;
              mqtt_nodes = filter (\<lambda>n. gn_kind n = NodeMqtt) nodes in
          if mqtt_nodes = [] then Inl (''data config '' @ cid @ '' graph requires at least one MQTT output'')
          else (case find (\<lambda>n. gn_node_id n \<notin> set incoming) mqtt_nodes of
              Some n \<Rightarrow> Inl (''data config '' @ cid @ '' graph MQTT output '' @ gn_node_id n @ '' is disconnected'')
            | None \<Rightarrow> (case find (\<lambda>n. gn_kind n \<noteq> NodeMqtt \<and> gn_node_id n \<notin> set outgoing) nodes of
                Some n \<Rightarrow> Inl (''data config '' @ cid @ '' graph node '' @ gn_node_id n @ '' has no downstream output'')
              | None \<Rightarrow> check_acyclic (''data config '' @ cid) (map gn_node_id nodes) edges)))))"

section \<open>Command flows\<close>

definition valid_json_field_path :: "string \<Rightarrow> bool" where
  "valid_json_field_path path0 = (let path = trim path0 in
     path \<noteq> [] \<and> length path \<le> 256 \<and>
     list_all (\<lambda>segment. segment \<noteq> [] \<and> \<not> has_whitespace segment) (split_on (CHR ''.'') path))"

text \<open>The last mapping of an id wins, as in the \<open>BTreeMap\<close> that is collected from the list.\<close>

definition mapping_by_id :: "telemetry_point_mapping list \<Rightarrow> string \<Rightarrow> telemetry_point_mapping option" where
  "mapping_by_id ms i = map_of (rev (map (\<lambda>m. (pm_point_id m, m)) ms)) i"

definition node_ref :: "'j command_node \<Rightarrow> string" where
  "node_ref n = (case cn_ref_id n of Some r \<Rightarrow> r | None \<Rightarrow> [])"

definition verification_param :: "'j command_node \<Rightarrow> 'j option" where
  "verification_param n = (case cn_params n ''verification'' of Some v \<Rightarrow> Some v | None \<Rightarrow> cn_params n ''verify_mode'')"

definition check_write_params :: "'j json_ops \<Rightarrow> string \<Rightarrow> 'j command_node \<Rightarrow> string + unit" where
  "check_write_params js subject n =
     rbind (case cn_params n ''value_path'' of
         None \<Rightarrow> Inr ()
       | Some v \<Rightarrow> (case js_as_str js v of
             None \<Rightarrow> Inl (subject @ '' value_path must be a string'')
           | Some path \<Rightarrow> if \<not> valid_json_field_path path
               then Inl (subject @ '' value_path must be a non-empty dot-separated JSON field path'') else Inr ())) (\<lambda>_.
     rbind (case verification_param n of
         None \<Rightarrow> Inr ()
       | Some v \<Rightarrow> (case js_as_str js v of
             None \<Rightarrow> Inl (subject @ '' verification must be a string'')
           | Some mode \<Rightarrow> if \<not> (mode = ''response'' \<or> mode = ''readback'')
               then Inl (subject @ '' verification mode is unsupported: '' @ mode) else Inr ())) (\<lambda>_.
     case cn_params n ''readback_tolerance'' of
         None \<Rightarrow> Inr ()
       | Some v \<Rightarrow> (case js_as_f64 js v of
             None \<Rightarrow> Inl (subject @ '' readback_tolerance must be a number'')
           | Some tolerance \<Rightarrow> if \<not> f64_is_finite tolerance \<or> f64_lt tolerance f64_zero
               then Inl (subject @ '' readback_tolerance must be finite and non-negative'') else Inr ())))"

definition check_write_node ::
  "'j json_ops \<Rightarrow> 'j command_flow \<Rightarrow> telemetry_point_mapping list \<Rightarrow> 'j command_node \<Rightarrow> string + unit" where
  "check_write_node js flow ms n =
     (let subject = ''command flow '' @ fl_flow_id flow @ '' write node '' @ cn_node_id n in
      case mapping_by_id ms (node_ref n) of
        None \<Rightarrow> Inl (subject @ '' references missing point '' @ node_ref n)
      | Some m \<Rightarrow>
          if \<not> is_writable (pm_access m) then Inl (subject @ '' references read-only point '' @ node_ref n)
          else if fl_protocol_connection_id flow \<noteq> [] \<and> pm_protocol_connection_id m \<noteq> fl_protocol_connection_id flow
          then Inl (subject @ '' uses protocol connection '' @ pm_protocol_connection_id m @ '', expected ''
                 @ fl_protocol_connection_id flow)
          else rbind (validate_point_access (pm_address m) (pm_access m)) (\<lambda>_. check_write_params js subject n))"

definition positive_param :: "'j json_ops \<Rightarrow> 'j option \<Rightarrow> string \<Rightarrow> string + unit" where
  "positive_param js p message = (case p of
       None \<Rightarrow> Inr ()
     | Some v \<Rightarrow> if option_filter (\<lambda>x. x > 0) (js_as_u64 js v) = None then Inl message else Inr ())"

definition non_blank :: "'j json_ops \<Rightarrow> 'j \<Rightarrow> bool" where
  "non_blank js v = (option_filter (\<lambda>s. trim s \<noteq> []) (js_as_str js v) \<noteq> None)"

definition check_safety_node :: "'j json_ops \<Rightarrow> 'j command_flow \<Rightarrow> 'j command_node \<Rightarrow> string + unit" where
  "check_safety_node js flow n =
     (let subject = ''command flow '' @ fl_flow_id flow @ '' safety node '' @ cn_node_id n in
      rbind (case cn_params n ''require_confirmation'' of
          Some v \<Rightarrow> if js_as_bool js v = None then Inl (subject @ '' require_confirmation must be boolean'') else Inr ()
        | None \<Rightarrow> Inr ()) (\<lambda>_.
      rbind (case cn_params n ''source_path'' of
          Some v \<Rightarrow> if \<not> non_blank js v then Inl (subject @ '' source_path must be a non-empty string'') else Inr ()
        | None \<Rightarrow> Inr ()) (\<lambda>_.
      rbind (case cn_params n ''max_confirmation_age_ms'' of
          Some v \<Rightarrow> if option_filter (\<lambda>x. x > 0 \<and> x \<le> 604800000) (js_as_u64 js v) = None
            then Inl (subject @ '' max_confirmation_age_ms must be between 1 and 604800000'') else Inr ()
        | None \<Rightarrow> Inr ()) (\<lambda>_.
      rbind (case cn_params n ''allowed_sources'' of
          Some v \<Rightarrow> (case js_as_array js v of
              None \<Rightarrow> Inl (subject @ '' allowed_sources must be an array'')
            | Some sources \<Rightarrow> if sources = [] \<or> list_ex (\<lambda>s. \<not> non_blank js s) sources
                then Inl (subject @ '' allowed_sources requires non-empty strings'') else Inr ())
        | None \<Rightarrow> Inr ()) (\<lambda>_.
        let max_commands = cn_params n ''max_commands''; window_ms = cn_params n ''window_ms'' in
        if (max_commands = None) \<noteq> (window_ms = None)
        then Inl (subject @ '' max_commands and window_ms must be configured together'')
        else rbind (positive_param js max_commands (subject @ '' max_commands must be a positive integer'')) (\<lambda>_.
          positive_param js window_ms (subject @ '' window_ms must be a positive integer'')))))))"

fun check_command_nodes ::
  "'j json_ops \<Rightarrow> 'j command_flow \<Rightarrow> telemetry_point_mapping list \<Rightarrow> 'j command_node list \<Rightarrow>
   (string \<rightharpoonup> command_node_kind) \<Rightarrow> string + (string \<rightharpoonup> command_node_kind)" where
  "check_command_nodes js flow ms [] kinds = Inr kinds"
| "check_command_nodes js flow ms (n # ns) kinds =
     (if trim (cn_node_id n) = [] then Inl (''command flow '' @ fl_flow_id flow @ '' node id is required'')
      else if kinds (cn_node_id n) \<noteq> None
      then Inl (''command flow '' @ fl_flow_id flow @ '' has duplicate node '' @ cn_node_id n)
      else rbind (if cn_kind n = PointWrite then check_write_node js flow ms n else Inr ()) (\<lambda>_.
        rbind (if cn_kind n = SafetyGate then check_safety_node js flow n else Inr ()) (\<lambda>_.
          check_command_nodes js flow ms ns (kinds(cn_node_id n \<mapsto> cn_kind n)))))"

fun check_command_edges ::
  "string \<Rightarrow> (string \<rightharpoonup> command_node_kind) \<Rightarrow> graph_edge list \<Rightarrow> string list \<Rightarrow> string + unit" where
  "check_command_edges fid kinds [] seen = Inr ()"
| "check_command_edges fid kinds (e # es) seen =
     (if ge_edge_id e \<in> set seen then Inl (''command flow '' @ fid @ '' has duplicate edge '' @ ge_edge_id e)
      else (case kinds (ge_from e) of
          None \<Rightarrow> Inl (''command flow '' @ fid @ '' edge '' @ ge_edge_id e @ '' references missing source '' @ ge_from e)
        | Some from_kind \<Rightarrow> (case kinds (ge_to e) of
              None \<Rightarrow> Inl (''command flow '' @ fid @ '' edge '' @ ge_edge_id e @ '' references missing target '' @ ge_to e)
            | Some to_kind \<Rightarrow>
                if from_kind = MqttReply
                then Inl (''command flow '' @ fid @ '' reply node '' @ ge_from e @ '' cannot have outgoing edges'')
                else if to_kind = MqttInput
                then Inl (''command flow '' @ fid @ '' input node '' @ ge_to e @ '' cannot have incoming edges'')
                else check_command_edges fid kinds es (ge_edge_id e # seen))))"

definition debug_node_kind :: "command_node_kind \<Rightarrow> string" where
  "debug_node_kind k = (case k of
       MqttInput \<Rightarrow> ''MqttInput'' | JsonParse \<Rightarrow> ''JsonParse'' | Condition \<Rightarrow> ''Condition''
     | SafetyGate \<Rightarrow> ''SafetyGate'' | PointWrite \<Rightarrow> ''PointWrite'' | MqttReply \<Rightarrow> ''MqttReply'')"

fun check_required_kinds :: "string \<Rightarrow> 'j command_node list \<Rightarrow> command_node_kind list \<Rightarrow> string + unit" where
  "check_required_kinds fid nodes [] = Inr ()"
| "check_required_kinds fid nodes (k # ks) =
     (if \<not> list_ex (\<lambda>n. cn_kind n = k) nodes
      then Inl (''command flow '' @ fid @ '' requires a '' @ debug_node_kind k @ '' node'')
      else check_required_kinds fid nodes ks)"

definition check_flow_header :: "'j command_flow \<Rightarrow> string + unit" where
  "check_flow_header flow =
     (if trim (fl_flow_id flow) = [] then Inl ''command flow id is required''
      else if trim (fl_mqtt_connection_id flow) = []
      then Inl (''command flow '' @ fl_flow_id flow @ '' MQTT connection is required'')
      else if trim (fl_subscribe_topic flow) = []
      then Inl (''command flow '' @ fl_flow_id flow @ '' subscribe topic is required'')
      else if trim (fl_reply_topic_template flow) = []
      then Inl (''command flow '' @ fl_flow_id flow @ '' reply topic is required'')
      else if fl_qos flow > 2 then Inl (''command flow '' @ fl_flow_id flow @ '' QoS must be 0, 1, or 2'')
      else if fl_nodes flow = [] then Inl (''command flow '' @ fl_flow_id flow @ '' graph requires nodes'')
      else Inr ())"

definition validate_command_flow :: "'j json_ops \<Rightarrow> 'j command_flow \<Rightarrow> telemetry_point_mapping list \<Rightarrow> string + unit" where
  "validate_command_flow js flow ms =
     (let fid = fl_flow_id flow; nodes = fl_nodes flow; edges = fl_edges flow in
      rbind (check_flow_header flow) (\<lambda>_.
      rbind (check_command_nodes js flow ms nodes Map.empty) (\<lambda>kinds.
      rbind (check_required_kinds fid nodes [MqttInput, PointWrite, MqttReply]) (\<lambda>_.
      rbind (check_command_edges fid kinds edges []) (\<lambda>_.
        let indegree = indegrees (map cn_node_id nodes) edges; outgoing = map ge_from edges in
        case find (\<lambda>n. cn_kind n \<noteq> MqttInput \<and>
                 (case map_of indegree (cn_node_id n) of Some c \<Rightarrow> c | None \<Rightarrow> 0) = 0) nodes of
          Some n \<Rightarrow> Inl (''command flow '' @ fid @ '' node '' @ cn_node_id n @ '' has no upstream input'')
        | None \<Rightarrow> (case find (\<lambda>n. cn_kind n \<noteq> MqttReply \<and> cn_node_id n \<notin> set outgoing) nodes of
              Some n \<Rightarrow> Inl (''command flow '' @ fid @ '' node '' @ cn_node_id n @ '' has no downstream output'')
            | None \<Rightarrow> check_acyclic (''command flow '' @ fid) (map cn_node_id nodes) edges))))))"

section \<open>What the validators accept\<close>

lemma map_add_upd_front: "k \<notin> set (map fst xs) \<Longrightarrow> kinds(k \<mapsto> v) ++ map_of xs = kinds ++ map_of ((k, v) # xs)"
  by (simp add: map_add_upd_left dom_map_of_conv_image_fst)

lemma fresh_node:
  "P n \<and> kinds (i n) = None \<and> (\<forall>m \<in> set ns. P m \<and> (kinds(i n \<mapsto> k n)) (i m) = None) \<and> distinct (map i ns) \<and>
     ks = kinds(i n \<mapsto> k n) ++ map_of (map (\<lambda>n. (i n, k n)) ns) \<longleftrightarrow>
   (\<forall>m \<in> set (n # ns). P m \<and> kinds (i m) = None) \<and> distinct (map i (n # ns)) \<and>
     ks = kinds ++ map_of (map (\<lambda>n. (i n, k n)) (n # ns))"
proof (cases "i n \<in> i ` set ns")
  case True
  then show ?thesis by force
next
  case False
  have "kinds(i n \<mapsto> k n) ++ map_of (map (\<lambda>n. (i n, k n)) ns) = kinds ++ map_of (map (\<lambda>n. (i n, k n)) (n # ns))"
    using map_add_upd_front [of "i n" "map (\<lambda>n. (i n, k n)) ns" kinds "k n"] False by (simp add: comp_def)
  moreover have "\<forall>m \<in> set ns. i m \<noteq> i n" using False by (metis imageI)
  ultimately show ?thesis using False by auto
qed

definition data_node_ok :: "data_config_point list \<Rightarrow> 'j data_graph_node \<Rightarrow> bool" where
  "data_node_ok points n = (trim (gn_node_id n) \<noteq> [] \<and>
     (gn_kind n = NodePoint \<longrightarrow> (\<exists>p \<in> set points. dp_point_id p = (case gn_ref_id n of Some r \<Rightarrow> r | None \<Rightarrow> []))))"

lemma check_data_nodes_iff:
  "check_data_nodes cid points ns kinds = Inr kinds' \<longleftrightarrow>
     (\<forall>n \<in> set ns. data_node_ok points n \<and> kinds (gn_node_id n) = None) \<and>
     distinct (map gn_node_id ns) \<and> kinds' = kinds ++ map_of (map (\<lambda>n. (gn_node_id n, gn_kind n)) ns)"
proof (induction ns arbitrary: kinds)
  case Nil
  then show ?case by auto
next
  case (Cons n ns)
  have "check_data_nodes cid points (n # ns) kinds = Inr kinds' \<longleftrightarrow> data_node_ok points n \<and> kinds (gn_node_id n) = None \<and>
      check_data_nodes cid points ns (kinds(gn_node_id n \<mapsto> gn_kind n)) = Inr kinds'"
    by (auto simp: list_ex_iff data_node_ok_def)
  then show ?case unfolding Cons.IH fresh_node .
qed

lemma check_data_edges_iff:
  "check_data_edges cid kinds es seen = Inr () \<longleftrightarrow>
     distinct (map ge_edge_id es) \<and> set (map ge_edge_id es) \<inter> set seen = {} \<and>
     (\<forall>e \<in> set es. \<exists>f t. kinds (ge_from e) = Some f \<and> kinds (ge_to e) = Some t \<and> f \<noteq> NodeMqtt \<and> t \<noteq> NodePoint)"
  by (induction es arbitrary: seen) (auto split: option.splits if_splits)

lemma kind_lookup:
  assumes "distinct (map f ns)"
  shows "map_of (map (\<lambda>n. (f n, g n)) ns) i = Some k \<longleftrightarrow> (\<exists>n \<in> set ns. f n = i \<and> g n = k)"
proof -
  have "distinct (map fst (map (\<lambda>n. (f n, g n)) ns))" using assms by (simp add: comp_def)
  then show ?thesis by (auto simp: map_of_eq_Some_iff)
qed

lemma check_acyclic_iff:
  assumes "\<forall>e \<in> set edges. ge_from e \<in> set ids \<and> ge_to e \<in> set ids" "distinct ids"
  shows "check_acyclic subject ids edges = Inr () \<longleftrightarrow> acyclic (edge_rel edges)"
  using visited_nodes_correct [OF assms] by (auto simp: check_acyclic_def)

text \<open>A well-formed data graph: unique and resolved identifiers, no edge out of an MQTT output or into
  a point, every output fed, every other node used, no cycle.\<close>

definition data_graph_ok :: "data_config_point list \<Rightarrow> 'j data_graph_node list \<Rightarrow> graph_edge list \<Rightarrow> bool" where
  "data_graph_ok points nodes edges = (
     distinct (map gn_node_id nodes) \<and> distinct (map ge_edge_id edges) \<and>
     (\<forall>n \<in> set nodes. data_node_ok points n) \<and>
     (\<forall>e \<in> set edges. (\<exists>n \<in> set nodes. gn_node_id n = ge_from e \<and> gn_kind n \<noteq> NodeMqtt) \<and>
        (\<exists>n \<in> set nodes. gn_node_id n = ge_to e \<and> gn_kind n \<noteq> NodePoint)) \<and>
     (\<exists>n \<in> set nodes. gn_kind n = NodeMqtt) \<and>
     (\<forall>n \<in> set nodes. if gn_kind n = NodeMqtt then gn_node_id n \<in> ge_to ` set edges else gn_node_id n \<in> ge_from ` set edges) \<and>
     acyclic (edge_rel edges))"

lemma find_guard:
  "(case find P xs of Some n \<Rightarrow> Inl (f n) | None \<Rightarrow> r) = Inr y \<longleftrightarrow> (\<forall>x \<in> set xs. \<not> P x) \<and> r = Inr y"
  by (induction xs) auto

lemma data_graph_checks:
  "(\<exists>kinds. check_data_nodes cid points nodes Map.empty = Inr kinds \<and> check_data_edges cid kinds edges [] = Inr ()) \<and>
     (\<exists>n \<in> set nodes. gn_kind n = NodeMqtt) \<and>
     (\<forall>n \<in> set nodes. if gn_kind n = NodeMqtt then gn_node_id n \<in> ge_to ` set edges else gn_node_id n \<in> ge_from ` set edges) \<and>
     check_acyclic subject (map gn_node_id nodes) edges = Inr () \<longleftrightarrow> data_graph_ok points nodes edges"
  (is "?checks \<longleftrightarrow> _")
proof (cases "distinct (map gn_node_id nodes)")
  case False
  then show ?thesis by (simp add: check_data_nodes_iff data_graph_ok_def)
next
  case True
  let ?ends = "\<forall>e \<in> set edges. (\<exists>n \<in> set nodes. gn_node_id n = ge_from e \<and> gn_kind n \<noteq> NodeMqtt) \<and>
        (\<exists>n \<in> set nodes. gn_node_id n = ge_to e \<and> gn_kind n \<noteq> NodePoint)"
  have ends: "(\<forall>e \<in> set edges. \<exists>f t. map_of (map (\<lambda>n. (gn_node_id n, gn_kind n)) nodes) (ge_from e) = Some f \<and>
      map_of (map (\<lambda>n. (gn_node_id n, gn_kind n)) nodes) (ge_to e) = Some t \<and> f \<noteq> NodeMqtt \<and> t \<noteq> NodePoint) \<longleftrightarrow> ?ends"
    unfolding kind_lookup [OF True] by blast
  have acyc: "check_acyclic subject (map gn_node_id nodes) edges = Inr () \<longleftrightarrow> acyclic (edge_rel edges)" if ?ends
    by (rule check_acyclic_iff [OF _ True]) (use that in force)
  show ?thesis
  proof (cases ?ends)
    case True
    then show ?thesis
      unfolding check_data_nodes_iff check_data_edges_iff data_graph_ok_def acyc [OF True]
      using \<open>distinct (map gn_node_id nodes)\<close> ends by simp blast
  next
    case False
    then have "\<not> data_graph_ok points nodes edges" unfolding data_graph_ok_def by blast
    moreover have "\<not> ?checks" unfolding check_data_nodes_iff check_data_edges_iff using ends False by auto
    ultimately show ?thesis by blast
  qed
qed

text \<open>
  C33. A visual data graph is accepted exactly when it is empty or well formed: unique and resolved
  identifiers, MQTT outputs that are fed and feed nothing, points that are not fed, every other node
  with a successor, and no cycle.
\<close>

theorem validate_data_graph_correct:
  "validate_data_config_visual_graph cfg = Inr () \<longleftrightarrow>
     (let nodes = dg_nodes (cf_visual_graph cfg); edges = dg_edges (cf_visual_graph cfg) in
      nodes = [] \<and> edges = [] \<or> data_graph_ok (cf_points cfg) nodes edges)"
proof -
  let ?nodes = "dg_nodes (cf_visual_graph cfg)" and ?edges = "dg_edges (cf_visual_graph cfg)"
  let ?kinds = "map_of (map (\<lambda>n. (gn_node_id n, gn_kind n)) ?nodes)"
  show ?thesis
  proof (cases "?nodes = []")
    case True
    then show ?thesis by (auto simp: validate_data_config_visual_graph_def data_graph_ok_def Let_def)
  next
    case False
    have "validate_data_config_visual_graph cfg = Inr () \<longleftrightarrow>
        (\<exists>kinds. check_data_nodes (cf_config_id cfg) (cf_points cfg) ?nodes Map.empty = Inr kinds \<and>
           check_data_edges (cf_config_id cfg) kinds ?edges [] = Inr ()) \<and>
        (\<exists>n \<in> set ?nodes. gn_kind n = NodeMqtt) \<and>
        (\<forall>n \<in> set ?nodes. if gn_kind n = NodeMqtt then gn_node_id n \<in> ge_to ` set ?edges else gn_node_id n \<in> ge_from ` set ?edges) \<and>
        check_acyclic (''data config '' @ cf_config_id cfg) (map gn_node_id ?nodes) ?edges = Inr ()"
      unfolding validate_data_config_visual_graph_def Let_def
      using False by (simp add: rbind_Inr find_guard if_Inl_Inr filter_empty_conv) blast
    also have "\<dots> \<longleftrightarrow> data_graph_ok (cf_points cfg) ?nodes ?edges"
      by (rule data_graph_checks)
    finally show ?thesis using False by (simp add: Let_def)
  qed
qed

definition command_node_ok ::
  "'j json_ops \<Rightarrow> 'j command_flow \<Rightarrow> telemetry_point_mapping list \<Rightarrow> 'j command_node \<Rightarrow> bool" where
  "command_node_ok js flow ms n = (trim (cn_node_id n) \<noteq> [] \<and>
     (cn_kind n = PointWrite \<longrightarrow> check_write_node js flow ms n = Inr ()) \<and>
     (cn_kind n = SafetyGate \<longrightarrow> check_safety_node js flow n = Inr ()))"

lemma check_command_nodes_iff:
  "check_command_nodes js flow ms ns kinds = Inr kinds' \<longleftrightarrow>
     (\<forall>n \<in> set ns. command_node_ok js flow ms n \<and> kinds (cn_node_id n) = None) \<and>
     distinct (map cn_node_id ns) \<and> kinds' = kinds ++ map_of (map (\<lambda>n. (cn_node_id n, cn_kind n)) ns)"
proof (induction ns arbitrary: kinds)
  case Nil
  then show ?case by auto
next
  case (Cons n ns)
  have "check_command_nodes js flow ms (n # ns) kinds = Inr kinds' \<longleftrightarrow> command_node_ok js flow ms n \<and>
      kinds (cn_node_id n) = None \<and> check_command_nodes js flow ms ns (kinds(cn_node_id n \<mapsto> cn_kind n)) = Inr kinds'"
    by (auto simp: rbind_Inr command_node_ok_def)
  then show ?case unfolding Cons.IH fresh_node .
qed

lemma check_command_edges_iff:
  "check_command_edges fid kinds es seen = Inr () \<longleftrightarrow>
     distinct (map ge_edge_id es) \<and> set (map ge_edge_id es) \<inter> set seen = {} \<and>
     (\<forall>e \<in> set es. \<exists>f t. kinds (ge_from e) = Some f \<and> kinds (ge_to e) = Some t \<and> f \<noteq> MqttReply \<and> t \<noteq> MqttInput)"
  by (induction es arbitrary: seen) (auto split: option.splits if_splits)

lemma check_required_kinds_iff:
  "check_required_kinds fid nodes ks = Inr () \<longleftrightarrow> (\<forall>k \<in> set ks. \<exists>n \<in> set nodes. cn_kind n = k)"
  by (induction ks) (auto simp: list_ex_iff)

lemma no_upstream_iff:
  assumes "\<forall>e \<in> set edges. ge_to e \<in> set ids" "v \<in> set ids"
  shows "(case map_of (indegrees ids edges) v of Some c \<Rightarrow> c | None \<Rightarrow> 0) = 0 \<longleftrightarrow> v \<notin> ge_to ` set edges"
  using indegrees_ok(4) [OF assms] by (auto simp: incoming_def filter_empty_conv)

text \<open>A well-formed command flow.\<close>

definition command_edges_ok :: "'j command_node list \<Rightarrow> graph_edge list \<Rightarrow> bool" where
  "command_edges_ok nodes edges = (\<forall>e \<in> set edges.
     (\<exists>n \<in> set nodes. cn_node_id n = ge_from e \<and> cn_kind n \<noteq> MqttReply) \<and>
     (\<exists>n \<in> set nodes. cn_node_id n = ge_to e \<and> cn_kind n \<noteq> MqttInput))"

definition command_flow_ok :: "'j json_ops \<Rightarrow> 'j command_flow \<Rightarrow> telemetry_point_mapping list \<Rightarrow> bool" where
  "command_flow_ok js flow ms = (
     (\<forall>s \<in> {fl_flow_id flow, fl_mqtt_connection_id flow, fl_subscribe_topic flow, fl_reply_topic_template flow}. trim s \<noteq> []) \<and>
     fl_qos flow \<le> 2 \<and>
     distinct (map cn_node_id (fl_nodes flow)) \<and> distinct (map ge_edge_id (fl_edges flow)) \<and>
     (\<forall>n \<in> set (fl_nodes flow). command_node_ok js flow ms n) \<and>
     (\<forall>k \<in> {MqttInput, PointWrite, MqttReply}. \<exists>n \<in> set (fl_nodes flow). cn_kind n = k) \<and>
     command_edges_ok (fl_nodes flow) (fl_edges flow) \<and>
     (\<forall>n \<in> set (fl_nodes flow). cn_kind n \<noteq> MqttInput \<longrightarrow> cn_node_id n \<in> ge_to ` set (fl_edges flow)) \<and>
     (\<forall>n \<in> set (fl_nodes flow). cn_kind n \<noteq> MqttReply \<longrightarrow> cn_node_id n \<in> ge_from ` set (fl_edges flow)) \<and>
     acyclic (edge_rel (fl_edges flow)))"

lemma command_edges_lookup:
  assumes "distinct (map cn_node_id nodes)"
  shows "check_command_edges fid (map_of (map (\<lambda>n. (cn_node_id n, cn_kind n)) nodes)) es [] = Inr () \<longleftrightarrow>
    distinct (map ge_edge_id es) \<and> command_edges_ok nodes es"
  unfolding check_command_edges_iff command_edges_ok_def kind_lookup [OF assms] by simp blast

lemma command_edges_ends:
  "command_edges_ok nodes edges \<Longrightarrow> \<forall>e \<in> set edges. ge_from e \<in> set (map cn_node_id nodes) \<and> ge_to e \<in> set (map cn_node_id nodes)"
  by (force simp: command_edges_ok_def)

lemma command_graph_checks:
  assumes "distinct (map cn_node_id nodes)" "command_edges_ok nodes edges"
  shows "(case find (\<lambda>n. cn_kind n \<noteq> MqttInput \<and>
             (case map_of (indegrees (map cn_node_id nodes) edges) (cn_node_id n) of Some c \<Rightarrow> c | None \<Rightarrow> 0) = 0) nodes of
          Some n \<Rightarrow> Inl (up n)
        | None \<Rightarrow> (case find (\<lambda>n. cn_kind n \<noteq> MqttReply \<and> cn_node_id n \<notin> set (map ge_from edges)) nodes of
              Some n \<Rightarrow> Inl (down n)
            | None \<Rightarrow> check_acyclic subject (map cn_node_id nodes) edges)) = Inr () \<longleftrightarrow>
     (\<forall>n \<in> set nodes. cn_kind n \<noteq> MqttInput \<longrightarrow> cn_node_id n \<in> ge_to ` set edges) \<and>
     (\<forall>n \<in> set nodes. cn_kind n \<noteq> MqttReply \<longrightarrow> cn_node_id n \<in> ge_from ` set edges) \<and> acyclic (edge_rel edges)"
proof -
  note ends = command_edges_ends [OF assms(2)]
  have to: "\<forall>e \<in> set edges. ge_to e \<in> set (map cn_node_id nodes)" using ends by blast
  have up: "(case map_of (indegrees (map cn_node_id nodes) edges) (cn_node_id n) of Some c \<Rightarrow> c | None \<Rightarrow> 0) = 0 \<longleftrightarrow>
      cn_node_id n \<notin> ge_to ` set edges" if "n \<in> set nodes" for n
    by (rule no_upstream_iff [OF to]) (use that in simp)
  show ?thesis unfolding find_guard check_acyclic_iff [OF ends assms(1)] using up by auto
qed

lemma ex_unit: "(\<exists>x :: unit. P x) \<longleftrightarrow> P ()"
  by auto

lemma validate_command_flow_iff: "validate_command_flow js flow ms = Inr () \<longleftrightarrow> command_flow_ok js flow ms"
proof -
  let ?nodes = "fl_nodes flow" and ?edges = "fl_edges flow"
  have header: "check_flow_header flow = Inr () \<longleftrightarrow>
      (\<forall>s \<in> {fl_flow_id flow, fl_mqtt_connection_id flow, fl_subscribe_topic flow, fl_reply_topic_template flow}. trim s \<noteq> []) \<and>
      fl_qos flow \<le> 2 \<and> ?nodes \<noteq> []"
    unfolding check_flow_header_def if_Inl_Inr by auto
  show ?thesis
  proof (cases "distinct (map cn_node_id ?nodes) \<and> command_edges_ok ?nodes ?edges")
    case True
    note * = command_graph_checks [OF conjunct1 [OF True] conjunct2 [OF True]]
    show ?thesis
      unfolding validate_command_flow_def Let_def rbind_Inr ex_unit check_command_nodes_iff check_required_kinds_iff header *
        command_flow_ok_def
      using True command_edges_lookup [OF conjunct1 [OF True]] by auto
  next
    case False
    then have "\<not> command_flow_ok js flow ms" unfolding command_flow_ok_def by blast
    moreover have "validate_command_flow js flow ms \<noteq> Inr ()"
      unfolding validate_command_flow_def Let_def rbind_Inr ex_unit check_command_nodes_iff
      using False command_edges_lookup [of ?nodes] by auto
    ultimately show ?thesis by blast
  qed
qed

text \<open>
  C14. A command flow is accepted exactly when it is well formed: named header fields, a QoS of at most
  two, unique nodes and edges, every write and safety node acceptable, an input, a write and a reply,
  no edge into an input or out of a reply, every other node with predecessor and successor, and no cycle.
\<close>

theorem validate_command_flow_correct: "validate_command_flow js flow ms = Inr () \<longleftrightarrow> command_flow_ok js flow ms"
  by (rule validate_command_flow_iff)

lemma check_write_node_target:
  assumes "check_write_node js flow ms n = Inr ()"
  shows "\<exists>m \<in> set ms. pm_point_id m = node_ref n \<and> is_writable (pm_access m) \<and>
    validate_point_access (pm_address m) (pm_access m) = Inr () \<and>
    (fl_protocol_connection_id flow = [] \<or> pm_protocol_connection_id m = fl_protocol_connection_id flow)"
proof -
  from assms obtain m where m: "mapping_by_id ms (node_ref n) = Some m" "is_writable (pm_access m)"
      "validate_point_access (pm_address m) (pm_access m) = Inr ()"
      "fl_protocol_connection_id flow = [] \<or> pm_protocol_connection_id m = fl_protocol_connection_id flow"
    by (auto simp: check_write_node_def Let_def rbind_Inr split: option.splits if_splits)
  from map_of_SomeD [OF m(1) [unfolded mapping_by_id_def]] m(2-) show ?thesis by auto
qed

text \<open>
  C34. In an accepted command flow every node lies on a path from an MQTT input to an MQTT reply, and
  every write node targets a configured point that is writable, whose protocol allows writes, and that
  belongs to the flow's protocol connection when the flow names one.
\<close>

theorem accepted_flow_connects_input_and_reply:
  assumes "validate_command_flow js flow ms = Inr ()" "n \<in> set (fl_nodes flow)"
  shows "(\<exists>i \<in> set (fl_nodes flow). cn_kind i = MqttInput \<and> (cn_node_id i, cn_node_id n) \<in> (edge_rel (fl_edges flow))\<^sup>*) \<and>
    (\<exists>r \<in> set (fl_nodes flow). cn_kind r = MqttReply \<and> (cn_node_id n, cn_node_id r) \<in> (edge_rel (fl_edges flow))\<^sup>*) \<and>
    (cn_kind n = PointWrite \<longrightarrow> (\<exists>m \<in> set ms. pm_point_id m = node_ref n \<and> is_writable (pm_access m) \<and>
       validate_point_access (pm_address m) (pm_access m) = Inr () \<and>
       (fl_protocol_connection_id flow = [] \<or> pm_protocol_connection_id m = fl_protocol_connection_id flow)))"
proof -
  let ?ids = "cn_node_id ` set (fl_nodes flow)" and ?edges = "fl_edges flow"
  have ok: "command_flow_ok js flow ms" using assms(1) validate_command_flow_iff by blast
  then have ac: "acyclic (edge_rel ?edges)" and node: "command_node_ok js flow ms n"
      and ends: "\<forall>e \<in> set ?edges. ge_from e \<in> ?ids \<and> ge_to e \<in> ?ids"
    using assms(2) command_edges_ends [of "fl_nodes flow" ?edges] by (auto simp: command_flow_ok_def)
  define source where "source = (\<lambda>v. \<exists>i \<in> set (fl_nodes flow). cn_node_id i = v \<and> cn_kind i = MqttInput)"
  define sink where "sink = (\<lambda>v. \<exists>i \<in> set (fl_nodes flow). cn_node_id i = v \<and> cn_kind i = MqttReply)"
  have "\<forall>v \<in> ?ids. \<not> source v \<longrightarrow> (\<exists>e \<in> set ?edges. ge_to e = v)"
    using ok unfolding command_flow_ok_def source_def by fastforce
  from reached_from_source [OF ac _ this, of "cn_node_id n"] assms(2) ends
  have "\<exists>u. source u \<and> (u, cn_node_id n) \<in> (edge_rel ?edges)\<^sup>*" by blast
  moreover have "\<forall>v \<in> ?ids. \<not> sink v \<longrightarrow> (\<exists>e \<in> set ?edges. ge_from e = v)"
    using ok unfolding command_flow_ok_def sink_def by fastforce
  from reaches_sink [OF ac _ this, of "cn_node_id n"] assms(2) ends
  have "\<exists>w. sink w \<and> (cn_node_id n, w) \<in> (edge_rel ?edges)\<^sup>*" by blast
  ultimately show ?thesis
    using check_write_node_target node unfolding source_def sink_def command_node_ok_def by blast
qed

definition example_flow :: "unit command_flow" where
  "example_flow = (command_flow_new ''start-pump'' ''Start pump'' ''broker'' ''cmd'' ''reply'')
     \<lparr>fl_nodes := [command_node_new ''receive'' MqttInput ''in'',
        (command_node_new ''write'' PointWrite ''write'')\<lparr>cn_ref_id := Some ''p1''\<rparr>,
        command_node_new ''ack'' MqttReply ''out''],
      fl_edges := [edge_new ''e1'' ''receive'' ''write'', edge_new ''e2'' ''write'' ''ack'']\<rparr>"

definition example_mapping :: telemetry_point_mapping where
  "example_mapping = (mapping_new ''p1'' ''d1'' ''s1'' ''c1'' \<lparr>pa_kind = ''holding_register'', pa_value = ''1'', pa_modbus = None\<rparr> TyBoolean)
     \<lparr>pm_access := ReadWrite\<rparr>"

lemma example_flow_ok: "validate_command_flow js example_flow [example_mapping] = Inr ()"
proof -
  have "acyclic (edge_rel (fl_edges example_flow))"
    by (rule acyclicI_order [where f = length]) (auto simp: edge_rel_def example_flow_def command_flow_new_def edge_new_def)
  then show ?thesis
    unfolding validate_command_flow_iff
    by (simp add: command_flow_ok_def command_edges_ok_def example_flow_def command_flow_new_def command_node_new_def
        edge_new_def trim_plain command_node_ok_def check_write_node_def mapping_by_id_def node_ref_def
        example_mapping_def mapping_new_def is_writable_def validate_point_access_def
        check_write_params_def verification_param_def)
qed

theorem accepted_flow_connects_input_and_reply_witness:
  "(\<exists>m \<in> set [example_mapping]. pm_point_id m = ''p1'' \<and> is_writable (pm_access m)) \<and>
   (''write'', ''ack'') \<in> (edge_rel (fl_edges example_flow))\<^sup>*"
proof -
  let ?n = "(command_node_new ''write'' PointWrite ''write'')\<lparr>cn_ref_id := Some ''p1''\<rparr> :: unit command_node"
  have "?n \<in> set (fl_nodes example_flow)" by (simp add: example_flow_def)
  from accepted_flow_connects_input_and_reply [OF example_flow_ok this] show ?thesis
    by (auto simp: example_flow_def command_node_new_def node_ref_def)
qed

section \<open>The validators return\<close>

lemma rbind_returns: "m \<noteq> Inl e \<Longrightarrow> (\<And>x. f x \<noteq> Inl e) \<Longrightarrow> rbind m f \<noteq> Inl e"
  by (cases m) auto

lemma check_acyclic_returns:
  assumes "\<forall>e \<in> set edges. ge_from e \<in> set ids \<and> ge_to e \<in> set ids" "distinct ids"
  shows "check_acyclic subject ids edges \<in> {Inr (), Inl (subject @ '' graph contains a cycle'')}"
  using visited_nodes_correct [OF assms] by (auto simp: check_acyclic_def)

lemma data_checks_return:
  "check_data_nodes cid points ns kinds \<noteq> Inl ''panic''"
  "check_data_edges cid kinds' es seen \<noteq> Inl ''panic''"
proof -
  show "check_data_nodes cid points ns kinds \<noteq> Inl ''panic''" by (induction ns arbitrary: kinds) auto
  show "check_data_edges cid kinds' es seen \<noteq> Inl ''panic''"
    by (induction es arbitrary: seen) (auto split: option.splits)
qed

lemma node_checks_return:
  "check_write_node js flow ms n \<noteq> Inl ''panic''" "check_safety_node js flow n \<noteq> Inl ''panic''"
proof -
  show "check_write_node js flow ms n \<noteq> Inl ''panic''"
    by (simp add: check_write_node_def check_write_params_def Let_def rbind_Inl validate_point_access_def split: option.splits)
  show "check_safety_node js flow n \<noteq> Inl ''panic''"
    unfolding check_safety_node_def Let_def
    by (intro rbind_returns) (auto simp: positive_param_def rbind_Inl split: option.splits)
qed

lemma command_checks_return:
  "check_flow_header flow \<noteq> Inl ''panic''" "check_command_nodes js flow ms ns kinds \<noteq> Inl ''panic''"
  "check_required_kinds fid ns ks \<noteq> Inl ''panic''" "check_command_edges fid kinds' es seen \<noteq> Inl ''panic''"
proof -
  show "check_flow_header flow \<noteq> Inl ''panic''" by (simp add: check_flow_header_def)
  show "check_command_nodes js flow ms ns kinds \<noteq> Inl ''panic''"
    by (induction ns arbitrary: kinds) (auto simp: rbind_Inl node_checks_return split: if_splits)
  show "check_required_kinds fid ns ks \<noteq> Inl ''panic''" by (induction ks) auto
  show "check_command_edges fid kinds' es seen \<noteq> Inl ''panic''"
    by (induction es arbitrary: seen) (auto split: option.splits)
qed

lemma data_edges_ends:
  assumes "check_data_nodes cid points nodes Map.empty = Inr kinds" "check_data_edges cid kinds edges [] = Inr ()"
  shows "distinct (map gn_node_id nodes) \<and>
    (\<forall>e \<in> set edges. ge_from e \<in> set (map gn_node_id nodes) \<and> ge_to e \<in> set (map gn_node_id nodes))"
  using assms unfolding check_data_nodes_iff check_data_edges_iff by (force dest: map_of_SomeD)

lemma validate_data_returns: "validate_data_config_visual_graph cfg \<noteq> Inl ''panic''"
proof
  assume "validate_data_config_visual_graph cfg = Inl ''panic''"
  then obtain kinds where k: "check_data_nodes (cf_config_id cfg) (cf_points cfg) (dg_nodes (cf_visual_graph cfg)) Map.empty = Inr kinds"
      "check_data_edges (cf_config_id cfg) kinds (dg_edges (cf_visual_graph cfg)) [] = Inr ()"
      and c: "check_acyclic (''data config '' @ cf_config_id cfg) (map gn_node_id (dg_nodes (cf_visual_graph cfg)))
        (dg_edges (cf_visual_graph cfg)) = Inl ''panic''"
    by (auto simp: validate_data_config_visual_graph_def Let_def rbind_Inl data_checks_return split: if_splits option.splits)
  from check_acyclic_returns [OF conjunct2 [OF data_edges_ends [OF k]] conjunct1 [OF data_edges_ends [OF k]],
      of "''data config '' @ cf_config_id cfg"] c
  show False by simp
qed

lemma validate_command_flow_returns: "validate_command_flow js flow ms \<noteq> Inl ''panic''"
proof
  let ?nodes = "fl_nodes flow" and ?edges = "fl_edges flow"
  assume "validate_command_flow js flow ms = Inl ''panic''"
  then obtain kinds where k: "check_command_nodes js flow ms ?nodes Map.empty = Inr kinds"
      "check_command_edges (fl_flow_id flow) kinds ?edges [] = Inr ()"
      and c: "check_acyclic (''command flow '' @ fl_flow_id flow) (map cn_node_id ?nodes) ?edges = Inl ''panic''"
    by (simp add: validate_command_flow_def Let_def rbind_Inl command_checks_return del: check_required_kinds.simps
        split: if_splits option.splits)
  from k(1) have d: "distinct (map cn_node_id ?nodes)" "kinds = map_of (map (\<lambda>n. (cn_node_id n, cn_kind n)) ?nodes)"
    unfolding check_command_nodes_iff by simp_all
  with k(2) command_edges_lookup [OF d(1)] have "command_edges_ok ?nodes ?edges" by simp
  from check_acyclic_returns [OF command_edges_ends [OF this] d(1), of "''command flow '' @ fl_flow_id flow"] c
  show False by simp
qed

text \<open>
  C35. Both validators return: the cycle check terminates, finds every edge end among the counted nodes
  and never counts below zero, so none of the unwraps in its loop panics.
\<close>

theorem graph_validators_return:
  "validate_data_config_visual_graph cfg \<noteq> Inl ''panic'' \<and> validate_command_flow js flow ms \<noteq> Inl ''panic''"
  using validate_data_returns validate_command_flow_returns by blast

end
