(* ===== verification/Plc_Points.thy ===== *)
theory Plc_Points
  imports Points
begin

text \<open>
  Point addresses of Siemens S7, Omron FINS and BACnet (crates/edge-core/src/config.rs): parsers,
  canonical texts and the checks of a point against its address. The text of an address is its UTF-8
  bytes, so that splitting it inside a character, which panics, is visible.
\<close>

section \<open>Text helpers\<close>

definition ascii_upper :: "char \<Rightarrow> char" where
  "ascii_upper c = (let n = of_char c :: nat in if 97 \<le> n \<and> n \<le> 122 then char_of (n - 32) else c)"

definition to_ascii_uppercase :: "string \<Rightarrow> string" where
  "to_ascii_uppercase s = map ascii_upper s"

definition is_char_boundary :: "string \<Rightarrow> nat \<Rightarrow> bool" where
  "is_char_boundary s i = (i = 0 \<or> i = length s \<or>
     (i < length s \<and> (let b = of_char (s ! i) :: nat in b < 128 \<or> 192 \<le> b)))"

definition str_split_at :: "nat \<Rightarrow> string \<Rightarrow> string + string \<times> string" where
  "str_split_at i s = (if is_char_boundary s i then Inr (take i s, drop i s) else Inl ''panic'')"

section \<open>Siemens S7\<close>

datatype s7_area = DataBlock | Marker | ProcessInput | ProcessOutput

definition s7_protocol_writable :: "s7_area \<Rightarrow> bool" where
  "s7_protocol_writable a = (a \<noteq> ProcessInput)"

datatype s7_data_type = S7Bit | S7Byte | S7Word | S7DWord | S7Int | S7DInt | S7Real

definition s7_byte_width :: "s7_data_type \<Rightarrow> u16" where
  "s7_byte_width t = (case t of
       S7Bit \<Rightarrow> 1 | S7Byte \<Rightarrow> 1 | S7Word \<Rightarrow> 2 | S7Int \<Rightarrow> 2 | S7DWord \<Rightarrow> 4 | S7DInt \<Rightarrow> 4 | S7Real \<Rightarrow> 4)"

record s7_point_address =
  s7_area :: s7_area
  s7_db_number :: u16
  s7_byte_offset :: u32
  s7_bit_offset :: "u8 option"
  s7_data_type :: s7_data_type

definition s7_bit_text :: "s7_point_address \<Rightarrow> string" where
  "s7_bit_text a = show_nat (unat (s7_byte_offset a)) @ ''.'' @
     show_nat (unat (case s7_bit_offset a of Some b \<Rightarrow> b | None \<Rightarrow> 0))"

definition s7_canonical :: "s7_point_address \<Rightarrow> string" where
  "s7_canonical a = (
     let offset = show_nat (unat (s7_byte_offset a)); db = ''DB'' @ show_nat (unat (s7_db_number a)) in
     case s7_area a of
       DataBlock \<Rightarrow> (case s7_data_type a of
           S7Bit \<Rightarrow> db @ ''.DBX'' @ s7_bit_text a
         | S7Byte \<Rightarrow> db @ ''.DBB'' @ offset | S7Word \<Rightarrow> db @ ''.DBW'' @ offset
         | S7DWord \<Rightarrow> db @ ''.DBD'' @ offset | S7Int \<Rightarrow> db @ ''.INT'' @ offset
         | S7DInt \<Rightarrow> db @ ''.DINT'' @ offset | S7Real \<Rightarrow> db @ ''.REAL'' @ offset)
     | _ \<Rightarrow> (let area = (case s7_area a of Marker \<Rightarrow> ''M'' | ProcessInput \<Rightarrow> ''I'' | _ \<Rightarrow> ''Q'') in
         case s7_data_type a of
           S7Bit \<Rightarrow> area @ s7_bit_text a
         | S7Byte \<Rightarrow> area @ ''B'' @ offset
         | S7Word \<Rightarrow> area @ ''W'' @ offset | S7Int \<Rightarrow> area @ ''W'' @ offset
         | S7DWord \<Rightarrow> area @ ''D'' @ offset | S7DInt \<Rightarrow> area @ ''D'' @ offset | S7Real \<Rightarrow> area @ ''D'' @ offset))"

definition parse_s7_typed_offset :: "string \<Rightarrow> (string \<times> s7_data_type) list \<Rightarrow> string + s7_data_type \<times> string" where
  "parse_s7_typed_offset s prefixes =
     ok_or (''unsupported Siemens S7 point type in address: '' @ s)
       (find_map (\<lambda>(p, t). map_option (\<lambda>offset. (t, offset)) (strip_prefix p s)) prefixes)"

definition parse_s7_offset :: "string \<Rightarrow> s7_data_type \<Rightarrow> string + u32 \<times> u8 option" where
  "parse_s7_offset s t =
     (if t = S7Bit
      then rbind (ok_or ''Siemens S7 bit address must include byte and bit offsets, for example M0.0''
               (split_once (CHR ''.'') s)) (\<lambda>(byte, bit).
        rbind (ok_or ''invalid Siemens S7 byte offset'' (parse_u32 byte)) (\<lambda>byte_offset.
        rbind (ok_or ''invalid Siemens S7 bit offset'' (parse_u8 bit)) (\<lambda>bit_offset.
          if bit_offset > 7 then Inl ''Siemens S7 bit offset must be between 0 and 7''
          else Inr (byte_offset, Some bit_offset))))
      else rbind (ok_or ''invalid Siemens S7 byte offset'' (parse_u32 s)) (\<lambda>byte_offset. Inr (byte_offset, None)))"

definition s7_db_types :: "(string \<times> s7_data_type) list" where
  "s7_db_types = [(''DBX'', S7Bit), (''DBB'', S7Byte), (''DBW'', S7Word), (''DBD'', S7DWord),
     (''DINT'', S7DInt), (''INT'', S7Int), (''REAL'', S7Real)]"

definition s7_area_types :: "(string \<times> s7_data_type) list" where
  "s7_area_types = [(''X'', S7Bit), (''B'', S7Byte), (''W'', S7Word), (''D'', S7DWord)]"

definition s7_area_of :: "string \<Rightarrow> s7_area option" where
  "s7_area_of p = (if p = ''M'' then Some Marker else if p = ''I'' then Some ProcessInput
     else if p = ''Q'' then Some ProcessOutput else None)"

definition parse_s7_data_block :: "string \<Rightarrow> string + s7_point_address" where
  "parse_s7_data_block rest =
     rbind (ok_or ''Siemens S7 DB address must use DB<number>.<type><offset>'' (split_once (CHR ''.'') rest)) (\<lambda>(db, typed).
     rbind (ok_or ''Siemens S7 DB number must be between 0 and 65535'' (parse_u16 db)) (\<lambda>db_number.
     rbind (parse_s7_typed_offset typed s7_db_types) (\<lambda>(t, offset).
     rbind (parse_s7_offset offset t) (\<lambda>(byte_offset, bit_offset).
       Inr \<lparr>s7_area = DataBlock, s7_db_number = db_number, s7_byte_offset = byte_offset,
            s7_bit_offset = bit_offset, s7_data_type = t\<rparr>))))"

definition parse_siemens_s7_point_address :: "string \<Rightarrow> string + s7_point_address" where
  "parse_siemens_s7_point_address value0 = (
     let s = to_ascii_uppercase (trim value0) in
     if s = [] \<or> has_whitespace s then Inl ''Siemens S7 point address cannot be empty or contain spaces''
     else (case strip_prefix ''DB'' s of
         Some rest \<Rightarrow> parse_s7_data_block rest
       | None \<Rightarrow>
           rbind (str_split_at 1 s) (\<lambda>(p, rest).
           rbind (ok_or ''Siemens S7 point area must be DB, M (marker), I (input) or Q (output)'' (s7_area_of p)) (\<lambda>area.
           rbind (if rest \<noteq> [] \<and> is_ascii_digit (hd rest) then Inr (S7Bit, rest)
                  else parse_s7_typed_offset rest s7_area_types) (\<lambda>(t, offset).
           rbind (parse_s7_offset offset t) (\<lambda>(byte_offset, bit_offset).
             Inr \<lparr>s7_area = area, s7_db_number = 0, s7_byte_offset = byte_offset,
                  s7_bit_offset = bit_offset, s7_data_type = t\<rparr>))))))"

definition validate_siemens_s7_point ::
  "point_address \<Rightarrow> telemetry_type \<Rightarrow> point_access \<Rightarrow> string + s7_point_address" where
  "validate_siemens_s7_point addr ty access =
     (if pa_kind addr \<noteq> ''s7_address'' then Inl ''Siemens S7 address kind must be `s7_address`''
      else if pa_modbus addr \<noteq> None then Inl ''Siemens S7 points cannot define Modbus decoding options''
      else rbind (parse_siemens_s7_point_address (pa_value addr)) (\<lambda>a.
        if \<not> (case ty of
                TyBoolean \<Rightarrow> s7_data_type a = S7Bit
              | TyFloat \<Rightarrow> s7_data_type a \<in> {S7Real, S7DWord}
              | TyInteger \<Rightarrow> s7_data_type a \<in> {S7Byte, S7Word, S7DWord, S7Int, S7DInt}
              | TyText \<Rightarrow> False)
        then Inl (''Siemens S7 address '' @ s7_canonical a @ '' is incompatible with telemetry type ''
               @ debug_telemetry_type ty)
        else if is_writable access \<and> \<not> s7_protocol_writable (s7_area a)
        then Inl ''Siemens S7 process input (I) points are protocol-level read-only''
        else Inr a))"

section \<open>Omron FINS\<close>

datatype fins_area = Cio | WorkArea | Holding | DataMemory | Auxiliary

definition fins_prefix :: "fins_area \<Rightarrow> string" where
  "fins_prefix a = (case a of
       Cio \<Rightarrow> ''CIO'' | WorkArea \<Rightarrow> ''W'' | Holding \<Rightarrow> ''H'' | DataMemory \<Rightarrow> ''D'' | Auxiliary \<Rightarrow> ''A'')"

definition supports_bit_access :: "fins_area \<Rightarrow> bool" where
  "supports_bit_access a = (a \<noteq> DataMemory)"

definition word_capacity :: "fins_area \<Rightarrow> u16" where
  "word_capacity a = (case a of
       Cio \<Rightarrow> 4096 | DataMemory \<Rightarrow> 4096 | WorkArea \<Rightarrow> 512 | Holding \<Rightarrow> 512 | Auxiliary \<Rightarrow> 1024)"

record fins_point_address =
  fa_area :: fins_area
  fa_word :: u16
  fa_bit :: "u8 option"

definition fins_canonical :: "fins_point_address \<Rightarrow> string" where
  "fins_canonical a = (case fa_bit a of
       Some b \<Rightarrow> fins_prefix (fa_area a) @ show_nat (unat (fa_word a)) @ ''.'' @ show_nat (unat b)
     | None \<Rightarrow> fins_prefix (fa_area a) @ show_nat (unat (fa_word a)))"

definition fins_prefixes :: "(string \<times> fins_area) list" where
  "fins_prefixes = [(''CIO'', Cio), (''WR'', WorkArea), (''HR'', Holding), (''DM'', DataMemory), (''AR'', Auxiliary),
     (''W'', WorkArea), (''H'', Holding), (''D'', DataMemory), (''A'', Auxiliary)]"

definition parse_fins_bit :: "string \<Rightarrow> string + string \<times> u8 option" where
  "parse_fins_bit rest = (case split_once (CHR ''.'') rest of
       Some (w, tail) \<Rightarrow>
         if CHR ''.'' \<in> set tail then Inl ''Omron FINS bit address contains too many separators''
         else rbind (ok_or ''Omron FINS bit must be between 0 and 15'' (parse_u8 tail)) (\<lambda>b.
           if b > 15 then Inl ''Omron FINS bit must be between 0 and 15'' else Inr (w, Some b))
     | None \<Rightarrow> Inr (rest, None))"

definition parse_omron_fins_point_address :: "string \<Rightarrow> string + fins_point_address" where
  "parse_omron_fins_point_address value0 = (
     let s = filter (\<lambda>c. c \<noteq> CHR '' '') (to_ascii_uppercase (trim value0)) in
     rbind (ok_or ''Omron FINS address must use CIO, W/WR, H/HR, D/DM or A/AR area''
         (find_map (\<lambda>(p, area). map_option (\<lambda>rest. (area, rest)) (strip_prefix p s)) fins_prefixes)) (\<lambda>(area, rest).
     if rest = [] then Inl ''Omron FINS address requires a word number''
     else rbind (parse_fins_bit rest) (\<lambda>(w, bit).
     rbind (ok_or ''Omron FINS word address must be a non-negative integer'' (parse_u16 w)) (\<lambda>word.
     if word \<ge> word_capacity area
     then Inl (''Omron FINS '' @ fins_prefix area @ '' address must be below '' @ show_nat (unat (word_capacity area)))
     else if bit \<noteq> None \<and> \<not> supports_bit_access area then Inl ''Omron FINS DM area does not support bit access''
     else Inr \<lparr>fa_area = area, fa_word = word, fa_bit = bit\<rparr>))))"

definition validate_omron_fins_point ::
  "point_address \<Rightarrow> telemetry_type \<Rightarrow> point_access \<Rightarrow> string + fins_point_address" where
  "validate_omron_fins_point addr ty access =
     rbind (validate_point_access addr access) (\<lambda>_.
     if pa_kind addr \<noteq> ''fins_address'' then Inl ''Omron FINS points must use fins_address kind''
     else if pa_modbus addr \<noteq> None then Inl ''Omron FINS points cannot define Modbus decoding options''
     else rbind (parse_omron_fins_point_address (pa_value addr)) (\<lambda>a.
       rbind (case fa_bit a of
           Some _ \<Rightarrow> if ty = TyBoolean then Inr () else Inl ''Omron FINS bit addresses require boolean telemetry type''
         | None \<Rightarrow> (case ty of
               TyInteger \<Rightarrow> Inr () | TyFloat \<Rightarrow> Inr ()
             | TyBoolean \<Rightarrow> Inl ''Omron FINS boolean points require a bit address such as CIO0.05''
             | TyText \<Rightarrow> Inl ''Omron FINS text points are not supported in this runtime version'')) (\<lambda>_.
       if saturating_add (fa_word a) (if ty = TyFloat then 2 else 1) > word_capacity (fa_area a)
       then Inl (''Omron FINS point '' @ fins_canonical a @ '' exceeds the '' @ fins_prefix (fa_area a) @ '' area boundary'')
       else Inr a)))"

section \<open>BACnet\<close>

record bacnet_point_address =
  ba_device_instance :: u32
  ba_object_type :: u32
  ba_object_instance :: u32
  ba_property_identifier :: u32
  ba_array_index :: "u32 option"

text \<open>Object types and properties with their numbers; the display names are left out.\<close>

record bacnet_object_template =
  bt_object_type :: string
  bt_raw_value :: u32
  bt_writable :: bool

definition bacnet_object_templates :: "bacnet_object_template list" where
  "bacnet_object_templates = map (\<lambda>(n, r, w). \<lparr>bt_object_type = n, bt_raw_value = r, bt_writable = w\<rparr>)
     [(''analog_input'', 0, False), (''analog_output'', 1, True), (''analog_value'', 2, True),
      (''binary_input'', 3, False), (''binary_output'', 4, True), (''binary_value'', 5, True), (''device'', 8, False),
      (''multi_state_input'', 13, False), (''multi_state_output'', 14, True), (''multi_state_value'', 19, True),
      (''accumulator'', 23, False)]"

definition bacnet_property_templates :: "(string \<times> u32) list" where
  "bacnet_property_templates = [(''present_value'', 85), (''status_flags'', 111), (''units'', 117),
     (''object_name'', 77), (''description'', 28), (''out_of_service'', 81), (''reliability'', 103)]"

definition parse_bacnet_number :: "string \<Rightarrow> string \<Rightarrow> string + u32" where
  "parse_bacnet_number s field = ok_or (''invalid BACnet '' @ field @ '': '' @ s) (parse_u32 s)"

definition bacnet_object_type_raw :: "string \<Rightarrow> string + u32" where
  "bacnet_object_type_raw s = ok_or (''unsupported BACnet object type: '' @ s)
     (case find (\<lambda>t. eq_ignore_ascii_case (bt_object_type t) s) bacnet_object_templates of
        Some t \<Rightarrow> Some (bt_raw_value t) | None \<Rightarrow> parse_u32 s)"

definition bacnet_property_raw :: "string \<Rightarrow> string + u32" where
  "bacnet_property_raw s = ok_or (''unsupported BACnet property: '' @ s)
     (case find (\<lambda>(p, _). eq_ignore_ascii_case p s) bacnet_property_templates of
        Some (_, r) \<Rightarrow> Some r | None \<Rightarrow> parse_u32 s)"

definition parse_bacnet_point_address :: "string \<Rightarrow> string + bacnet_point_address" where
  "parse_bacnet_point_address s = (
     let parts = map trim (split_on (CHR '':'') s) in
     if \<not> (4 \<le> length parts \<and> length parts \<le> 5)
     then Inl ''BACnet point address must be device:object_type:object_instance:property[:array_index]''
     else rbind (parse_bacnet_number (parts ! 0) ''device instance'') (\<lambda>device.
       rbind (bacnet_object_type_raw (parts ! 1)) (\<lambda>object_type.
       rbind (parse_bacnet_number (parts ! 2) ''object instance'') (\<lambda>object_instance.
       rbind (bacnet_property_raw (parts ! 3)) (\<lambda>property.
       rbind (if length parts = 5
              then rbind (parse_bacnet_number (parts ! 4) ''array index'') (\<lambda>i. Inr (Some i))
              else Inr None) (\<lambda>index.
         if device > 4194302 \<or> object_instance > 4194302
         then Inl ''BACnet device and object instances must be between 0 and 4194302''
         else if object_type > 1023 then Inl ''BACnet object type must be between 0 and 1023''
         else if property > 4194303 then Inl ''BACnet property identifier must be between 0 and 4194303''
         else Inr \<lparr>ba_device_instance = device, ba_object_type = object_type, ba_object_instance = object_instance,
                   ba_property_identifier = property, ba_array_index = index\<rparr>))))))"

definition bacnet_write_type :: "u32 \<Rightarrow> telemetry_type \<Rightarrow> string + unit" where
  "bacnet_write_type object_type ty =
     (if object_type \<in> {1, 2} \<and> ty = TyFloat \<or> object_type \<in> {4, 5} \<and> ty = TyBoolean
         \<or> object_type \<in> {14, 19} \<and> ty = TyInteger then Inr ()
      else if object_type \<in> {0, 3, 13, 23}
      then Inl ''BACnet input and accumulator objects are protocol-level read-only''
      else if object_type \<in> {1, 2} then Inl ''BACnet analog command points must use float telemetry type''
      else if object_type \<in> {4, 5} then Inl ''BACnet binary command points must use boolean telemetry type''
      else if object_type \<in> {14, 19} then Inl ''BACnet multi-state command points must use integer telemetry type''
      else Inl ''BACnet object type is not supported for command writes'')"

definition validate_bacnet_point ::
  "point_address \<Rightarrow> telemetry_type \<Rightarrow> point_access \<Rightarrow> bacnet_point_options option \<Rightarrow> string + bacnet_point_address" where
  "validate_bacnet_point addr ty access options =
     (if pa_kind addr \<noteq> ''bacnet_object_property''
      then Inl ''BACnet points require bacnet_object_property address kind''
      else rbind (parse_bacnet_point_address (pa_value addr)) (\<lambda>a.
        rbind (case options of Some opts \<Rightarrow> bacnet_point_options_validate opts | None \<Rightarrow> Inr ()) (\<lambda>_.
          if \<not> is_writable access then Inr a
          else if ba_property_identifier a \<noteq> 85 then Inl ''writable BACnet points must target present_value''
          else if ba_array_index a \<noteq> None then Inl ''writable BACnet points cannot target an array element''
          else rbind (bacnet_write_type (ba_object_type a) ty) (\<lambda>_. Inr a))))"

section \<open>Canonical texts\<close>

text \<open>A plain text: printable ASCII without lower-case letters.\<close>

definition plain_text :: "string \<Rightarrow> bool" where
  "plain_text s = (\<forall>c \<in> set s. 32 < (of_char c :: nat) \<and> (of_char c :: nat) < 97)"

lemma plain_text_append [simp]: "plain_text (s @ t) \<longleftrightarrow> plain_text s \<and> plain_text t"
  by (auto simp: plain_text_def)

lemma plain_text_Cons [simp]:
  "plain_text (c # s) \<longleftrightarrow> 32 < (of_char c :: nat) \<and> (of_char c :: nat) < 97 \<and> plain_text s" "plain_text []"
  by (auto simp: plain_text_def)

lemma plain_show_nat [simp]: "plain_text (show_nat n)"
  using show_nat_digits [of n] by (auto simp: plain_text_def is_ascii_digit_def Let_def)

lemma plain_no_whitespace: "plain_text s \<Longrightarrow> \<not> has_whitespace s"
  unfolding has_whitespace_def plain_text_def list_ex_iff
  using ws_len_plain nth_mem by (fastforce simp: Cons_nth_drop_Suc [symmetric])

lemma plain_trim: "plain_text s \<Longrightarrow> to_ascii_uppercase (trim s) = s"
  using plain_no_whitespace [of s] trim_no_whitespace [of s]
  by (auto simp: to_ascii_uppercase_def ascii_upper_def Let_def plain_text_def intro!: map_idI)

lemma plain_filter: "plain_text s \<Longrightarrow> filter (\<lambda>c. c \<noteq> CHR '' '') s = s"
  by (auto simp: plain_text_def filter_id_conv)

lemma show_nat_no_dot: "CHR ''.'' \<notin> set (show_nat n)"
  using show_nat_digits [of n] by (auto simp: is_ascii_digit_def)

lemma split_show_nat: "split_once (CHR ''.'') (show_nat n @ CHR ''.'' # s) = Some (show_nat n, s)"
  by (rule split_once_sep) (rule show_nat_no_dot)

lemma split_show_nat_None: "split_once (CHR ''.'') (show_nat n) = None"
  by (simp add: split_once_None show_nat_no_dot)

lemma hd_show_nat: "is_ascii_digit (hd (show_nat n))"
  by (rule bspec [OF show_nat_digits hd_in_set [OF show_nat_nonempty]])

lemma parse_s7_offset_text:
  "t \<noteq> S7Bit \<Longrightarrow> parse_s7_offset (show_nat (unat n)) t = Inr (n, None)"
  "b \<le> 7 \<Longrightarrow> parse_s7_offset (show_nat (unat n) @ CHR ''.'' # show_nat (unat b)) S7Bit = Inr (n, Some b)"
  by (simp_all add: parse_s7_offset_def split_show_nat parse_show_word)

text \<open>The addresses that the S7 parser produces.\<close>

definition s7_wf :: "s7_point_address \<Rightarrow> bool" where
  "s7_wf a = ((s7_area a = DataBlock \<or> s7_db_number a = 0 \<and> s7_data_type a \<in> {S7Bit, S7Byte, S7Word, S7DWord}) \<and>
     (if s7_data_type a = S7Bit then \<exists>b \<le> 7. s7_bit_offset a = Some b else s7_bit_offset a = None))"

lemma parse_s7_offset_shape:
  "parse_s7_offset s t = Inr (n, b) \<Longrightarrow> if t = S7Bit then \<exists>b' \<le> 7. b = Some b' else b = None"
  by (auto simp: parse_s7_offset_def result_simps split: if_splits)

lemma s7_area_type: "parse_s7_typed_offset s s7_area_types = Inr (t, r) \<Longrightarrow> t \<in> {S7Bit, S7Byte, S7Word, S7DWord}"
  by (auto simp: parse_s7_typed_offset_def s7_area_types_def result_simps split: option.splits)

lemma parse_s7_wf:
  assumes "parse_siemens_s7_point_address s = Inr a"
  shows "s7_wf a"
proof (cases "strip_prefix ''DB'' (to_ascii_uppercase (trim s))")
  case (Some rest)
  then have "parse_s7_data_block rest = Inr a"
    using assms by (simp add: parse_siemens_s7_point_address_def Let_def split: if_splits)
  then show ?thesis
    unfolding parse_s7_data_block_def s7_wf_def by (auto simp: result_simps dest: parse_s7_offset_shape split: prod.splits)
next
  case None
  then show ?thesis
    using assms unfolding s7_wf_def parse_siemens_s7_point_address_def
    by (auto simp: Let_def result_simps dest: parse_s7_offset_shape s7_area_type split: prod.splits if_splits)
qed

lemma s7_canonical_plain: "plain_text (s7_canonical a)"
  by (simp add: s7_canonical_def s7_bit_text_def Let_def split: s7_area.split s7_data_type.split)

lemma s7_area_text:
  assumes "s7_wf a" "s7_area a \<noteq> DataBlock"
  shows "\<exists>p rest offset. s7_canonical a = p # rest \<and> p \<noteq> CHR ''D'' \<and> s7_area_of [p] = Some (s7_area a) \<and>
    (if rest \<noteq> [] \<and> is_ascii_digit (hd rest) then Inr (S7Bit, rest)
     else parse_s7_typed_offset rest s7_area_types) = Inr (s7_data_type a, offset) \<and>
    parse_s7_offset offset (s7_data_type a) = Inr (s7_byte_offset a, s7_bit_offset a)"
proof -
  define area where "area = (case s7_area a of Marker \<Rightarrow> CHR ''M'' | ProcessInput \<Rightarrow> CHR ''I'' | _ \<Rightarrow> CHR ''Q'')"
  define rest where "rest = (case s7_data_type a of S7Bit \<Rightarrow> s7_bit_text a
    | S7Byte \<Rightarrow> ''B'' @ show_nat (unat (s7_byte_offset a)) | S7Word \<Rightarrow> ''W'' @ show_nat (unat (s7_byte_offset a))
    | _ \<Rightarrow> ''D'' @ show_nat (unat (s7_byte_offset a)))"
  have canon: "s7_canonical a = area # rest"
    using assms by (auto simp: s7_canonical_def area_def rest_def s7_wf_def split: s7_area.split s7_data_type.split)
  have area: "area \<noteq> CHR ''D''" "s7_area_of [area] = Some (s7_area a)"
    using assms(2) by (auto simp: area_def s7_area_of_def split: s7_area.split)
  have "\<exists>offset. (if rest \<noteq> [] \<and> is_ascii_digit (hd rest) then Inr (S7Bit, rest)
     else parse_s7_typed_offset rest s7_area_types) = Inr (s7_data_type a, offset) \<and>
    parse_s7_offset offset (s7_data_type a) = Inr (s7_byte_offset a, s7_bit_offset a)"
  proof (cases "s7_data_type a = S7Bit")
    case True
    then obtain b where b: "b \<le> 7" "s7_bit_offset a = Some b" using assms(1) by (auto simp: s7_wf_def)
    have "is_ascii_digit (hd rest) \<and> rest \<noteq> []" using True by (simp add: rest_def s7_bit_text_def hd_append hd_show_nat)
    moreover have "parse_s7_offset rest S7Bit = Inr (s7_byte_offset a, s7_bit_offset a)"
      using True b parse_s7_offset_text(2) [OF b(1)] by (simp add: rest_def s7_bit_text_def)
    ultimately show ?thesis using True by simp
  next
    case False
    then have "s7_data_type a \<in> {S7Byte, S7Word, S7DWord}" "s7_bit_offset a = None"
      using assms by (auto simp: s7_wf_def)
    then show ?thesis
      using parse_s7_offset_text(1) [OF False]
      by (auto simp: rest_def is_ascii_digit_def parse_s7_typed_offset_def s7_area_types_def strip_prefix_def)
  qed
  with canon area show ?thesis by blast
qed

lemma parse_s7_canonical:
  assumes "s7_wf a"
  shows "parse_siemens_s7_point_address (s7_canonical a) = Inr a"
proof (cases "s7_area a = DataBlock")
  case True
  then obtain rest where "s7_canonical a = ''DB'' @ rest" "parse_s7_data_block rest = Inr a"
    using assms
    by (cases "s7_data_type a")
      (auto simp: s7_canonical_def s7_wf_def s7_bit_text_def parse_s7_data_block_def split_show_nat parse_show_word
        parse_s7_typed_offset_def s7_db_types_def strip_prefix_def parse_s7_offset_text)
  then show ?thesis
    using s7_canonical_plain [of a] by (simp add: parse_siemens_s7_point_address_def plain_trim plain_no_whitespace Let_def strip_prefix_def)
next
  case False
  then obtain p rest offset where s: "s7_canonical a = p # rest" "p \<noteq> CHR ''D''" "s7_area_of [p] = Some (s7_area a)"
      "(if rest \<noteq> [] \<and> is_ascii_digit (hd rest) then Inr (S7Bit, rest)
        else parse_s7_typed_offset rest s7_area_types) = Inr (s7_data_type a, offset)"
      "parse_s7_offset offset (s7_data_type a) = Inr (s7_byte_offset a, s7_bit_offset a)"
    using s7_area_text [OF assms] by blast
  have "plain_text (p # rest)" using s7_canonical_plain [of a] s(1) by simp
  then have "str_split_at 1 (p # rest) = Inr ([p], rest)"
    by (cases rest) (simp_all add: str_split_at_def is_char_boundary_def Let_def)
  moreover have "strip_prefix ''DB'' (p # rest) = None" using s(2) by (simp add: strip_prefix_def)
  ultimately show ?thesis
    using s False assms \<open>plain_text (p # rest)\<close>
    by (simp add: parse_siemens_s7_point_address_def plain_trim plain_no_whitespace Let_def s7_wf_def)
qed

definition fins_wf :: "fins_point_address \<Rightarrow> bool" where
  "fins_wf a = (fa_word a < word_capacity (fa_area a) \<and>
     (case fa_bit a of None \<Rightarrow> True | Some b \<Rightarrow> b \<le> 15 \<and> supports_bit_access (fa_area a)))"

lemma parse_fins_bit_shape: "parse_fins_bit s = Inr (w, b) \<Longrightarrow> case b of None \<Rightarrow> True | Some b' \<Rightarrow> b' \<le> 15"
  by (auto simp: parse_fins_bit_def result_simps split: option.splits if_splits)

lemma parse_fins_wf: "parse_omron_fins_point_address s = Inr a \<Longrightarrow> fins_wf a"
  unfolding parse_omron_fins_point_address_def fins_wf_def
  by (auto simp: Let_def result_simps dest!: parse_fins_bit_shape split: prod.splits if_splits option.splits)

lemma fins_prefix_found:
  "rest \<noteq> [] \<Longrightarrow> is_ascii_digit (hd rest) \<Longrightarrow>
   find_map (\<lambda>(p, area). map_option (\<lambda>rest. (area, rest)) (strip_prefix p (fins_prefix a @ rest))) fins_prefixes = Some (a, rest)"
  by (cases a; cases rest) (auto simp: fins_prefixes_def fins_prefix_def strip_prefix_def is_ascii_digit_def)

lemma parse_fins_canonical:
  assumes "fins_wf a"
  shows "parse_omron_fins_point_address (fins_canonical a) = Inr a"
proof -
  define rest where "rest = show_nat (unat (fa_word a)) @
    (case fa_bit a of Some b \<Rightarrow> CHR ''.'' # show_nat (unat b) | None \<Rightarrow> [])"
  have c: "fins_canonical a = fins_prefix (fa_area a) @ rest"
    by (simp add: fins_canonical_def rest_def split: option.split)
  have "plain_text (fins_canonical a)"
    unfolding c rest_def by (simp add: fins_prefix_def split: option.split fins_area.split)
  then have t: "filter (\<lambda>c. c \<noteq> CHR '' '') (to_ascii_uppercase (trim (fins_canonical a))) = fins_prefix (fa_area a) @ rest"
    using plain_filter by (simp add: plain_trim c)
  have r: "rest \<noteq> []" "is_ascii_digit (hd rest)" by (simp_all add: rest_def hd_append hd_show_nat)
  have "parse_fins_bit rest = Inr (show_nat (unat (fa_word a)), fa_bit a)"
    using assms show_nat_no_dot
    by (auto simp: rest_def parse_fins_bit_def split_show_nat split_show_nat_None parse_show_word fins_wf_def split: option.splits)
  then show ?thesis
    using assms r unfolding parse_omron_fins_point_address_def t
    by (auto simp: fins_prefix_found parse_show_word fins_wf_def split: option.splits)
qed

text \<open>
  C36. The canonical text of a Siemens S7 or Omron FINS address is parsed back to that address exactly
  for the addresses that the parser can produce.
\<close>

theorem plc_canonical_roundtrip:
  "((\<exists>s. parse_siemens_s7_point_address s = Inr a) \<longleftrightarrow> parse_siemens_s7_point_address (s7_canonical a) = Inr a) \<and>
   ((\<exists>s. parse_omron_fins_point_address s = Inr f) \<longleftrightarrow> parse_omron_fins_point_address (fins_canonical f) = Inr f)"
  using parse_s7_wf parse_s7_canonical parse_fins_wf parse_fins_canonical by blast

lemma ok_or_Inl: "ok_or e m = Inl e' \<longleftrightarrow> m = None \<and> e = e'"
  by (cases m) auto

lemma parse_s7_parts_no_panic:
  "parse_s7_offset s t \<noteq> Inl ''panic''" "parse_s7_typed_offset s ps \<noteq> Inl ''panic''" "parse_s7_data_block s \<noteq> Inl ''panic''"
proof -
  show *: "parse_s7_offset s t \<noteq> Inl ''panic''" for s t by (auto simp: parse_s7_offset_def rbind_Inl ok_or_Inl split: prod.splits if_splits)
  show **: "parse_s7_typed_offset s ps \<noteq> Inl ''panic''" for s ps by (simp add: parse_s7_typed_offset_def ok_or_Inl)
  show "parse_s7_data_block s \<noteq> Inl ''panic''"
    by (auto simp: parse_s7_data_block_def rbind_Inl ok_or_Inl * ** split: prod.splits)
qed

text \<open>
  C39. Parsing an S7 address panics exactly for texts without whitespace whose first character takes
  more than one byte, for instance the address that consists of an accented letter; every other text
  is parsed or refused with a message.
\<close>

theorem s7_address_panics_iff:
  "(parse_siemens_s7_point_address s = Inl ''panic'' \<longleftrightarrow>
     (let u = to_ascii_uppercase (trim s) in u \<noteq> [] \<and> \<not> has_whitespace u \<and> \<not> is_char_boundary u 1)) \<and>
   parse_siemens_s7_point_address [char_of (195 :: nat), char_of (137 :: nat)] = Inl ''panic''"
proof -
  have iff: "parse_siemens_s7_point_address s = Inl ''panic'' \<longleftrightarrow>
     (let u = to_ascii_uppercase (trim s) in u \<noteq> [] \<and> \<not> has_whitespace u \<and> \<not> is_char_boundary u 1)" for s
  proof -
    define u where "u = to_ascii_uppercase (trim s)"
    have db: "is_char_boundary u 1" if "strip_prefix ''DB'' u = Some r" for r
    proof -
      have "take (Suc (Suc 0)) u = ''DB''" using that by (simp add: strip_prefix_def split: if_splits)
      then have "u ! 1 = CHR ''B''" "1 < length u" by (cases u; cases "tl u"; simp)+
      then show ?thesis by (simp add: is_char_boundary_def)
    qed
    show ?thesis
      unfolding parse_siemens_s7_point_address_def Let_def u_def [symmetric]
      using db parse_s7_parts_no_panic
      by (cases "strip_prefix ''DB'' u"; cases "is_char_boundary u 1")
        (auto simp: str_split_at_def rbind_Inl ok_or_Inl split: option.splits)
  qed
  have "trim [char_of (195 :: nat), char_of (137 :: nat)] = [char_of (195 :: nat), char_of (137 :: nat)]"
    by (simp add: trim_def trim_start.simps trim_end.simps ws_suffix_len_def ws_len_def)
  then have "parse_siemens_s7_point_address [char_of (195 :: nat), char_of (137 :: nat)] = Inl ''panic''"
    unfolding iff by (simp add: to_ascii_uppercase_def ascii_upper_def is_char_boundary_def has_whitespace_def ws_len_def)
  with iff show ?thesis by blast
qed

text \<open>The writable flag of the BACnet object table agrees with the write check.\<close>

lemma bacnet_writable_templates:
  "list_all (\<lambda>t. bt_writable t \<longleftrightarrow> list_ex (\<lambda>ty. bacnet_write_type (bt_raw_value t) ty = Inr ()) [TyFloat, TyInteger, TyBoolean, TyText])
     bacnet_object_templates"
  by (simp add: bacnet_object_templates_def bacnet_write_type_def)

end
