(* ===== verification/Package.thy ===== *)
theory Package
  imports Flow_Config Plc_Points
begin

text \<open>
  The configuration package of an edge node and its validation: algorithm specifications
  (crates/edge-core/src/model.rs), MQTT uplinks and the package (crates/edge-core/src/config.rs),
  \<open>AppliedEdgeConfig::apply\<close> with \<open>validate_config_references\<close>, and the simulated runtime
  (crates/edge-runtime/src/config.rs).
\<close>

section \<open>Algorithm specifications\<close>

datatype compare_operator = CmpGt | CmpGte | CmpLt | CmpLte | CmpEq | CmpNe

datatype aggregate_function =
    AggAvg string | AggMin string | AggMax string | AggSum string | AggCount string | AggFirst string | AggLast string

record algorithm_event_output =
  aeo_code :: string
  aeo_severity :: event_severity
  aeo_message :: string

datatype algorithm_step =
    StChangeFilter string f64
  | StWindowAggregate string "aggregate_function list"
  | StExpression string string
  | StScale string string f64 f64
  | StClamp string string f64 f64
  | StRateOfChange string string u64
  | StDebounce string u64
  | StDurationCondition string compare_operator f64 u64 string
  | StConditionalRoute string compare_operator f64 string string
  | StThresholdRule string compare_operator f64 algorithm_event_output

datatype algorithm_trigger = OnSample | OnAnyInput | TriggerWindow u64

datatype algorithm_report_mode = OnOutput | OnChange | WindowResult | EventOnly

record algorithm_report_policy =
  ar_mode :: algorithm_report_mode
  ar_sink :: string

definition algorithm_report_default :: algorithm_report_policy where
  "algorithm_report_default = \<lparr>ar_mode = OnOutput, ar_sink = ''velamq-main''\<rparr>"

record algorithm_input_binding =
  ai_alias :: string
  ai_point_id :: string

record algorithm_output =
  ao_name :: string
  ao_point_id :: string

record algorithm_dsl =
  ad_inputs :: "algorithm_input_binding list"
  ad_trigger :: algorithm_trigger
  ad_steps :: "algorithm_step list"
  ad_outputs :: "algorithm_output list"
  ad_report :: algorithm_report_policy

datatype algorithm_kind =
    ChangeReport | WindowAggregate | ExpressionAggregate | ThresholdRule | DurationRule | Deadband | Debounce | Statistics

record algorithm_spec =
  as_id :: string
  as_version :: string
  as_kind :: algorithm_kind
  as_dsl :: algorithm_dsl
  as_inputs :: "string list"
  as_outputs :: "string list"

definition algorithm_spec_dsl :: "string \<Rightarrow> string \<Rightarrow> algorithm_kind \<Rightarrow> algorithm_dsl \<Rightarrow> algorithm_spec" where
  "algorithm_spec_dsl i v k d = \<lparr>as_id = i, as_version = v, as_kind = k, as_dsl = d,
     as_inputs = map ai_point_id (ad_inputs d), as_outputs = map ao_point_id (ad_outputs d)\<rparr>"

definition algorithm_inputs :: "algorithm_spec \<Rightarrow> string list" where
  "algorithm_inputs a = (if ad_inputs (as_dsl a) = [] then as_inputs a else map ai_point_id (ad_inputs (as_dsl a)))"

definition algorithm_outputs :: "algorithm_spec \<Rightarrow> string list" where
  "algorithm_outputs a = (if ad_outputs (as_dsl a) = [] then as_outputs a else map ao_point_id (ad_outputs (as_dsl a)))"

section \<open>The package\<close>

datatype mqtt_protocol_version = V3_1_1 | V5_0

record mqtt_user_property =
  up_key :: string
  up_value :: string

record mqtt_last_will =
  lw_topic :: string
  lw_payload :: string
  lw_qos :: u8
  lw_retain :: bool
  lw_delay_interval_seconds :: u32
  lw_payload_format_utf8 :: bool
  lw_message_expiry_interval_seconds :: u32
  lw_content_type :: "string option"
  lw_response_topic :: "string option"
  lw_correlation_data :: "string option"
  lw_user_properties :: "mqtt_user_property list"

record mqtt_uplink =
  mu_sink_id :: string
  mu_broker :: string
  mu_client_id :: string
  mu_protocol_version :: mqtt_protocol_version
  mu_keep_alive_seconds :: u16
  mu_clean_session :: bool
  mu_clean_start :: bool
  mu_session_expiry_interval_seconds :: u32
  mu_receive_maximum :: "u16 option"
  mu_maximum_packet_size_bytes :: "u32 option"
  mu_topic_alias_maximum :: "u16 option"
  mu_request_response_information :: bool
  mu_request_problem_information :: bool
  mu_user_properties :: "mqtt_user_property list"
  mu_last_will :: "mqtt_last_will option"
  mu_username :: "string option"
  mu_password_env :: "string option"
  mu_tls_ca_path :: "string option"
  mu_topic_template :: string
  mu_qos :: u8
  mu_batch_size :: u32
  mu_flush_interval_ms :: u64

definition mqtt_uplink_velamq :: "string \<Rightarrow> string \<Rightarrow> string \<Rightarrow> mqtt_uplink" where
  "mqtt_uplink_velamq sink broker client =
     \<lparr>mu_sink_id = sink, mu_broker = broker, mu_client_id = client, mu_protocol_version = V3_1_1,
      mu_keep_alive_seconds = 60, mu_clean_session = True, mu_clean_start = True,
      mu_session_expiry_interval_seconds = 0, mu_receive_maximum = None, mu_maximum_packet_size_bytes = None,
      mu_topic_alias_maximum = None, mu_request_response_information = False,
      mu_request_problem_information = True, mu_user_properties = [], mu_last_will = None, mu_username = None,
      mu_password_env = None, mu_tls_ca_path = None,
      mu_topic_template = ''edge/{edge_id}/device/{device_id}/telemetry'', mu_qos = 1, mu_batch_size = 100,
      mu_flush_interval_ms = 1000\<rparr>"

record device_instance =
  di_device_id :: string
  di_device_type :: string

record 'j edge_config_package =
  ep_edge_id :: string
  ep_version :: string
  ep_device_models :: "device_spec list"
  ep_devices :: "device_instance list"
  ep_protocol_connections :: "protocol_connection list"
  ep_mqtt_uplinks :: "mqtt_uplink list"
  ep_data_configs :: "'j data_config list"
  ep_command_flows :: "'j command_flow list"
  ep_point_mappings :: "telemetry_point_mapping list"
  ep_collection_tasks :: "collection_task list"
  ep_algorithms :: "algorithm_spec list"

definition package_new :: "string \<Rightarrow> string \<Rightarrow> 'j edge_config_package" where
  "package_new e v = \<lparr>ep_edge_id = e, ep_version = v, ep_device_models = [], ep_devices = [],
     ep_protocol_connections = [], ep_mqtt_uplinks = [], ep_data_configs = [], ep_command_flows = [],
     ep_point_mappings = [], ep_collection_tasks = [], ep_algorithms = []\<rparr>"

section \<open>Validation of references\<close>

text \<open>A \<open>for\<close> loop whose body may return early.\<close>

fun check_all :: "('a \<Rightarrow> 'e + unit) \<Rightarrow> 'a list \<Rightarrow> 'e + unit" where
  "check_all f [] = Inr ()"
| "check_all f (x # xs) = rbind (f x) (\<lambda>_. check_all f xs)"

definition connection_by_id :: "protocol_connection list \<Rightarrow> string \<Rightarrow> protocol_connection option" where
  "connection_by_id cs i = map_of (rev (map (\<lambda>c. (pc_connection_id c, c)) cs)) i"

definition check_connection :: "protocol_connection \<Rightarrow> string + unit" where
  "check_connection c =
     map_err (\<lambda>message. ''protocol connection '' @ pc_connection_id c @ '': '' @ message) (connection_validate c)"

definition check_mapping_address :: "protocol_type \<Rightarrow> telemetry_point_mapping \<Rightarrow> string + unit" where
  "check_mapping_address p m =
     rbind (if p = SiemensS7 then rbind (validate_siemens_s7_point (pm_address m) (pm_value_type m) (pm_access m)) (\<lambda>_. Inr ()) else Inr ()) (\<lambda>_.
     rbind (if p = OmronFins then rbind (validate_omron_fins_point (pm_address m) (pm_value_type m) (pm_access m)) (\<lambda>_. Inr ()) else Inr ()) (\<lambda>_.
     rbind (if p = Iec101 then rbind (validate_iec101_point (pm_address m) (pm_value_type m) (pm_access m) (pm_iec101 m)) (\<lambda>_. Inr ()) else Inr ()) (\<lambda>_.
       if p = Iec104 then rbind (validate_iec104_point (pm_address m) (pm_value_type m) (pm_access m) (pm_iec104 m)) (\<lambda>_. Inr ()) else Inr ())))"

definition check_mapping :: "protocol_connection list \<Rightarrow> telemetry_point_mapping \<Rightarrow> string + unit" where
  "check_mapping cs m =
     rbind (validate_point_access (pm_address m) (pm_access m)) (\<lambda>_.
     rbind (validate_point_read_transforms (pm_read_transforms m) (pm_value_type m)) (\<lambda>_.
     rbind (ok_or (''point '' @ pm_point_id m @ '' references missing protocol connection '' @ pm_protocol_connection_id m)
         (connection_by_id cs (pm_protocol_connection_id m))) (\<lambda>c. check_mapping_address (pc_protocol c) m)))"

definition check_task_point :: "telemetry_point_mapping list \<Rightarrow> collection_task \<Rightarrow> string \<Rightarrow> string + unit" where
  "check_task_point ms t i = (case mapping_by_id ms i of
       None \<Rightarrow> Inl (''collection task '' @ ct_task_id t @ '' references missing point '' @ i)
     | Some m \<Rightarrow>
         if pm_device_id m \<noteq> ct_device_id t
         then Inl (''collection task '' @ ct_task_id t @ '' point '' @ i @ '' belongs to device '' @ pm_device_id m
                @ '', expected '' @ ct_device_id t)
         else if \<not> is_readable (pm_access m)
         then Inl (''collection task '' @ ct_task_id t @ '' references write-only point '' @ i)
         else Inr ())"

definition check_task :: "string list \<Rightarrow> telemetry_point_mapping list \<Rightarrow> collection_task \<Rightarrow> string + unit" where
  "check_task device_ids ms t =
     (if trim (ct_task_id t) = [] then Inl ''collection task id is required''
      else if ct_interval_ms t = 0
      then Inl (''collection task '' @ ct_task_id t @ '' interval must be greater than zero'')
      else if ct_device_id t \<notin> set device_ids
      then Inl (''collection task '' @ ct_task_id t @ '' references missing device '' @ ct_device_id t)
      else if ct_point_ids t = []
      then Inl (''collection task '' @ ct_task_id t @ '' must include at least one point'')
      else check_all (check_task_point ms t) (ct_point_ids t))"

fun check_data_points ::
  "telemetry_point_mapping list \<Rightarrow> 'j data_config \<Rightarrow> data_config_point list \<Rightarrow> string list \<Rightarrow> string + unit" where
  "check_data_points ms cfg [] seen = Inr ()"
| "check_data_points ms cfg (p # ps) seen = (case mapping_by_id ms (dp_point_id p) of
       None \<Rightarrow> Inl (''data config '' @ cf_config_id cfg @ '' references missing point '' @ dp_point_id p)
     | Some m \<Rightarrow>
         if pm_device_id m \<noteq> cf_device_id cfg
         then Inl (''data config '' @ cf_config_id cfg @ '' point '' @ dp_point_id p @ '' belongs to device ''
                @ pm_device_id m @ '', expected '' @ cf_device_id cfg)
         else if pm_protocol_connection_id m \<noteq> cf_protocol_connection_id cfg
         then Inl (''data config '' @ cf_config_id cfg @ '' point '' @ dp_point_id p @ '' uses protocol connection ''
                @ pm_protocol_connection_id m @ '', expected '' @ cf_protocol_connection_id cfg)
         else if \<not> is_readable (pm_access m)
         then Inl (''data config '' @ cf_config_id cfg @ '' references write-only point '' @ dp_point_id p)
         else if dp_json_field p \<in> set seen
         then Inl (''data config '' @ cf_config_id cfg @ '' has duplicate json field '' @ dp_json_field p)
         else check_data_points ms cfg ps (dp_json_field p # seen))"

definition check_data_config :: "'j edge_config_package \<Rightarrow> 'j data_config \<Rightarrow> string + unit" where
  "check_data_config p cfg = (
     let subject = ''data config '' @ cf_config_id cfg in
     if trim (cf_config_id cfg) = [] then Inl ''data config id is required''
     else if cf_points cfg = [] then Inl (subject @ '' must include at least one point'')
     else if dc_period_ms (cf_collection cfg) = 0
     then Inl (subject @ '' collection period must be greater than zero'')
     else if dc_timeout_ms (cf_collection cfg) = 0 \<or> dc_timeout_ms (cf_collection cfg) > 300000
     then Inl (subject @ '' collection timeout must be between 1 and 300000 ms'')
     else if dc_retry_count (cf_collection cfg) > 10
     then Inl (subject @ '' collection retry count must not exceed 10'')
     else if cf_device_id cfg \<notin> set (map di_device_id (ep_devices p))
     then Inl (subject @ '' references missing device '' @ cf_device_id cfg)
     else if cf_protocol_connection_id cfg \<notin> set (map pc_connection_id (ep_protocol_connections p))
     then Inl (subject @ '' references missing protocol connection '' @ cf_protocol_connection_id cfg)
     else if pb_sink_id (cf_publish cfg) \<notin> set (map mu_sink_id (ep_mqtt_uplinks p))
     then Inl (subject @ '' references missing mqtt sink '' @ pb_sink_id (cf_publish cfg))
     else rbind (check_data_points (ep_point_mappings p) cfg (cf_points cfg) []) (\<lambda>_.
       rbind (check_all (\<lambda>a. if a \<notin> set (map as_id (ep_algorithms p))
           then Inl (subject @ '' references missing algorithm '' @ a) else Inr ()) (cf_algorithm_ids cfg)) (\<lambda>_.
         validate_data_config_visual_graph cfg)))"

definition check_command_flow :: "'j json_ops \<Rightarrow> 'j edge_config_package \<Rightarrow> 'j command_flow \<Rightarrow> string + unit" where
  "check_command_flow js p flow =
     (if fl_protocol_connection_id flow \<noteq> [] \<and>
         fl_protocol_connection_id flow \<notin> set (map pc_connection_id (ep_protocol_connections p))
      then Inl (''command flow '' @ fl_flow_id flow @ '' references missing protocol connection '' @ fl_protocol_connection_id flow)
      else if fl_mqtt_connection_id flow \<notin> set (map mu_sink_id (ep_mqtt_uplinks p))
      then Inl (''command flow '' @ fl_flow_id flow @ '' references missing MQTT connection '' @ fl_mqtt_connection_id flow)
      else validate_command_flow js flow (ep_point_mappings p))"

definition validate_config_references :: "'j json_ops \<Rightarrow> 'j edge_config_package \<Rightarrow> string + unit" where
  "validate_config_references js p =
     rbind (check_all check_connection (ep_protocol_connections p)) (\<lambda>_.
     rbind (check_all (check_mapping (ep_protocol_connections p)) (ep_point_mappings p)) (\<lambda>_.
     rbind (check_all (check_task (map di_device_id (ep_devices p)) (ep_point_mappings p)) (ep_collection_tasks p)) (\<lambda>_.
     rbind (check_all (check_data_config p) (ep_data_configs p)) (\<lambda>_.
       check_all (check_command_flow js p) (ep_command_flows p)))))"

definition own_client_ids :: "'j edge_config_package \<Rightarrow> 'j edge_config_package" where
  "own_client_ids p = p\<lparr>ep_mqtt_uplinks := map (\<lambda>u. u\<lparr>mu_client_id := ep_edge_id p\<rparr>) (ep_mqtt_uplinks p)\<rparr>"

definition apply_config :: "'j json_ops \<Rightarrow> 'j edge_config_package \<Rightarrow> string + 'j edge_config_package" where
  "apply_config js p =
     (if trim (ep_edge_id p) = [] then Inl ''edge id is required''
      else if trim (ep_version p) = [] then Inl ''config version is required''
      else rbind (validate_config_references js (own_client_ids p)) (\<lambda>_. Inr (own_client_ids p)))"

section \<open>The simulated runtime\<close>

record 'j simulated_runtime =
  sr_package :: "'j edge_config_package"
  sr_shadows :: "string \<rightharpoonup> device_shadow"

definition simulated_runtime_new :: "'j edge_config_package \<Rightarrow> 'j simulated_runtime" where
  "simulated_runtime_new p = \<lparr>sr_package = p,
     sr_shadows = foldl (\<lambda>m d. m(di_device_id d \<mapsto> shadow_new (ep_edge_id p) (di_device_id d))) Map.empty (ep_devices p)\<rparr>"

text \<open>One pass over pairs of device and point; the clock is read for each of them.\<close>

fun simulate_points ::
  "(nat \<Rightarrow> int) \<Rightarrow> nat \<Rightarrow> (string \<times> string) list \<Rightarrow> (string \<rightharpoonup> device_shadow) \<Rightarrow>
   telemetry_sample list \<times> (string \<rightharpoonup> device_shadow)" where
  "simulate_points now i [] shadows = ([], shadows)"
| "simulate_points now i ((d, p) # ps) shadows = (
     let sample = sample_new d p (Float f64_one) QGood (now i) in
     case shadows d of
       Some sh \<Rightarrow> (let (ss, shadows') = simulate_points now (Suc i) ps (shadows(d \<mapsto> shadow_update sample sh)) in (sample # ss, shadows'))
     | None \<Rightarrow> simulate_points now (Suc i) ps shadows)"

definition collect_samples_once :: "(nat \<Rightarrow> int) \<Rightarrow> 'j simulated_runtime \<Rightarrow> telemetry_sample list \<times> 'j simulated_runtime" where
  "collect_samples_once now r = (
     let (ss, shadows) = simulate_points now 0 (map (\<lambda>m. (pm_device_id m, pm_point_id m)) (ep_point_mappings (sr_package r))) (sr_shadows r)
     in (ss, r\<lparr>sr_shadows := shadows\<rparr>))"

definition collect_data_config_samples_once :: "(nat \<Rightarrow> int) \<Rightarrow> 'j simulated_runtime \<Rightarrow> telemetry_sample list \<times> 'j simulated_runtime" where
  "collect_data_config_samples_once now r = (
     let (ss, shadows) = simulate_points now 0
       (concat (map (\<lambda>c. map (\<lambda>p. (cf_device_id c, dp_point_id p)) (cf_points c)) (filter cf_enabled (ep_data_configs (sr_package r)))))
       (sr_shadows r)
     in (ss, r\<lparr>sr_shadows := shadows\<rparr>))"

section \<open>Applied packages\<close>

lemma check_all_Inr [result_simps]: "check_all f xs = Inr () \<longleftrightarrow> (\<forall>x \<in> set xs. f x = Inr ())"
  by (induction xs) (simp_all add: rbind_Inr)

text \<open>A well-formed package: every reference resolves, to something that fits.\<close>

definition mapping_ok :: "protocol_connection list \<Rightarrow> telemetry_point_mapping \<Rightarrow> bool" where
  "mapping_ok cs m = (validate_point_access (pm_address m) (pm_access m) = Inr () \<and>
     validate_point_read_transforms (pm_read_transforms m) (pm_value_type m) = Inr () \<and>
     (\<exists>c. connection_by_id cs (pm_protocol_connection_id m) = Some c \<and> check_mapping_address (pc_protocol c) m = Inr ()))"

definition task_ok :: "'j edge_config_package \<Rightarrow> collection_task \<Rightarrow> bool" where
  "task_ok p t = (trim (ct_task_id t) \<noteq> [] \<and> ct_interval_ms t \<noteq> 0 \<and> ct_point_ids t \<noteq> [] \<and>
     ct_device_id t \<in> di_device_id ` set (ep_devices p) \<and>
     (\<forall>i \<in> set (ct_point_ids t). \<exists>m. mapping_by_id (ep_point_mappings p) i = Some m \<and>
        pm_device_id m = ct_device_id t \<and> is_readable (pm_access m)))"

definition data_config_ok :: "'j edge_config_package \<Rightarrow> 'j data_config \<Rightarrow> bool" where
  "data_config_ok p c = (trim (cf_config_id c) \<noteq> [] \<and> cf_points c \<noteq> [] \<and> dc_period_ms (cf_collection c) \<noteq> 0 \<and>
     dc_timeout_ms (cf_collection c) \<noteq> 0 \<and> dc_timeout_ms (cf_collection c) \<le> 300000 \<and> dc_retry_count (cf_collection c) \<le> 10 \<and>
     cf_device_id c \<in> di_device_id ` set (ep_devices p) \<and>
     cf_protocol_connection_id c \<in> pc_connection_id ` set (ep_protocol_connections p) \<and>
     pb_sink_id (cf_publish c) \<in> mu_sink_id ` set (ep_mqtt_uplinks p) \<and>
     (\<forall>d \<in> set (cf_points c). \<exists>m. mapping_by_id (ep_point_mappings p) (dp_point_id d) = Some m \<and>
        pm_device_id m = cf_device_id c \<and> pm_protocol_connection_id m = cf_protocol_connection_id c \<and> is_readable (pm_access m)) \<and>
     distinct (map dp_json_field (cf_points c)) \<and>
     set (cf_algorithm_ids c) \<subseteq> as_id ` set (ep_algorithms p) \<and>
     validate_data_config_visual_graph c = Inr ())"

definition flow_refs_ok :: "'j json_ops \<Rightarrow> 'j edge_config_package \<Rightarrow> 'j command_flow \<Rightarrow> bool" where
  "flow_refs_ok js p f = (
     (fl_protocol_connection_id f = [] \<or> fl_protocol_connection_id f \<in> pc_connection_id ` set (ep_protocol_connections p)) \<and>
     fl_mqtt_connection_id f \<in> mu_sink_id ` set (ep_mqtt_uplinks p) \<and> command_flow_ok js f (ep_point_mappings p))"

definition package_ok :: "'j json_ops \<Rightarrow> 'j edge_config_package \<Rightarrow> bool" where
  "package_ok js p = (trim (ep_edge_id p) \<noteq> [] \<and> trim (ep_version p) \<noteq> [] \<and>
     (\<forall>c \<in> set (ep_protocol_connections p). connection_validate c = Inr ()) \<and>
     (\<forall>m \<in> set (ep_point_mappings p). mapping_ok (ep_protocol_connections p) m) \<and>
     (\<forall>t \<in> set (ep_collection_tasks p). task_ok p t) \<and>
     (\<forall>c \<in> set (ep_data_configs p). data_config_ok p c) \<and>
     (\<forall>f \<in> set (ep_command_flows p). flow_refs_ok js p f))"

lemma check_mapping_iff: "check_mapping cs m = Inr () \<longleftrightarrow> mapping_ok cs m"
  by (auto simp: check_mapping_def mapping_ok_def result_simps)

lemma check_task_point_iff:
  "check_task_point ms t i = Inr () \<longleftrightarrow>
     (\<exists>m. mapping_by_id ms i = Some m \<and> pm_device_id m = ct_device_id t \<and> is_readable (pm_access m))"
  by (auto simp: check_task_point_def split: option.splits)

lemma check_task_iff: "check_task (map di_device_id (ep_devices p)) (ep_point_mappings p) t = Inr () \<longleftrightarrow> task_ok p t"
  unfolding check_task_def task_ok_def if_Inl_Inr check_all_Inr check_task_point_iff by auto

lemma check_data_points_iff:
  "check_data_points ms c ds seen = Inr () \<longleftrightarrow>
     (\<forall>d \<in> set ds. \<exists>m. mapping_by_id ms (dp_point_id d) = Some m \<and> pm_device_id m = cf_device_id c \<and>
        pm_protocol_connection_id m = cf_protocol_connection_id c \<and> is_readable (pm_access m)) \<and>
     distinct (map dp_json_field ds) \<and> set (map dp_json_field ds) \<inter> set seen = {}"
  by (induction ds arbitrary: seen) (auto split: option.splits)

lemma check_data_config_iff: "check_data_config p c = Inr () \<longleftrightarrow> data_config_ok p c"
  unfolding check_data_config_def data_config_ok_def Let_def if_Inl_Inr rbind_Inr ex_unit check_all_Inr check_data_points_iff
  by (auto simp: not_less)

lemma check_command_flow_iff: "check_command_flow js p f = Inr () \<longleftrightarrow> flow_refs_ok js p f"
  unfolding check_command_flow_def flow_refs_ok_def if_Inl_Inr validate_command_flow_iff by auto

lemma package_ok_own_client_ids: "package_ok js (own_client_ids p) \<longleftrightarrow> package_ok js p"
proof -
  have sinks: "mu_sink_id ` set (ep_mqtt_uplinks (own_client_ids p)) = mu_sink_id ` set (ep_mqtt_uplinks p)"
    by (auto simp: own_client_ids_def image_iff)
  have same: "ep_edge_id (own_client_ids p) = ep_edge_id p" "ep_version (own_client_ids p) = ep_version p"
    "ep_devices (own_client_ids p) = ep_devices p" "ep_protocol_connections (own_client_ids p) = ep_protocol_connections p"
    "ep_data_configs (own_client_ids p) = ep_data_configs p" "ep_command_flows (own_client_ids p) = ep_command_flows p"
    "ep_point_mappings (own_client_ids p) = ep_point_mappings p" "ep_collection_tasks (own_client_ids p) = ep_collection_tasks p"
    "ep_algorithms (own_client_ids p) = ep_algorithms p"
    by (simp_all add: own_client_ids_def)
  show ?thesis unfolding package_ok_def task_ok_def data_config_ok_def flow_refs_ok_def sinks same ..
qed

lemma apply_config_iff: "apply_config js p = Inr a \<longleftrightarrow> package_ok js p \<and> a = own_client_ids p"
proof -
  have "validate_config_references js (own_client_ids p) = Inr () \<and> trim (ep_edge_id p) \<noteq> [] \<and> trim (ep_version p) \<noteq> [] \<longleftrightarrow>
      package_ok js (own_client_ids p)"
    unfolding validate_config_references_def rbind_Inr ex_unit check_all_Inr check_mapping_iff check_task_iff
      check_data_config_iff check_command_flow_iff package_ok_def check_connection_def map_err_Inr
    by (auto simp: own_client_ids_def)
  then show ?thesis
    unfolding apply_config_def if_Inl_Inr rbind_Inr ex_unit package_ok_own_client_ids by auto
qed

text \<open>
  C8. A package is applied exactly when it is well formed: every reference resolves to something that
  fits, every connection, mapping, graph and flow is valid. Applying sets the MQTT client ids to the
  edge id and changes nothing else, and an applied package can be applied again without change.
\<close>

theorem apply_config_correct:
  "(apply_config js p = Inr a \<longleftrightarrow> package_ok js p \<and> a = own_client_ids p) \<and>
   apply_config js (own_client_ids p) = apply_config js p"
proof -
  have "own_client_ids (own_client_ids p) = own_client_ids p" by (simp add: own_client_ids_def)
  moreover have "ep_edge_id (own_client_ids p) = ep_edge_id p" "ep_version (own_client_ids p) = ep_version p"
    by (simp_all add: own_client_ids_def)
  ultimately have "apply_config js (own_client_ids p) = apply_config js p" by (simp add: apply_config_def)
  then show ?thesis unfolding apply_config_iff by simp
qed

section \<open>A simulated pass\<close>

lemma simulated_shadows:
  "dom (sr_shadows (simulated_runtime_new p)) = di_device_id ` set (ep_devices p)"
proof -
  have "dom (foldl (\<lambda>m d. m(di_device_id d \<mapsto> shadow_new e (di_device_id d))) m ds) = dom m \<union> di_device_id ` set ds" for m e
    and ds :: "device_instance list"
    by (induction ds arbitrary: m) auto
  then show ?thesis by (simp add: simulated_runtime_new_def)
qed

definition simulated_value :: "(string \<rightharpoonup> device_shadow) \<Rightarrow> string \<Rightarrow> string \<Rightarrow> bool" where
  "simulated_value shadows d p = (\<exists>sh. shadows d = Some sh \<and> shadow_latest_value sh p = Some (Float f64_one))"

lemma simulated_value_update:
  assumes "shadows d = Some sh"
  shows "simulated_value (shadows(d \<mapsto> shadow_update (sample_new d p (Float f64_one) q n) sh)) d' p' \<longleftrightarrow>
    (d', p') = (d, p) \<or> simulated_value shadows d' p'"
  using assms by (auto simp: simulated_value_def shadow_latest_value_def shadow_latest_def shadow_update_def sample_new_def)

lemma simulate_points_complete:
  assumes "fst ` set ps \<subseteq> dom shadows" "simulate_points now i ps shadows = (ss, shadows')"
  shows "ss = map (\<lambda>(k, d, p). sample_new d p (Float f64_one) QGood (now k)) (enumerate i ps) \<and>
    (\<forall>d p. (d, p) \<in> set ps \<or> simulated_value shadows d p \<longrightarrow> simulated_value shadows' d p)"
  using assms
proof (induction ps arbitrary: i shadows ss)
  case Nil
  then show ?case by simp
next
  case (Cons a ps)
  obtain d p where a: "a = (d, p)" by (cases a)
  let ?s = "sample_new d p (Float f64_one) QGood (now i)"
  obtain sh where sh: "shadows d = Some sh" using Cons.prems(1) a by auto
  let ?m = "shadows(d \<mapsto> shadow_update ?s sh)"
  obtain ss' where r: "simulate_points now (Suc i) ps ?m = (ss', shadows')" "ss = ?s # ss'"
    using Cons.prems(2) sh a by (auto simp: Let_def split: prod.splits)
  have dm: "fst ` set ps \<subseteq> dom ?m" using Cons.prems(1) by auto
  from Cons.IH [OF dm r(1)] have
    "ss' = map (\<lambda>(k, d, p). sample_new d p (Float f64_one) QGood (now k)) (enumerate (Suc i) ps)"
    "\<forall>d' p'. (d', p') \<in> set ps \<or> simulated_value ?m d' p' \<longrightarrow> simulated_value shadows' d' p'" by blast+
  then show ?case using r(2) a simulated_value_update [of shadows d sh, OF sh] by auto
qed

lemma concat_filter: "concat (map f (filter P cs)) = concat (map (\<lambda>c. if P c then f c else []) cs)"
  by (induction cs) auto

text \<open>
  A simulated pass over the data configurations of an applied package yields one good sample per
  point of every enabled configuration, in order, and the shadow of the device then shows the value.
\<close>

theorem simulated_pass_complete:
  assumes "apply_config js p = Inr a" "collect_data_config_samples_once now (simulated_runtime_new a) = (ss, r)"
  shows "map (\<lambda>s. (ts_device_id s, ts_telemetry_id s)) ss =
      [(cf_device_id c, dp_point_id d). c \<leftarrow> ep_data_configs a, cf_enabled c, d \<leftarrow> cf_points c] \<and>
    (\<forall>c \<in> set (ep_data_configs a). cf_enabled c \<longrightarrow> (\<forall>d \<in> set (cf_points c). simulated_value (sr_shadows r) (cf_device_id c) (dp_point_id d)))"
proof -
  let ?ps = "concat (map (\<lambda>c. map (\<lambda>p. (cf_device_id c, dp_point_id p)) (cf_points c)) (filter cf_enabled (ep_data_configs a)))"
  have ok: "package_ok js a" using assms(1) by (auto simp: apply_config_iff package_ok_own_client_ids)
  then have "fst ` set ?ps \<subseteq> dom (sr_shadows (simulated_runtime_new a))"
    unfolding simulated_shadows by (auto simp: package_ok_def data_config_ok_def)
  moreover have "simulate_points now 0 ?ps (sr_shadows (simulated_runtime_new a)) = (ss, sr_shadows r)"
    using assms(2) by (auto simp: collect_data_config_samples_once_def simulated_runtime_new_def split: prod.splits)
  ultimately have c: "ss = map (\<lambda>(k, d, p). sample_new d p (Float f64_one) QGood (now k)) (enumerate 0 ?ps) \<and>
      (\<forall>d p. (d, p) \<in> set ?ps \<or> simulated_value (sr_shadows (simulated_runtime_new a)) d p \<longrightarrow> simulated_value (sr_shadows r) d p)"
    by (rule simulate_points_complete)
  have "map (\<lambda>s. (ts_device_id s, ts_telemetry_id s)) ss = map snd (enumerate 0 ?ps)"
    unfolding conjunct1 [OF c] map_map by (intro map_cong) (auto simp: sample_new_def)
  also have "\<dots> = [(cf_device_id c, dp_point_id d). c \<leftarrow> ep_data_configs a, cf_enabled c, d \<leftarrow> cf_points c]"
    by (simp add: concat_filter)
  finally show ?thesis using conjunct2 [OF c] by auto
qed

definition example_data_config :: "unit data_config" where
  "example_data_config = (data_config_new ''dc1'' ''Pump'' ''d1'' ''c1'' (data_config_collection_new 1000)
     (data_config_publish_new ''broker'' ''telemetry'' payload_object))
     \<lparr>cf_points := [\<lparr>dp_point_id = ''p1'', dp_semantic_id = ''s1'', dp_address = pm_address example_mapping,
        dp_value_type = TyBoolean, dp_unit = None, dp_json_field = ''running''\<rparr>]\<rparr>"

definition example_package :: "unit edge_config_package" where
  "example_package = (package_new ''edge'' ''v1'')
     \<lparr>ep_devices := [\<lparr>di_device_id = ''d1'', di_device_type = ''pump''\<rparr>],
      ep_protocol_connections := [connection_simulated ''c1''],
      ep_mqtt_uplinks := [mqtt_uplink_velamq ''broker'' ''mqtt://b'' ''edge''],
      ep_data_configs := [example_data_config], ep_command_flows := [example_flow],
      ep_point_mappings := [example_mapping]\<rparr>"

lemma example_mapping_ok: "mapping_ok [connection_simulated ''c1''] example_mapping"
  by (simp add: mapping_ok_def example_mapping_def mapping_new_def validate_point_access_def validate_point_read_transforms_def
      connection_by_id_def connection_simulated_def check_mapping_address_def)

lemma example_data_config_ok: "data_config_ok example_package example_data_config"
  by (simp add: data_config_ok_def example_data_config_def data_config_new_def data_config_collection_new_def
      data_config_publish_new_def example_package_def package_new_def mqtt_uplink_velamq_def connection_simulated_def
      trim_plain mapping_by_id_def example_mapping_def mapping_new_def is_readable_def
      validate_data_config_visual_graph_def)

lemma example_package_ok: "package_ok js example_package"
proof -
  have "command_flow_ok js example_flow [example_mapping]" using example_flow_ok validate_command_flow_iff by blast
  then have "flow_refs_ok js example_package example_flow"
    by (simp add: flow_refs_ok_def example_package_def package_new_def mqtt_uplink_velamq_def example_flow_def command_flow_new_def)
  moreover have "connection_validate (connection_simulated ''c1'') = Inr ()"
    by (simp add: connection_validate_def connection_simulated_def circuit_breaker_validate_def circuit_breaker_default_def
        other_settings_validate_def)
  ultimately show ?thesis
    using example_mapping_ok example_data_config_ok
    by (simp add: package_ok_def) (simp add: example_package_def package_new_def trim_plain)
qed

lemma example_package_applies: "apply_config js example_package = Inr example_package"
proof -
  have "own_client_ids example_package = example_package"
    by (simp add: own_client_ids_def example_package_def package_new_def mqtt_uplink_velamq_def)
  then show ?thesis using example_package_ok apply_config_iff by metis
qed

theorem simulated_pass_complete_witness:
  "simulated_value (sr_shadows (snd (collect_data_config_samples_once (\<lambda>i. int i) (simulated_runtime_new example_package)))) ''d1'' ''p1''"
proof -
  obtain ss r where r: "collect_data_config_samples_once (\<lambda>i. int i) (simulated_runtime_new example_package) = (ss, r)"
    by fastforce
  from simulated_pass_complete [OF example_package_applies r] show ?thesis
    unfolding r snd_conv by (simp add: example_package_def package_new_def example_data_config_def data_config_new_def)
qed

text \<open>A payload with a command id and a boolean value for the example flow.\<close>

definition example_json :: "unit json_ops" where
  "example_json = \<lparr>js_from_slice = \<lambda>_. Some (), js_get = \<lambda>_ k. if k = ''commandId'' \<or> k = ''value'' then Some () else None,
     js_as_str = \<lambda>_. Some ''cmd-1'', js_as_f64 = \<lambda>_. None, js_as_i64 = \<lambda>_. None, js_as_u64 = \<lambda>_. None,
     js_as_bool = \<lambda>_. Some True, js_as_array = \<lambda>_. None, js_bool = \<lambda>_. (), js_eq = \<lambda>_ _. True\<rparr>"

end
