(* ===== verification/Command_Plan.thy ===== *)
theory Command_Plan
  imports Package Serial_Bus
begin

text \<open>
  Planning the execution of a command (crates/edge-runtime/src/command.rs): a breadth-first walk over
  the command flow from its MQTT inputs that evaluates conditions, checks safety gates, prepares point
  writes and collects the reply nodes; the report of an execution and its reply messages. JSON values,
  the RFC 3339 parser and the printing of floating-point numbers come from other crates and are fields
  of an environment; its clock gives the \<open>k\<close>-th reading during the \<open>i\<close>-th visit of a node.
  Instants are nanoseconds.
\<close>

record 'j command_env =
  ce_json :: "'j json_ops"
  ce_rfc3339 :: "string \<Rightarrow> int option"
  ce_show_f64 :: "f64 \<Rightarrow> string"
  ce_now :: "nat \<Rightarrow> nat \<Rightarrow> int"

section \<open>Looking into the payload\<close>

definition value_at :: "'j json_ops \<Rightarrow> 'j \<Rightarrow> string \<Rightarrow> 'j option" where
  "value_at js document path =
     foldl (\<lambda>v segment. Option.bind v (\<lambda>w. js_get js w segment)) (Some document)
       (filter (\<lambda>segment. segment \<noteq> []) (split_on (CHR ''.'') path))"

definition string_at :: "'j json_ops \<Rightarrow> 'j \<Rightarrow> string \<Rightarrow> string option" where
  "string_at js document path = Option.bind (value_at js document path) (js_as_str js)"

definition param_str :: "'j json_ops \<Rightarrow> 'j command_node \<Rightarrow> string \<Rightarrow> string option" where
  "param_str js n k = Option.bind (cn_params n k) (js_as_str js)"

definition telemetry_value_of :: "'j json_ops \<Rightarrow> 'j \<Rightarrow> telemetry_type \<Rightarrow> string + telemetry_value" where
  "telemetry_value_of js v ty = (case ty of
       TyFloat \<Rightarrow> rbind (ok_or ''float point requires a JSON number'' (js_as_f64 js v)) (\<lambda>x. Inr (Float x))
     | TyInteger \<Rightarrow> rbind (ok_or ''integer point requires a JSON integer'' (js_as_i64 js v)) (\<lambda>x. Inr (Integer x))
     | TyBoolean \<Rightarrow> rbind (ok_or ''boolean point requires true or false'' (js_as_bool js v)) (\<lambda>x. Inr (Boolean x))
     | TyText \<Rightarrow> rbind (ok_or ''text point requires a JSON string'' (js_as_str js v)) (\<lambda>x. Inr (Text x)))"

section \<open>Expiry and confirmation\<close>

definition validate_expiry :: "'j command_env \<Rightarrow> 'j \<Rightarrow> int \<Rightarrow> string + unit" where
  "validate_expiry env document now = (case string_at (ce_json env) document ''expiresAt'' of
       None \<Rightarrow> Inr ()
     | Some s \<Rightarrow> rbind (ok_or ''command expiresAt must use RFC3339'' (ce_rfc3339 env s)) (\<lambda>expires_at.
         if expires_at \<le> now then Inl ''command has expired'' else Inr ()))"

definition required_expiry :: "'j command_env \<Rightarrow> 'j \<Rightarrow> int \<Rightarrow> string + int" where
  "required_expiry env document now =
     rbind (ok_or ''human-confirmed command requires expiresAt'' (string_at (ce_json env) document ''expiresAt'')) (\<lambda>s.
     rbind (ok_or ''command expiresAt must use RFC3339'' (ce_rfc3339 env s)) (\<lambda>expires_at.
       if expires_at \<le> now then Inl ''command has expired'' else Inr expires_at))"

definition human_actor :: "string \<Rightarrow> bool" where
  "human_actor actor = (actor \<noteq> [] \<and> \<not> starts_with actor ''agent:'' \<and> \<not> starts_with actor ''model:'' \<and>
     \<not> eq_ignore_ascii_case actor ''system'')"

definition ms_ns :: "int \<Rightarrow> int" where
  "ms_ns n = n * 1000000"

text \<open>An accepted flow bounds the age of a confirmation by a week, so that the subtraction from the
  clock stays within the range of instants.\<close>

definition max_confirmation_age :: "'j json_ops \<Rightarrow> 'j command_node \<Rightarrow> int" where
  "max_confirmation_age js n =
     (case Option.bind (cn_params n ''max_confirmation_age_ms'') (js_as_u64 js) of
        Some v \<Rightarrow> if uint v < 2 ^ 63 then uint v else 15 * 60 * 1000
      | None \<Rightarrow> 15 * 60 * 1000)"

definition validate_confirmation :: "'j command_env \<Rightarrow> 'j command_node \<Rightarrow> 'j \<Rightarrow> int \<Rightarrow> int \<Rightarrow> string + unit" where
  "validate_confirmation env n document now now' = (
     let js = ce_json env; gate = ''safety gate '' @ cn_node_id n in
     rbind (ok_or (gate @ '' requires a confirmationToken of at least 24 characters'')
         (option_filter (\<lambda>t. length t \<ge> 24) (map_option trim (string_at js document ''confirmationToken'')))) (\<lambda>token.
     if has_whitespace token then Inl (gate @ '' confirmationToken must not contain whitespace'')
     else rbind (ok_or (gate @ '' requires approvedBy from a human operator'')
         (option_filter human_actor (map_option trim (string_at js document ''approvedBy'')))) (\<lambda>_.
     rbind (ok_or (gate @ '' requires an RFC3339 approvedAt timestamp'') (string_at js document ''approvedAt'')) (\<lambda>s.
     rbind (ok_or ''command approvedAt must use RFC3339'' (ce_rfc3339 env s)) (\<lambda>approved_at.
     if approved_at > now + ms_ns 30000 then Inl (gate @ '' approval timestamp is in the future'')
     else if approved_at < now - ms_ns (max_confirmation_age js n) then Inl (gate @ '' approval has expired'')
     else rbind (required_expiry env document now') (\<lambda>expires_at.
       if expires_at > now + ms_ns (5 * 60 * 1000)
       then Inl (gate @ '' command expiry exceeds the local five minute limit'')
       else Inr ()))))))"

record planned_safety_gate =
  sg_node_id :: string
  sg_source_path :: string
  sg_source :: "string option"
  sg_allowed_sources :: "string list"
  sg_max_commands :: "u32 option"
  sg_window_ms :: "u64 option"

definition u64_param :: "'j json_ops \<Rightarrow> 'j command_node \<Rightarrow> string \<Rightarrow> u64 option" where
  "u64_param js n k = Option.bind (cn_params n k) (js_as_u64 js)"

definition requires_confirmation :: "'j json_ops \<Rightarrow> 'j command_node \<Rightarrow> bool" where
  "requires_confirmation js n =
     (case Option.bind (cn_params n ''require_confirmation'') (js_as_bool js) of Some b \<Rightarrow> b | None \<Rightarrow> False)"

definition plan_safety_gate :: "'j command_env \<Rightarrow> 'j command_node \<Rightarrow> 'j \<Rightarrow> (nat \<Rightarrow> int) \<Rightarrow> string + planned_safety_gate" where
  "plan_safety_gate env n document now = (
     let js = ce_json env in
     rbind (validate_expiry env document (now 0)) (\<lambda>_.
     rbind (if requires_confirmation js n then validate_confirmation env n document (now 1) (now 2) else Inr ()) (\<lambda>_.
     let source_path = (case param_str js n ''source_path'' of Some s \<Rightarrow> s | None \<Rightarrow> ''requestedBy'') in
     rbind (case u64_param js n ''max_commands'' of
         None \<Rightarrow> Inr None
       | Some v \<Rightarrow> if unat v < 2 ^ 32 then Inr (Some (ucast v))
                  else Inl (''safety gate '' @ cn_node_id n @ '' max_commands is too large'')) (\<lambda>max_commands.
       Inr \<lparr>sg_node_id = cn_node_id n, sg_source_path = source_path, sg_source = string_at js document source_path,
            sg_allowed_sources = (case Option.bind (cn_params n ''allowed_sources'') (js_as_array js) of
                Some vs \<Rightarrow> List.map_filter (js_as_str js) vs | None \<Rightarrow> []),
            sg_max_commands = max_commands, sg_window_ms = u64_param js n ''window_ms''\<rparr>))))"

section \<open>Conditions\<close>

definition numeric_condition :: "string \<Rightarrow> f64 \<Rightarrow> f64 \<Rightarrow> bool" where
  "numeric_condition operator a e =
     (if operator = ''gt'' then f64_lt e a else if operator = ''gte'' then f64_le e a
      else if operator = ''lt'' then f64_lt a e else f64_le a e)"

definition evaluate_condition :: "'j json_ops \<Rightarrow> 'j command_node \<Rightarrow> 'j \<Rightarrow> string + bool" where
  "evaluate_condition js n document = (
     let path = (case param_str js n ''path'' of Some s \<Rightarrow> s | None \<Rightarrow> ''value'');
         operator = (case param_str js n ''operator'' of Some s \<Rightarrow> s | None \<Rightarrow> ''eq'');
         expected = (case cn_params n ''value'' of Some v \<Rightarrow> v | None \<Rightarrow> js_bool js True) in
     rbind (ok_or (''condition node '' @ cn_node_id n @ '' path not found: '' @ path) (value_at js document path)) (\<lambda>actual.
     if operator = ''eq'' then Inr (js_eq js actual expected)
     else if operator = ''ne'' then Inr (\<not> js_eq js actual expected)
     else if operator \<in> {''gt'', ''gte'', ''lt'', ''lte''}
     then rbind (ok_or ''numeric condition actual value must be a number'' (js_as_f64 js actual)) (\<lambda>a.
          rbind (ok_or ''numeric condition expected value must be a number'' (js_as_f64 js expected)) (\<lambda>e.
            Inr (numeric_condition operator a e)))
     else Inl (''condition node '' @ cn_node_id n @ '' operator is unsupported: '' @ operator)))"

section \<open>Point writes\<close>

datatype write_verification = VResponse | VReadback

record planned_point_write =
  pp_node_id :: string
  pp_mapping :: telemetry_point_mapping
  pp_value :: telemetry_value
  pp_verification :: write_verification
  pp_readback_tolerance :: f64

definition write_verification_of :: "'j json_ops \<Rightarrow> 'j command_node \<Rightarrow> string + write_verification" where
  "write_verification_of js n = (case Option.bind (verification_param n) (js_as_str js) of
       None \<Rightarrow> Inr VResponse
     | Some s \<Rightarrow> if s = ''response'' then Inr VResponse else if s = ''readback'' then Inr VReadback
         else Inl (''write node '' @ cn_node_id n @ '' verification mode is unsupported: '' @ s))"

definition readback_tolerance_of :: "'j json_ops \<Rightarrow> 'j command_node \<Rightarrow> telemetry_type \<Rightarrow> string + f64" where
  "readback_tolerance_of js n ty =
     rbind (case cn_params n ''readback_tolerance'' of
         None \<Rightarrow> Inr (if ty = TyFloat then 0x3EB0C6F7A0B5ED8D else f64_zero)
       | Some v \<Rightarrow> ok_or (''write node '' @ cn_node_id n @ '' readback_tolerance must be a number'') (js_as_f64 js v)) (\<lambda>tolerance.
       if \<not> f64_is_finite tolerance \<or> f64_lt tolerance f64_zero
       then Inl (''write node '' @ cn_node_id n @ '' readback_tolerance must be finite and non-negative'')
       else Inr tolerance)"

definition check_write_range :: "'j command_env \<Rightarrow> string \<Rightarrow> telemetry_point_mapping \<Rightarrow> telemetry_value \<Rightarrow> string + unit" where
  "check_write_range env point_id m v = (case (pm_range m, as_f64 v) of
       (Some r, Some x) \<Rightarrow> if \<not> range_contains r x
         then Inl (''command value '' @ ce_show_f64 env x @ '' for point '' @ point_id @ '' is outside [''
                @ ce_show_f64 env (nr_min r) @ '', '' @ ce_show_f64 env (nr_max r) @ '']'')
         else Inr ()
     | _ \<Rightarrow> Inr ())"

definition write_value :: "'j command_env \<Rightarrow> 'j command_node \<Rightarrow> 'j \<Rightarrow> telemetry_point_mapping \<Rightarrow> string + telemetry_value" where
  "write_value env n document m = (
     let js = ce_json env; point_id = node_ref n;
         value_path = (case param_str js n ''value_path'' of Some s \<Rightarrow> s | None \<Rightarrow> ''values.'' @ point_id) in
     rbind (ok_or (''command payload has no value for point '' @ point_id @ ''; expected `'' @ value_path @ ''` or `value`'')
         (case value_at js document value_path of Some v \<Rightarrow> Some v | None \<Rightarrow> value_at js document ''value'')) (\<lambda>raw.
     rbind (map_err (\<lambda>_. ''invalid command value for point '' @ point_id) (telemetry_value_of js raw (pm_value_type m))) (\<lambda>v.
     rbind (check_write_range env point_id m v) (\<lambda>_. Inr v))))"

definition plan_point_write ::
  "'j command_env \<Rightarrow> telemetry_point_mapping list \<Rightarrow> 'j command_node \<Rightarrow> 'j \<Rightarrow> string + planned_point_write option" where
  "plan_point_write env mappings n document = (
     let js = ce_json env; point_id = node_ref n in
     rbind (ok_or (''write node '' @ cn_node_id n @ '' point not found: '' @ point_id) (mapping_by_id mappings point_id)) (\<lambda>m.
     if \<not> is_writable (pm_access m) then Inl (''point '' @ point_id @ '' is not writable'')
     else if (case string_at js document ''pointId'' of Some p \<Rightarrow> p \<noteq> point_id | None \<Rightarrow> False) then Inr None
     else case option_filter (\<lambda>d. d \<noteq> pm_device_id m) (string_at js document ''deviceId'') of
         Some d \<Rightarrow> Inl (''command device '' @ d @ '' does not match point '' @ point_id @ '' device '' @ pm_device_id m)
       | None \<Rightarrow>
           rbind (write_value env n document m) (\<lambda>v.
           rbind (write_verification_of js n) (\<lambda>verification.
           rbind (readback_tolerance_of js n (pm_value_type m)) (\<lambda>tolerance.
             Inr (Some \<lparr>pp_node_id = cn_node_id n, pp_mapping = m, pp_value = v,
                        pp_verification = verification, pp_readback_tolerance = tolerance\<rparr>))))))"

definition command_values_match :: "telemetry_value \<Rightarrow> telemetry_value \<Rightarrow> f64 \<Rightarrow> bool" where
  "command_values_match expected actual tolerance = (case (as_f64 expected, as_f64 actual) of
       (Some e, Some a) \<Rightarrow> f64_le (f64_abs (f64_sub e a)) tolerance
     | _ \<Rightarrow> tv_eq expected actual)"

section \<open>The walk\<close>

record plan_state =
  ps_visited :: "string list"
  ps_writes :: "planned_point_write list"
  ps_replies :: "string list"
  ps_gates :: "planned_safety_gate list"

definition node_by_id :: "'j command_flow \<Rightarrow> string \<Rightarrow> 'j command_node option" where
  "node_by_id flow i = map_of (rev (map (\<lambda>n. (cn_node_id n, n)) (fl_nodes flow))) i"

text \<open>Visiting a node: the new state and, unless the walk stops here, the port whose edges are
  followed (\<open>None\<close> for every port).\<close>

definition visit_node ::
  "'j command_env \<Rightarrow> telemetry_point_mapping list \<Rightarrow> 'j \<Rightarrow> 'j command_node \<Rightarrow> plan_state \<Rightarrow> string + plan_state \<times> string option option" where
  "visit_node env mappings document n st = (case cn_kind n of
       MqttInput \<Rightarrow> Inr (st, Some None)
     | JsonParse \<Rightarrow> Inr (st, Some None)
     | Condition \<Rightarrow> rbind (evaluate_condition (ce_json env) n document) (\<lambda>b.
         Inr (st, Some (Some (if b then ''true'' else ''false''))))
     | SafetyGate \<Rightarrow> rbind (plan_safety_gate env n document (ce_now env (length (ps_visited st)))) (\<lambda>g.
         Inr (st\<lparr>ps_gates := ps_gates st @ [g]\<rparr>, Some None))
     | PointWrite \<Rightarrow> rbind (plan_point_write env mappings n document) (\<lambda>w. case w of
           Some w' \<Rightarrow> Inr (st\<lparr>ps_writes := ps_writes st @ [w']\<rparr>, Some None)
         | None \<Rightarrow> Inr (st, None))
     | MqttReply \<Rightarrow> Inr (st\<lparr>ps_replies := ps_replies st @ [cn_node_id n]\<rparr>, None))"

definition followed :: "'j command_flow \<Rightarrow> string \<Rightarrow> string option \<Rightarrow> string list" where
  "followed flow i port = map ge_to (filter (\<lambda>e. ge_from e = i \<and>
     (ge_from_port e = None \<or> port = None \<or> ge_from_port e = port)) (fl_edges flow))"

definition node_ids :: "'j command_flow \<Rightarrow> string set" where
  "node_ids flow = cn_node_id ` set (fl_nodes flow)"

lemma node_by_id_known: "node_by_id flow i = Some n \<Longrightarrow> i \<in> node_ids flow \<and> cn_node_id n = i \<and> n \<in> set (fl_nodes flow)"
  unfolding node_by_id_def node_ids_def by (drule map_of_SomeD) auto

lemma visit_node_visited: "visit_node env mappings document n st = Inr (st', port) \<Longrightarrow> ps_visited st' = ps_visited st"
  by (auto simp: visit_node_def result_simps split: command_node_kind.splits option.splits)

function walk ::
  "'j command_env \<Rightarrow> telemetry_point_mapping list \<Rightarrow> 'j command_flow \<Rightarrow> 'j \<Rightarrow> string list \<Rightarrow> plan_state \<Rightarrow> string + plan_state" where
  "walk env mappings flow document queue st = (case queue of
       [] \<Rightarrow> Inr st
     | i # rest \<Rightarrow>
         if i \<in> set (ps_visited st) then walk env mappings flow document rest st
         else (case node_by_id flow i of
             None \<Rightarrow> Inl (''command graph node not found: '' @ i)
           | Some n \<Rightarrow> (case visit_node env mappings document n (st\<lparr>ps_visited := i # ps_visited st\<rparr>) of
                 Inl e \<Rightarrow> Inl e
               | Inr (st', port) \<Rightarrow> walk env mappings flow document
                   (rest @ (case port of None \<Rightarrow> [] | Some p \<Rightarrow> followed flow i p)) st')))"
  by pat_completeness auto
termination
proof (relation "inv_image (less_than <*lex*> less_than)
    (\<lambda>(env, mappings, flow, document, queue, st). (card (node_ids flow - set (ps_visited st)), length queue))", goal_cases)
  case 1
  then show ?case by auto
next
  case 2
  then show ?case by auto
next
  case (3 env mappings flow document queue st i rest n x st' port)
  have "ps_visited st' = i # ps_visited st" using visit_node_visited 3 by fastforce
  moreover have "i \<in> node_ids flow" using node_by_id_known 3 by blast
  moreover have "finite (node_ids flow)" by (simp add: node_ids_def)
  ultimately have "card (node_ids flow - set (ps_visited st')) < card (node_ids flow - set (ps_visited st))"
    using 3(2) by (intro psubset_card_mono) auto
  then show ?case by simp
qed

declare walk.simps [simp del]

lemmas walk_steps = walk.simps [of _ _ _ _ "[]"] walk.simps [of _ _ _ _ "i # rest" for i rest]

record 'j execution_plan =
  xp_flow :: "'j command_flow"
  xp_command_id :: string
  xp_command_source :: "string option"
  xp_writes :: "planned_point_write list"
  xp_reply_node_ids :: "string list"
  xp_safety_gates :: "planned_safety_gate list"

definition plan_start :: plan_state where
  "plan_start = \<lparr>ps_visited = [], ps_writes = [], ps_replies = [], ps_gates = []\<rparr>"

definition input_nodes :: "'j command_flow \<Rightarrow> string list" where
  "input_nodes flow = map cn_node_id (filter (\<lambda>n. cn_kind n = MqttInput) (fl_nodes flow))"

definition command_id_of :: "'j json_ops \<Rightarrow> 'j \<Rightarrow> string option" where
  "command_id_of js document = option_filter (\<lambda>s. trim s \<noteq> [])
     (case string_at js document ''commandId'' of Some s \<Rightarrow> Some s | None \<Rightarrow> string_at js document ''command_id'')"

definition plan_command_execution ::
  "'j command_env \<Rightarrow> 'j edge_config_package \<Rightarrow> string \<Rightarrow> u8 list \<Rightarrow> string + 'j execution_plan" where
  "plan_command_execution env package flow_id payload = (
     let js = ce_json env in
     rbind (ok_or (''command flow not found: '' @ flow_id) (find (\<lambda>f. fl_flow_id f = flow_id) (ep_command_flows package))) (\<lambda>flow.
     if \<not> fl_enabled flow then Inl (''command flow '' @ flow_id @ '' is disabled'')
     else rbind (ok_or ''command payload must be valid JSON'' (js_from_slice js payload)) (\<lambda>document.
     rbind (ok_or ''command payload requires commandId'' (command_id_of js document)) (\<lambda>command_id.
     rbind (validate_expiry env document (ce_now env 0 0)) (\<lambda>_.
     rbind (walk env (ep_point_mappings package) flow document (input_nodes flow) plan_start) (\<lambda>st.
     if ps_writes st = [] then Inl (''command flow '' @ flow_id @ '' did not select a writable point'')
     else if ps_replies st = [] then Inl (''command flow '' @ flow_id @ '' did not reach a reply node'')
     else Inr \<lparr>xp_flow = flow, xp_command_id = command_id,
               xp_command_source = (case List.map_filter sg_source (ps_gates st) of
                   s # _ \<Rightarrow> Some s | [] \<Rightarrow> string_at js document ''requestedBy''),
               xp_writes = ps_writes st, xp_reply_node_ids = ps_replies st, xp_safety_gates = ps_gates st\<rparr>))))))"

section \<open>Reports\<close>

datatype execution_status = Succeeded | Failed

record command_write_record =
  cw_node_id :: string
  cw_point_id :: string
  cw_device_id :: string
  cw_value :: telemetry_value
  cw_verified :: bool
  cw_verification :: write_verification
  cw_readback_value :: "telemetry_value option"

record mqtt_publish_message =
  mm_sink_id :: string
  mm_broker :: string
  mm_client_id :: string
  mm_topic :: string
  mm_qos :: u8
  mm_payload :: "u8 list"

record execution_report =
  xr_flow_id :: string
  xr_command_id :: string
  xr_source :: "string option"
  xr_status :: execution_status
  xr_writes :: "command_write_record list"
  xr_error :: "string option"
  xr_completed_at :: int
  xr_duplicate :: bool
  xr_replies :: "mqtt_publish_message list"

definition report_new :: "string \<Rightarrow> string \<Rightarrow> int \<Rightarrow> execution_report" where
  "report_new flow_id command_id now = \<lparr>xr_flow_id = flow_id, xr_command_id = command_id, xr_source = None,
     xr_status = Succeeded, xr_writes = [], xr_error = None, xr_completed_at = now, xr_duplicate = False, xr_replies = []\<rparr>"

definition record_write :: "planned_point_write \<Rightarrow> protocol_write_result \<Rightarrow> execution_report \<Rightarrow> execution_report" where
  "record_write w res r = r\<lparr>xr_writes := xr_writes r @
     [\<lparr>cw_node_id = pp_node_id w, cw_point_id = wr_point_id res, cw_device_id = pm_device_id (pp_mapping w),
       cw_value = wr_value res, cw_verified = wr_verified res, cw_verification = pp_verification w,
       cw_readback_value = wr_readback_value res\<rparr>]\<rparr>"

definition report_fail :: "string \<Rightarrow> int \<Rightarrow> execution_report \<Rightarrow> execution_report" where
  "report_fail e now r = r\<lparr>xr_status := Failed, xr_error := Some e, xr_completed_at := now\<rparr>"

text \<open>\<open>str::replace\<close> with a non-empty pattern.\<close>

function str_replace :: "string \<Rightarrow> string \<Rightarrow> string \<Rightarrow> string" where
  "str_replace p r s = (case s of
       [] \<Rightarrow> []
     | c # cs \<Rightarrow> if p \<noteq> [] \<and> starts_with s p then r @ str_replace p r (drop (length p) s) else c # str_replace p r cs)"
  by pat_completeness auto
termination by (relation "measure (\<lambda>(p, r, s). length s)") auto

declare str_replace.simps [simp del]

text \<open>The JSON text of the reply is written by serde_json: \<open>to_vec\<close> is an argument and may fail.\<close>

definition build_command_reply_messages ::
  "(execution_report \<Rightarrow> string + u8 list) \<Rightarrow> 'j edge_config_package \<Rightarrow> 'j execution_plan \<Rightarrow> execution_report \<Rightarrow>
   string + mqtt_publish_message list" where
  "build_command_reply_messages to_vec package plan report = (
     let flow = xp_flow plan in
     rbind (ok_or (''command flow '' @ fl_flow_id flow @ '' MQTT connection not found: '' @ fl_mqtt_connection_id flow)
         (find (\<lambda>u. mu_sink_id u = fl_mqtt_connection_id flow) (ep_mqtt_uplinks package))) (\<lambda>uplink.
     rbind (to_vec report) (\<lambda>payload.
     let point_id = (case xr_writes report of w # _ \<Rightarrow> cw_point_id w | [] \<Rightarrow> ''unknown'');
         device_id = (case xr_writes report of w # _ \<Rightarrow> cw_device_id w | [] \<Rightarrow> ''unknown'');
         topic = str_replace ''{point_id}'' point_id (str_replace ''{device_id}'' device_id
           (str_replace ''{command_id}'' (xr_command_id report) (str_replace ''{edge_id}'' (ep_edge_id package)
             (fl_reply_topic_template flow)))) in
     Inr (map (\<lambda>_. \<lparr>mm_sink_id = mu_sink_id uplink, mm_broker = mu_broker uplink, mm_client_id = mu_client_id uplink,
                   mm_topic = topic, mm_qos = fl_qos flow, mm_payload = payload\<rparr>) (xp_reply_node_ids plan)))))"

section \<open>What a plan contains\<close>

text \<open>The port that is followed after a node, and the nodes that the payload selects from it.\<close>

definition continuation :: "'j command_env \<Rightarrow> telemetry_point_mapping list \<Rightarrow> 'j \<Rightarrow> 'j command_node \<Rightarrow> string option option" where
  "continuation env mappings document n = (case cn_kind n of
       Condition \<Rightarrow> (case evaluate_condition (ce_json env) n document of
           Inr b \<Rightarrow> Some (Some (if b then ''true'' else ''false'')) | Inl _ \<Rightarrow> None)
     | PointWrite \<Rightarrow> (case plan_point_write env mappings n document of Inr (Some _) \<Rightarrow> Some None | _ \<Rightarrow> None)
     | MqttReply \<Rightarrow> None
     | _ \<Rightarrow> Some None)"

definition selected ::
  "'j command_env \<Rightarrow> telemetry_point_mapping list \<Rightarrow> 'j command_flow \<Rightarrow> 'j \<Rightarrow> (string \<times> string) set" where
  "selected env mappings flow document = {(i, j). \<exists>n p. node_by_id flow i = Some n \<and>
     continuation env mappings document n = Some p \<and> j \<in> set (followed flow i p)}"

definition selected_nodes ::
  "'j command_env \<Rightarrow> telemetry_point_mapping list \<Rightarrow> 'j command_flow \<Rightarrow> 'j \<Rightarrow> string set" where
  "selected_nodes env mappings flow document = (selected env mappings flow document)\<^sup>* `` set (input_nodes flow)"

definition node_writes ::
  "'j command_env \<Rightarrow> telemetry_point_mapping list \<Rightarrow> 'j command_flow \<Rightarrow> 'j \<Rightarrow> string \<Rightarrow> planned_point_write list" where
  "node_writes env mappings flow document i = (case node_by_id flow i of
       Some n \<Rightarrow> (case (cn_kind n, plan_point_write env mappings n document) of (PointWrite, Inr (Some w)) \<Rightarrow> [w] | _ \<Rightarrow> [])
     | None \<Rightarrow> [])"

definition is_reply :: "'j command_flow \<Rightarrow> string \<Rightarrow> bool" where
  "is_reply flow i = (case node_by_id flow i of Some n \<Rightarrow> cn_kind n = MqttReply | None \<Rightarrow> False)"

definition gate_passed :: "'j command_env \<Rightarrow> 'j command_flow \<Rightarrow> 'j \<Rightarrow> planned_safety_gate list \<Rightarrow> string \<Rightarrow> bool" where
  "gate_passed env flow document gates i = (\<forall>n. node_by_id flow i = Some n \<and> cn_kind n = SafetyGate \<longrightarrow>
     (\<exists>k. \<exists>g \<in> set gates. plan_safety_gate env n document (ce_now env k) = Inr g))"

definition walk_inv ::
  "'j command_env \<Rightarrow> telemetry_point_mapping list \<Rightarrow> 'j command_flow \<Rightarrow> 'j \<Rightarrow> string list \<Rightarrow> plan_state \<Rightarrow> bool" where
  "walk_inv env mappings flow document queue st = (
     let R = selected env mappings flow document; V = ps_visited st in
     distinct V \<and> R `` set V \<subseteq> set V \<union> set queue \<and> set (input_nodes flow) \<subseteq> set V \<union> set queue \<and>
     set V \<union> set queue \<subseteq> selected_nodes env mappings flow document \<and> (\<forall>i \<in> set V. node_by_id flow i \<noteq> None) \<and>
     ps_writes st = concat (map (node_writes env mappings flow document) (rev V)) \<and>
     ps_replies st = filter (is_reply flow) (rev V) \<and>
     (\<forall>i \<in> set V. gate_passed env flow document (ps_gates st) i))"

lemma visit_node_effect:
  assumes "visit_node env mappings document n st = Inr (st', port)" "node_by_id flow i = Some n"
  shows "port = continuation env mappings document n \<and> ps_visited st' = ps_visited st \<and>
    ps_writes st' = ps_writes st @ node_writes env mappings flow document i \<and>
    ps_replies st' = ps_replies st @ (if is_reply flow i then [i] else []) \<and> set (ps_gates st) \<subseteq> set (ps_gates st') \<and>
    gate_passed env flow document (ps_gates st') i"
  using assms node_by_id_known [OF assms(2)]
  by (cases "cn_kind n")
    (auto simp: visit_node_def continuation_def node_writes_def is_reply_def gate_passed_def result_simps split: option.splits)

lemma gate_passed_mono: "gate_passed env flow document gs i \<Longrightarrow> set gs \<subseteq> set gs' \<Longrightarrow> gate_passed env flow document gs' i"
  unfolding gate_passed_def by blast

lemma walk_inv_skip:
  "walk_inv env mappings flow document (i # rest) st \<Longrightarrow> i \<in> set (ps_visited st) \<Longrightarrow> walk_inv env mappings flow document rest st"
  unfolding walk_inv_def Let_def by auto

lemma walk_inv_visit:
  assumes inv: "walk_inv env mappings flow document (i # rest) st" and i: "i \<notin> set (ps_visited st)"
    and n: "node_by_id flow i = Some n"
    and v: "visit_node env mappings document n (st\<lparr>ps_visited := i # ps_visited st\<rparr>) = Inr (st', port)"
  shows "walk_inv env mappings flow document (rest @ (case port of None \<Rightarrow> [] | Some p \<Rightarrow> followed flow i p)) st'"
proof -
  let ?R = "selected env mappings flow document"
  define q where "q = (case port of None \<Rightarrow> [] | Some p \<Rightarrow> followed flow i p)"
  note e = visit_node_effect [OF v n]
  have nx: "?R `` {i} = set q"
    unfolding q_def conjunct1 [OF e] using n by (cases "continuation env mappings document n") (auto simp: selected_def)
  have "i \<in> selected_nodes env mappings flow document" using inv by (simp add: walk_inv_def Let_def)
  then have sel: "set q \<subseteq> selected_nodes env mappings flow document"
    unfolding nx [symmetric] selected_nodes_def by (auto intro: rtrancl_into_rtrancl)
  have gates: "\<forall>j \<in> insert i (set (ps_visited st)). gate_passed env flow document (ps_gates st') j"
  proof -
    have old: "\<forall>j \<in> set (ps_visited st). gate_passed env flow document (ps_gates st) j" using inv by (simp add: walk_inv_def Let_def)
    have g: "set (ps_gates st) \<subseteq> set (ps_gates st')" "gate_passed env flow document (ps_gates st') i" using e by simp_all
    have "gate_passed env flow document (ps_gates st') j" if "j \<in> set (ps_visited st)" for j
      by (rule gate_passed_mono [OF bspec [OF old that] g(1)])
    with g(2) show ?thesis by simp
  qed
  have "?R `` insert i (set (ps_visited st)) \<subseteq> insert i (set (ps_visited st)) \<union> set rest \<union> set q"
    using inv nx unfolding walk_inv_def Let_def by auto
  with inv i n e sel gates show ?thesis unfolding walk_inv_def Let_def q_def [symmetric] by auto
qed

lemma walk_result:
  "walk env mappings flow document queue st = Inr st' \<Longrightarrow> walk_inv env mappings flow document queue st \<Longrightarrow>
   walk_inv env mappings flow document [] st'"
proof (induction env mappings flow document queue st rule: walk.induct)
  case (1 env mappings flow document queue st)
  show ?case
  proof (cases queue)
    case Nil
    then show ?thesis using 1(3,4) by (simp add: walk_steps)
  next
    case (Cons i rest)
    show ?thesis
    proof (cases "i \<in> set (ps_visited st)")
      case True
      with 1(3,4) Cons show ?thesis
        by (intro 1(1) [OF Cons True]) (simp_all add: walk_steps walk_inv_skip)
    next
      case False
      then obtain n st1 port where n: "node_by_id flow i = Some n"
          and v: "visit_node env mappings document n (st\<lparr>ps_visited := i # ps_visited st\<rparr>) = Inr (st1, port)"
          and w: "walk env mappings flow document (rest @ (case port of None \<Rightarrow> [] | Some p \<Rightarrow> followed flow i p)) st1 = Inr st'"
        using 1(3) Cons by (auto simp: walk_steps split: option.splits sum.splits)
      show ?thesis
        using 1(2) [OF Cons False n v refl w] walk_inv_visit [OF _ False n v] 1(4) Cons by simp
    qed
  qed
qed

lemma walk_inv_start: "walk_inv env mappings flow document (input_nodes flow) plan_start"
  by (auto simp: walk_inv_def plan_start_def selected_nodes_def)

lemma walk_inv_end:
  assumes "walk_inv env mappings flow document [] st"
  shows "set (ps_visited st) = selected_nodes env mappings flow document"
proof
  let ?R = "selected env mappings flow document"
  show "set (ps_visited st) \<subseteq> selected_nodes env mappings flow document" using assms by (simp add: walk_inv_def Let_def)
  have "?R `` set (ps_visited st) \<subseteq> set (ps_visited st)" "set (input_nodes flow) \<subseteq> set (ps_visited st)"
    using assms by (simp_all add: walk_inv_def Let_def)
  then show "selected_nodes env mappings flow document \<subseteq> set (ps_visited st)"
    unfolding selected_nodes_def by (metis Image_closed_trancl Image_mono subset_refl)
qed

lemmas walk_selected = walk_result [OF _ walk_inv_start]

lemma plan_parts:
  assumes "plan_command_execution env package flow_id payload = Inr xp"
  obtains document st where "find (\<lambda>f. fl_flow_id f = flow_id) (ep_command_flows package) = Some (xp_flow xp)"
    "fl_enabled (xp_flow xp)" "js_from_slice (ce_json env) payload = Some document"
    "command_id_of (ce_json env) document = Some (xp_command_id xp)" "validate_expiry env document (ce_now env 0 0) = Inr ()"
    "walk env (ep_point_mappings package) (xp_flow xp) document (input_nodes (xp_flow xp)) plan_start = Inr st"
    "xp_writes xp = ps_writes st" "xp_reply_node_ids xp = ps_replies st" "xp_safety_gates xp = ps_gates st"
    "xp_writes xp \<noteq> []" "xp_reply_node_ids xp \<noteq> []"
  using assms that by (auto simp: plan_command_execution_def Let_def result_simps split: if_splits)

text \<open>
  C5. A plan contains exactly what the payload selects: the nodes reachable from the MQTT inputs along
  the edges that conditions and write nodes let through are visited once each; the planned writes are
  the writes of those nodes in the order of the visits and the replies are the reply nodes among them.
\<close>

theorem plan_contains_selected:
  assumes "plan_command_execution env package flow_id payload = Inr xp"
  shows "\<exists>document order. js_from_slice (ce_json env) payload = Some document \<and> distinct order \<and>
    set order = selected_nodes env (ep_point_mappings package) (xp_flow xp) document \<and>
    xp_writes xp = concat (map (node_writes env (ep_point_mappings package) (xp_flow xp) document) order) \<and>
    xp_reply_node_ids xp = filter (is_reply (xp_flow xp)) order \<and> xp_writes xp \<noteq> [] \<and> xp_reply_node_ids xp \<noteq> []"
proof -
  from assms obtain document st where d: "js_from_slice (ce_json env) payload = Some document"
      and w: "walk env (ep_point_mappings package) (xp_flow xp) document (input_nodes (xp_flow xp)) plan_start = Inr st"
      and x: "xp_writes xp = ps_writes st" "xp_reply_node_ids xp = ps_replies st" "xp_writes xp \<noteq> []" "xp_reply_node_ids xp \<noteq> []"
    by (rule plan_parts)
  from walk_selected [OF w] walk_inv_end [OF walk_selected [OF w]] d x show ?thesis
    by (intro exI [of _ document] exI [of _ "rev (ps_visited st)"]) (simp add: walk_inv_def Let_def)
qed

section \<open>Safety of planned writes\<close>

fun type_of_value :: "telemetry_value \<Rightarrow> telemetry_type" where
  "type_of_value (Float _) = TyFloat"
| "type_of_value (Integer _) = TyInteger"
| "type_of_value (Boolean _) = TyBoolean"
| "type_of_value (Text _) = TyText"

text \<open>A write that may be sent: to a configured, writable point, with a value of its type and in its
  range, and with a usable tolerance for the comparison after reading back.\<close>

definition write_ok :: "telemetry_point_mapping list \<Rightarrow> planned_point_write \<Rightarrow> bool" where
  "write_ok mappings w = (pp_mapping w \<in> set mappings \<and> is_writable (pm_access (pp_mapping w)) \<and>
     type_of_value (pp_value w) = pm_value_type (pp_mapping w) \<and>
     (case (pm_range (pp_mapping w), as_f64 (pp_value w)) of (Some r, Some x) \<Rightarrow> range_contains r x | _ \<Rightarrow> True) \<and>
     f64_is_finite (pp_readback_tolerance w) \<and> \<not> f64_lt (pp_readback_tolerance w) f64_zero)"

lemma telemetry_value_type: "telemetry_value_of js v ty = Inr x \<Longrightarrow> type_of_value x = ty"
  by (auto simp: telemetry_value_of_def result_simps split: telemetry_type.splits)

lemma write_value_ok:
  assumes "write_value env n document m = Inr v"
  shows "type_of_value v = pm_value_type m \<and>
    (case (pm_range m, as_f64 v) of (Some r, Some x) \<Rightarrow> range_contains r x | _ \<Rightarrow> True)"
  using assms telemetry_value_type
  by (auto simp: write_value_def check_write_range_def Let_def result_simps split: option.splits if_splits)

lemma mapping_by_id_in: "mapping_by_id ms i = Some m \<Longrightarrow> m \<in> set ms \<and> pm_point_id m = i"
  unfolding mapping_by_id_def by (drule map_of_SomeD) auto

lemma plan_point_write_ok:
  assumes "plan_point_write env mappings n document = Inr (Some w)"
  shows "write_ok mappings w \<and> pp_node_id w = cn_node_id n \<and> pm_point_id (pp_mapping w) = node_ref n"
proof -
  from assms obtain m v verification tolerance where
      m: "mapping_by_id mappings (node_ref n) = Some m" "is_writable (pm_access m)"
      and v: "write_value env n document m = Inr v"
      and t: "readback_tolerance_of (ce_json env) n (pm_value_type m) = Inr tolerance"
      and w: "w = \<lparr>pp_node_id = cn_node_id n, pp_mapping = m, pp_value = v, pp_verification = verification,
                   pp_readback_tolerance = tolerance\<rparr>"
    by (auto simp: plan_point_write_def Let_def result_simps split: if_splits option.splits)
  from t have "f64_is_finite tolerance \<and> \<not> f64_lt tolerance f64_zero"
    by (auto simp: readback_tolerance_of_def result_simps split: if_splits)
  with mapping_by_id_in [OF m(1)] m(2) write_value_ok [OF v] show ?thesis unfolding write_ok_def w by simp
qed

lemma node_writes_planned:
  "w \<in> set (node_writes env mappings flow document i) \<Longrightarrow> \<exists>n. plan_point_write env mappings n document = Inr (Some w)"
  by (auto simp: node_writes_def split: option.splits command_node_kind.splits sum.splits)

text \<open>A confirmation: a token, a human approver, an approval that is neither from the future nor too
  old, and an expiry within five minutes that has not passed.\<close>

definition confirmed :: "'j command_env \<Rightarrow> 'j command_node \<Rightarrow> 'j \<Rightarrow> int \<Rightarrow> int \<Rightarrow> bool" where
  "confirmed env n document now now' = (
     (\<exists>token. string_at (ce_json env) document ''confirmationToken'' = Some token \<and> 24 \<le> length (trim token) \<and> \<not> has_whitespace (trim token)) \<and>
     (\<exists>actor. string_at (ce_json env) document ''approvedBy'' = Some actor \<and> human_actor (trim actor)) \<and>
     (\<exists>s approved. string_at (ce_json env) document ''approvedAt'' = Some s \<and> ce_rfc3339 env s = Some approved \<and>
        now - ms_ns (max_confirmation_age (ce_json env) n) \<le> approved \<and> approved \<le> now + ms_ns 30000) \<and>
     (\<exists>s expires. string_at (ce_json env) document ''expiresAt'' = Some s \<and> ce_rfc3339 env s = Some expires \<and>
        now' < expires \<and> expires \<le> now + ms_ns (5 * 60 * 1000)))"

lemma option_filter_Some [simp]: "option_filter P m = Some x \<longleftrightarrow> m = Some x \<and> P x"
  by (auto simp: option_filter_def split: option.splits)

lemma validate_confirmation_iff: "validate_confirmation env n document now now' = Inr () \<longleftrightarrow> confirmed env n document now now'"
  unfolding validate_confirmation_def confirmed_def required_expiry_def Let_def
  by (auto simp: result_simps not_less not_le)

lemma plan_safety_gate_confirmed:
  "plan_safety_gate env n document now = Inr g \<Longrightarrow>
   (requires_confirmation (ce_json env) n \<longrightarrow> confirmed env n document (now 1) (now 2)) \<and> sg_node_id g = cn_node_id n"
  by (auto simp: plan_safety_gate_def Let_def result_simps validate_confirmation_iff split: if_splits)

text \<open>
  C3. Every write of a plan goes to a configured, writable point with a value of its type and within its
  range, and every selected safety gate that requires a confirmation has seen one: a token, a human
  approver, a recent approval and an expiry within five minutes that has not passed.
\<close>

theorem planned_writes_safe:
  assumes "plan_command_execution env package flow_id payload = Inr xp" "w \<in> set (xp_writes xp)"
  shows "write_ok (ep_point_mappings package) w \<and>
    (\<exists>document. js_from_slice (ce_json env) payload = Some document \<and>
      (\<forall>i \<in> selected_nodes env (ep_point_mappings package) (xp_flow xp) document. \<forall>n.
         node_by_id (xp_flow xp) i = Some n \<and> cn_kind n = SafetyGate \<and> requires_confirmation (ce_json env) n \<longrightarrow>
         (\<exists>k. confirmed env n document (ce_now env k 1) (ce_now env k 2))))"
proof -
  let ?maps = "ep_point_mappings package"
  from assms(1) obtain document st where d: "js_from_slice (ce_json env) payload = Some document"
      and wk: "walk env ?maps (xp_flow xp) document (input_nodes (xp_flow xp)) plan_start = Inr st"
      and x: "xp_writes xp = ps_writes st"
    by (rule plan_parts)
  note inv = walk_selected [OF wk]
  from inv assms(2) x obtain i where "w \<in> set (node_writes env ?maps (xp_flow xp) document i)"
    by (auto simp: walk_inv_def Let_def)
  from node_writes_planned [OF this] obtain n where "plan_point_write env ?maps n document = Inr (Some w)" ..
  from plan_point_write_ok [OF this] have "write_ok ?maps w" ..
  moreover have "\<exists>k. confirmed env n document (ce_now env k 1) (ce_now env k 2)"
    if "i \<in> selected_nodes env ?maps (xp_flow xp) document" "node_by_id (xp_flow xp) i = Some n" "cn_kind n = SafetyGate"
      "requires_confirmation (ce_json env) n" for i n
  proof -
    have "gate_passed env (xp_flow xp) document (ps_gates st) i"
      using inv that(1) walk_inv_end [OF inv] by (auto simp: walk_inv_def Let_def)
    with that(2-) plan_safety_gate_confirmed show ?thesis by (metis gate_passed_def)
  qed
  ultimately show ?thesis using d by blast
qed

section \<open>Failures of the walk\<close>

text \<open>What can stop the walk at a node of an accepted flow: the payload and the clock.\<close>

definition payload_failure ::
  "'j command_env \<Rightarrow> telemetry_point_mapping list \<Rightarrow> 'j \<Rightarrow> 'j command_node \<Rightarrow> string \<Rightarrow> bool" where
  "payload_failure env mappings document n e = (case cn_kind n of
       Condition \<Rightarrow> evaluate_condition (ce_json env) n document = Inl e
     | SafetyGate \<Rightarrow> (\<exists>k. plan_safety_gate env n document (ce_now env k) = Inl e)
     | PointWrite \<Rightarrow> (\<exists>m. mapping_by_id mappings (node_ref n) = Some m \<and> is_writable (pm_access m) \<and>
         (write_value env n document m = Inl e \<or>
          (\<exists>d. string_at (ce_json env) document ''deviceId'' = Some d \<and> d \<noteq> pm_device_id m \<and>
             e = ''command device '' @ d @ '' does not match point '' @ node_ref n @ '' device '' @ pm_device_id m)))
     | _ \<Rightarrow> False)"

lemma write_params_usable:
  assumes "check_write_params js subject n = Inr ()"
  shows "\<exists>v. write_verification_of js n = Inr v" "\<exists>t. readback_tolerance_of js n ty = Inr t"
proof -
  show "\<exists>v. write_verification_of js n = Inr v"
    using assms by (auto simp: check_write_params_def write_verification_of_def result_simps split: option.splits if_splits)
  have "f64_is_finite 0x3EB0C6F7A0B5ED8D" "\<not> f64_lt 0x3EB0C6F7A0B5ED8D f64_zero" "f64_is_finite f64_zero" "\<not> f64_lt f64_zero f64_zero"
    by (simp_all add: f64_is_finite_def f64_lt_def f64_key_def f64_is_nan_def f64_mag_def f64_sign_def f64_zero_def inf_mag_def)
  then show "\<exists>t. readback_tolerance_of js n ty = Inr t"
    using assms by (auto simp: check_write_params_def readback_tolerance_of_def result_simps split: option.splits if_splits)
qed

lemma visit_failure:
  assumes "command_node_ok (ce_json env) flow mappings n" "visit_node env mappings document n st = Inl e"
  shows "payload_failure env mappings document n e"
proof (cases "cn_kind n = PointWrite")
  case True
  with assms(1) have "check_write_node (ce_json env) flow mappings n = Inr ()" by (simp add: command_node_ok_def)
  then obtain m subject where m: "mapping_by_id mappings (node_ref n) = Some m" "is_writable (pm_access m)"
      and "check_write_params (ce_json env) subject n = Inr ()"
    by (auto simp: check_write_node_def Let_def result_simps split: option.splits if_splits)
  from write_params_usable [OF this(3)] obtain v t where "write_verification_of (ce_json env) n = Inr v"
      "readback_tolerance_of (ce_json env) n (pm_value_type m) = Inr t" by blast
  with True m assms(2) show ?thesis
    by (auto simp: visit_node_def plan_point_write_def payload_failure_def rbind_Inl Let_def option_filter_def
        split: option.splits if_splits)
next
  case False
  with assms(2) show ?thesis
    by (auto simp: visit_node_def payload_failure_def rbind_Inl split: command_node_kind.splits)
qed

lemma node_by_id_found:
  assumes "i \<in> node_ids flow"
  shows "\<exists>n. node_by_id flow i = Some n"
proof -
  have "node_by_id flow i \<noteq> None"
    using assms unfolding node_by_id_def node_ids_def map_of_eq_None_iff by (simp add: image_image)
  then show ?thesis by simp
qed

lemma walk_failure:
  assumes "\<forall>n \<in> set (fl_nodes flow). command_node_ok (ce_json env) flow mappings n"
    and "\<forall>e \<in> set (fl_edges flow). ge_to e \<in> node_ids flow"
  shows "walk env mappings flow document queue st = Inl e \<Longrightarrow> set queue \<subseteq> node_ids flow \<Longrightarrow>
    \<exists>n \<in> set (fl_nodes flow). payload_failure env mappings document n e"
  using assms
proof (induction env mappings flow document queue st rule: walk.induct)
  case (1 env mappings flow document queue st)
  show ?case
  proof (cases queue)
    case Nil
    then show ?thesis using 1(3) by (simp add: walk_steps)
  next
    case (Cons i rest)
    show ?thesis
    proof (cases "i \<in> set (ps_visited st)")
      case True
      with 1(3-) Cons show ?thesis by (intro 1(1) [OF Cons True]) (simp_all add: walk_steps)
    next
      case False
      obtain n where n: "node_by_id flow i = Some n" using node_by_id_found 1(4) Cons by fastforce
      note known = node_by_id_known [OF n]
      show ?thesis
      proof (cases "visit_node env mappings document n (st\<lparr>ps_visited := i # ps_visited st\<rparr>)")
        case (Inl e')
        then have "e' = e" using 1(3) Cons False n by (simp add: walk_steps)
        then show ?thesis using visit_failure [OF _ Inl] known 1(5) by blast
      next
        case (Inr r)
        obtain st1 port where r: "r = (st1, port)" by (cases r)
        let ?q = "rest @ (case port of None \<Rightarrow> [] | Some p \<Rightarrow> followed flow i p)"
        have "set ?q \<subseteq> node_ids flow" using 1(4,6) Cons by (auto simp: followed_def split: option.splits)
        moreover have "walk env mappings flow document ?q st1 = Inl e"
          using 1(3) Cons False n Inr r by (simp add: walk_steps)
        ultimately show ?thesis using 1(2) [OF Cons False n Inr r [symmetric]] 1(5,6) by blast
      qed
    qed
  qed
qed

section \<open>An example\<close>

definition example_env :: "unit command_env" where
  "example_env = \<lparr>ce_json = example_json, ce_rfc3339 = \<lambda>_. None, ce_show_f64 = \<lambda>_. [], ce_now = \<lambda>i k. 0\<rparr>"

definition example_write :: planned_point_write where
  "example_write = \<lparr>pp_node_id = ''write'', pp_mapping = example_mapping, pp_value = Boolean True,
     pp_verification = VResponse, pp_readback_tolerance = f64_zero\<rparr>"

definition example_plan :: "unit execution_plan" where
  "example_plan = \<lparr>xp_flow = example_flow, xp_command_id = ''cmd-1'', xp_command_source = None,
     xp_writes = [example_write], xp_reply_node_ids = [''ack''], xp_safety_gates = []\<rparr>"

lemma example_value_at:
  "value_at example_json () ''commandId'' = Some ()" "value_at example_json () ''value'' = Some ()"
  "value_at example_json () ''expiresAt'' = None" "value_at example_json () ''pointId'' = None"
  "value_at example_json () ''deviceId'' = None" "value_at example_json () ''values.p1'' = None"
  "value_at example_json () ''requestedBy'' = None"
  by (simp_all add: value_at_def example_json_def)

lemma example_plan_point_write:
  "plan_point_write example_env [example_mapping] ((command_node_new ''write'' PointWrite ''write'')\<lparr>cn_ref_id := Some ''p1''\<rparr>) () =
     Inr (Some example_write)"
proof -
  have "\<not> f64_lt f64_zero f64_zero" "f64_is_finite f64_zero"
    by (simp_all add: f64_is_finite_def f64_lt_def f64_key_def f64_is_nan_def f64_mag_def f64_sign_def f64_zero_def)
  then show ?thesis
    by (simp add: plan_point_write_def command_node_new_def node_ref_def mapping_by_id_def example_mapping_def mapping_new_def
        is_writable_def string_at_def example_env_def example_value_at option_filter_def write_value_def param_str_def
        telemetry_value_of_def example_json_def [THEN arg_cong [of _ _ js_as_bool]] check_write_range_def
        write_verification_of_def verification_param_def readback_tolerance_of_def example_write_def)
qed

lemma example_nodes:
  "node_by_id example_flow ''receive'' = Some (command_node_new ''receive'' MqttInput ''in'')"
  "node_by_id example_flow ''write'' = Some ((command_node_new ''write'' PointWrite ''write'')\<lparr>cn_ref_id := Some ''p1''\<rparr>)"
  "node_by_id example_flow ''ack'' = Some (command_node_new ''ack'' MqttReply ''out'')"
  by (simp_all add: node_by_id_def example_flow_def command_node_new_def)

lemma command_node_new_sel: "cn_kind (command_node_new i kd l) = kd" "cn_node_id (command_node_new i kd l) = i"
  by (simp_all add: command_node_new_def)

lemma example_followed: "followed example_flow ''receive'' p = [''write'']" "followed example_flow ''write'' p = [''ack'']"
  by (simp_all add: followed_def example_flow_def edge_new_def)

lemma example_inputs: "input_nodes example_flow = [''receive'']"
  by (simp add: input_nodes_def example_flow_def command_node_new_sel)

lemma example_plan_result: "plan_command_execution example_env example_package ''start-pump'' [] = Inr example_plan"
proof -
  have "walk example_env [example_mapping] example_flow () [''receive''] plan_start =
      Inr \<lparr>ps_visited = [''ack'', ''write'', ''receive''], ps_writes = [example_write], ps_replies = [''ack''], ps_gates = []\<rparr>"
    by (simp add: walk_steps plan_start_def example_nodes example_followed visit_node_def command_node_new_sel example_plan_point_write)
  moreover have "fl_enabled example_flow" "fl_flow_id example_flow = ''start-pump''"
    by (simp_all add: example_flow_def command_flow_new_def)
  moreover have "ep_command_flows example_package = [example_flow]" "ep_point_mappings example_package = [example_mapping]"
    by (simp_all add: example_package_def)
  moreover have "js_from_slice example_json [] = Some ()" "js_as_str example_json () = Some ''cmd-1''" by (simp_all add: example_json_def)
  moreover have "ce_json example_env = example_json" by (simp add: example_env_def)
  ultimately show ?thesis
    by (simp add: plan_command_execution_def example_inputs command_id_of_def string_at_def example_value_at option_filter_def trim_plain
        validate_expiry_def example_plan_def map_filter_simps)
qed

theorem plan_contains_selected_witness:
  "\<exists>order. set order = selected_nodes example_env [example_mapping] example_flow () \<and> [''ack''] = filter (is_reply example_flow) order"
proof -
  have p: "ep_point_mappings example_package = [example_mapping]" by (simp add: example_package_def)
  from plan_contains_selected [OF example_plan_result] show ?thesis
    unfolding p by (auto simp: example_plan_def)
qed

theorem planned_writes_safe_witness: "write_ok [example_mapping] example_write"
proof -
  have p: "ep_point_mappings example_package = [example_mapping]" by (simp add: example_package_def)
  have "example_write \<in> set (xp_writes example_plan)" by (simp add: example_plan_def)
  from planned_writes_safe [OF example_plan_result this] show ?thesis unfolding p by blast
qed

section \<open>A gate that is accepted and never passes\<close>

text \<open>
  C40. The validator of command flows accepts a safety gate with any positive command limit, while planning
  refuses limits beyond 32 bits: such a gate is accepted and then fails every command that reaches it.
\<close>

theorem oversized_gate_never_passes:
  assumes "cn_params n = [''max_commands'' \<mapsto> a, ''window_ms'' \<mapsto> b]"
    and "js_as_u64 (ce_json env) a = Some x" "2 ^ 32 \<le> x" "js_as_u64 (ce_json env) b = Some y" "0 < y"
  shows "check_safety_node (ce_json env) flow n = Inr () \<and> (\<forall>document now. \<exists>e. plan_safety_gate env n document now = Inl e)"
proof -
  have "x \<noteq> 0" "2 ^ 32 \<le> unat x" using assms(3) by (auto simp: word_le_nat_alt)
  then have "check_safety_node (ce_json env) flow n = Inr ()"
    using assms by (simp add: check_safety_node_def positive_param_def option_filter_def word_neq_0_conv)
  moreover have "\<exists>e. plan_safety_gate env n document now = Inl e" for document now
  proof (cases "plan_safety_gate env n document now")
    case (Inr g)
    then have False
      using assms(1,2) \<open>2 ^ 32 \<le> unat x\<close> by (auto simp: plan_safety_gate_def Let_def result_simps u64_param_def split: if_splits)
    then show ?thesis ..
  qed simp
  ultimately show ?thesis by blast
qed

theorem oversized_gate_never_passes_witness:
  "\<exists>e. plan_safety_gate (example_env\<lparr>ce_json := example_json\<lparr>js_as_u64 := \<lambda>_. Some (2 ^ 32)\<rparr>\<rparr>)
     ((command_node_new ''gate'' SafetyGate ''gate'')\<lparr>cn_params := [''max_commands'' \<mapsto> (), ''window_ms'' \<mapsto> ()]\<rparr>) () (\<lambda>k. 0) = Inl e"
proof -
  let ?env = "example_env\<lparr>ce_json := example_json\<lparr>js_as_u64 := \<lambda>_. Some (2 ^ 32)\<rparr>\<rparr>"
  let ?n = "(command_node_new ''gate'' SafetyGate ''gate'')\<lparr>cn_params := [''max_commands'' \<mapsto> (), ''window_ms'' \<mapsto> ()]\<rparr> :: unit command_node"
  have "cn_params ?n = [''max_commands'' \<mapsto> (), ''window_ms'' \<mapsto> ()]" "js_as_u64 (ce_json ?env) () = Some (2 ^ 32)"
    "(2 :: u64) ^ 32 \<le> 2 ^ 32" "(0 :: u64) < 2 ^ 32" by simp_all
  from oversized_gate_never_passes [OF this(1,2,3,2,4)] show ?thesis by blast
qed

end
