(* ===== verification/Expression.thy ===== *)
theory Expression
  imports Package
begin

text \<open>
  The expression language of algorithm steps (crates/edge-runtime/src/algorithm.rs,
  \<open>evaluate_expression\<close> and \<open>ExpressionParser\<close>): a recursive descent parser that evaluates while it
  parses. The position of the parser is the text that is left. The five mutually recursive loops are
  one function with a mode, a \<open>partial_function\<close> whose value is \<open>None\<close> when the parser does not
  return. The power function of the platform is an argument; the other functions are IEEE 754.
\<close>

section \<open>Functions on floating-point numbers\<close>

definition f64_int_part :: "(int \<Rightarrow> nat \<Rightarrow> int) \<Rightarrow> f64 \<Rightarrow> f64" where
  "f64_int_part part x = (if f64_is_finite x
     then (case f64_num x of (m, e) \<Rightarrow> if 0 \<le> e then x else f64_round (f64_sign x) (part m (nat (- e))) 1 0)
     else x)"

text \<open>\<open>floor\<close>, \<open>ceil\<close>, and \<open>round\<close>, which takes halves away from zero.\<close>

definition f64_floor :: "f64 \<Rightarrow> f64" where
  "f64_floor = f64_int_part (\<lambda>m k. m div 2 ^ k)"

definition f64_ceil :: "f64 \<Rightarrow> f64" where
  "f64_ceil = f64_int_part (\<lambda>m k. - ((- m) div 2 ^ k))"

definition f64_round_half_away :: "f64 \<Rightarrow> f64" where
  "f64_round_half_away = f64_int_part (\<lambda>m k. sgn m * ((2 * \<bar>m\<bar> + 2 ^ k) div 2 ^ Suc k))"

fun isqrt :: "nat \<Rightarrow> nat" where
  "isqrt n = (if n = 0 then 0 else let r = 2 * isqrt (n div 4) in if (r + 1) * (r + 1) \<le> n then r + 1 else r)"

declare isqrt.simps [simp del]

text \<open>The square root of \<open>m * 2 ^ e\<close>: sixty more binary digits and a sticky bit decide the rounding.\<close>

definition f64_sqrt :: "f64 \<Rightarrow> f64" where
  "f64_sqrt x =
     (if f64_is_nan x then f64_nan
      else if f64_mag x = 0 then x
      else if f64_sign x then f64_nan
      else if f64_is_inf x then x
      else (case f64_dec x of (m, e) \<Rightarrow>
        let (m', e') = (if even e then (m, e) else (2 * m, e - 1)); n = m' * 4 ^ 60; r = isqrt n in
        f64_round False (int (2 * r + (if r * r = n then 0 else 1))) 1 (e' div 2 - 61)))"

text \<open>\<open>min\<close> and \<open>max\<close> ignore a NaN; of two zeros either may be returned, here the second.\<close>

definition f64_min :: "f64 \<Rightarrow> f64 \<Rightarrow> f64" where
  "f64_min x y = (if f64_is_nan x then y else if f64_is_nan y then x else if f64_lt x y then x else y)"

definition f64_max :: "f64 \<Rightarrow> f64 \<Rightarrow> f64" where
  "f64_max x y = (if f64_is_nan x then y else if f64_is_nan y then x else if f64_lt y x then x else y)"

text \<open>\<open>str::parse::<f64>\<close> on digits with a point and an exponent: at least one digit in the mantissa,
  rounded once.\<close>

definition digits_of :: "string \<Rightarrow> string" where
  "digits_of s = takeWhile is_ascii_digit s"

definition parse_exponent :: "string \<Rightarrow> int option" where
  "parse_exponent s = (case s of
       [] \<Rightarrow> Some 0
     | c # t \<Rightarrow> if c \<noteq> CHR ''e'' \<and> c \<noteq> CHR ''E'' then None
         else let (sg, ds) = (case t of
                 d # t' \<Rightarrow> if d = CHR ''-'' then (-1, t') else if d = CHR ''+'' then (1, t') else (1, t)
               | [] \<Rightarrow> (1, [])) in
           if ds = [] then None else map_option (\<lambda>v. sg * int v) (digits_val 10 ds 0))"

definition parse_f64_literal :: "string \<Rightarrow> f64 option" where
  "parse_f64_literal s = (
     let whole = digits_of s; t = drop (length whole) s;
         frac = (case t of c # u \<Rightarrow> if c = CHR ''.'' then digits_of u else [] | [] \<Rightarrow> []);
         tail = (case t of c # u \<Rightarrow> if c = CHR ''.'' then drop (length frac) u else t | [] \<Rightarrow> []) in
     if whole @ frac = [] then None
     else (case (digits_val 10 (whole @ frac) 0, parse_exponent tail) of
         (Some m, Some e) \<Rightarrow> (let k = e - int (length frac) in
            Some (if 0 \<le> k then f64_round False (int m * 10 ^ nat k) 1 0 else f64_round False (int m) (10 ^ nat (- k)) 0))
       | _ \<Rightarrow> None))"

section \<open>The parser\<close>

type_synonym aliases = "string \<rightharpoonup> telemetry_sample"

definition is_identifier_char :: "char \<Rightarrow> bool" where
  "is_identifier_char c = (is_ascii_digit c \<or> (let n = of_char c :: nat in 65 \<le> n \<and> n \<le> 90 \<or> 97 \<le> n \<and> n \<le> 122) \<or> c = CHR ''_'')"

fun number_chars :: "char option \<Rightarrow> string \<Rightarrow> string" where
  "number_chars prev [] = []"
| "number_chars prev (c # cs) =
     (if \<not> (is_ascii_digit c \<or> c \<in> set ''.eE+-'') then []
      else if prev \<noteq> None \<and> c \<in> set ''+-'' \<and> prev \<notin> {Some (CHR ''e''), Some (CHR ''E'')} then []
      else c # number_chars (Some c) cs)"

definition parse_number :: "string \<Rightarrow> string + f64 \<times> string" where
  "parse_number s = (let literal = number_chars None s in
     rbind (ok_or (''invalid numeric literal `'' @ literal @ ''`'') (parse_f64_literal literal)) (\<lambda>v.
       Inr (v, drop (length literal) s)))"

definition parse_identifier :: "string \<Rightarrow> string + string \<times> string" where
  "parse_identifier s = (let i = takeWhile is_identifier_char s in
     if i = [] then Inl ''expected expression value'' else Inr (i, drop (length i) s))"

definition alias_value :: "aliases \<Rightarrow> string \<Rightarrow> string + f64" where
  "alias_value vals i = ok_or (''expression references missing numeric alias `'' @ i @ ''`'')
     (Option.bind (vals i) (\<lambda>s. as_f64 (ts_value s)))"

definition call_function :: "(f64 \<Rightarrow> f64 \<Rightarrow> f64) \<Rightarrow> string \<Rightarrow> f64 \<Rightarrow> f64 option \<Rightarrow> string + f64" where
  "call_function pow f x y = (case y of
       None \<Rightarrow>
         if f = ''abs'' then Inr (f64_abs x) else if f = ''round'' then Inr (f64_round_half_away x)
         else if f = ''floor'' then Inr (f64_floor x) else if f = ''ceil'' then Inr (f64_ceil x)
         else if f = ''sqrt'' \<and> f64_le f64_zero x then Inr (f64_sqrt x)
         else Inl (''unsupported expression function `'' @ f @ ''`'')
     | Some y' \<Rightarrow>
         if f = ''min'' then Inr (f64_min x y') else if f = ''max'' then Inr (f64_max x y')
         else if f = ''pow'' then Inr (pow x y')
         else Inl (''unsupported expression function `'' @ f @ ''`''))"

datatype parse_mode = PExpression | PExpressionLoop f64 | PTerm | PTermLoop f64 | PFactor

definition consume :: "char \<Rightarrow> string \<Rightarrow> string option" where
  "consume c s = (case s of x # xs \<Rightarrow> if x = c then Some xs else None | [] \<Rightarrow> None)"

definition pbind ::
  "(string + f64 \<times> string) option \<Rightarrow> (f64 \<times> string \<Rightarrow> (string + f64 \<times> string) option) \<Rightarrow> (string + f64 \<times> string) option" where
  "pbind m f = Option.bind m (\<lambda>r. case r of Inl e \<Rightarrow> Some (Inl e) | Inr p \<Rightarrow> f p)"

lemma pbind_mono [partial_function_mono]:
  assumes "mono_option B" "\<And>p. mono_option (\<lambda>f. C p f)"
  shows "mono_option (\<lambda>f. pbind (B f) (\<lambda>p. C p f))"
  unfolding pbind_def
proof (rule bind_mono [OF assms(1)])
  fix r :: "string + f64 \<times> string"
  show "mono_option (\<lambda>f. case r of Inl e \<Rightarrow> Some (Inl e) | Inr p \<Rightarrow> C p f)"
    using assms(2) by (cases r) (auto intro: option.const_mono)
qed

definition close_group :: "f64 \<Rightarrow> string \<Rightarrow> string + f64 \<times> string" where
  "close_group v s = (case consume (CHR '')'') (trim_start s) of Some r \<Rightarrow> Inr (v, r) | None \<Rightarrow> Inl ''expression is missing `)`'')"

definition close_call :: "(f64 \<Rightarrow> f64 \<Rightarrow> f64) \<Rightarrow> string \<Rightarrow> f64 \<Rightarrow> f64 option \<Rightarrow> string \<Rightarrow> string + f64 \<times> string" where
  "close_call pow i x y s = (case consume (CHR '')'') (trim_start s) of
       None \<Rightarrow> Inl (''function '' @ i @ '' is missing `)`'')
     | Some r \<Rightarrow> rbind (call_function pow i x y) (\<lambda>v. Inr (v, r)))"

definition division_by_zero :: string where
  "division_by_zero = ''expression division by zero''"

record parse_context =
  px_pow :: "f64 \<Rightarrow> f64 \<Rightarrow> f64"
  px_values :: aliases

partial_function (option) parse ::
  "parse_context \<Rightarrow> parse_mode \<Rightarrow> string \<Rightarrow> (string + f64 \<times> string) option" where
  "parse ctx mode s = (case mode of
       PExpression \<Rightarrow> pbind (parse ctx PTerm s) (\<lambda>(v, s'). parse ctx (PExpressionLoop v) s')
     | PExpressionLoop v \<Rightarrow> (let t = trim_start s in
         case consume (CHR ''+'') t of
           Some u \<Rightarrow> pbind (parse ctx PTerm u) (\<lambda>(w, u'). parse ctx (PExpressionLoop (f64_add v w)) u')
         | None \<Rightarrow> (case consume (CHR ''-'') t of
             Some u \<Rightarrow> pbind (parse ctx PTerm u) (\<lambda>(w, u'). parse ctx (PExpressionLoop (f64_sub v w)) u')
           | None \<Rightarrow> Some (Inr (v, t))))
     | PTerm \<Rightarrow> pbind (parse ctx PFactor s) (\<lambda>(v, s'). parse ctx (PTermLoop v) s')
     | PTermLoop v \<Rightarrow> (let t = trim_start s in
         case consume (CHR ''*'') t of
           Some u \<Rightarrow> pbind (parse ctx PFactor u) (\<lambda>(w, u'). parse ctx (PTermLoop (f64_mul v w)) u')
         | None \<Rightarrow> (case consume (CHR ''/'') t of
             Some u \<Rightarrow> pbind (parse ctx PFactor u) (\<lambda>(w, u').
               if f64_eq w f64_zero then Some (Inl division_by_zero)
               else parse ctx (PTermLoop (f64_div v w)) u')
           | None \<Rightarrow> Some (Inr (v, t))))
     | PFactor \<Rightarrow> (let t = trim_start s in
         case consume (CHR ''-'') t of
           Some u \<Rightarrow> pbind (parse ctx PFactor u) (\<lambda>(v, u'). Some (Inr (f64_neg v, u')))
         | None \<Rightarrow> (case consume (CHR ''('') t of
             Some u \<Rightarrow> pbind (parse ctx PExpression u) (\<lambda>(v, u').
               Some (close_group v u'))
           | None \<Rightarrow>
               if t \<noteq> [] \<and> (is_ascii_digit (hd t) \<or> hd t = CHR ''.'') then Some (parse_number t)
               else (case parse_identifier t of
                   Inl e \<Rightarrow> Some (Inl e)
                 | Inr (i, u) \<Rightarrow> (case consume (CHR ''('') (trim_start u) of
                     None \<Rightarrow> Some (rbind (alias_value (px_values ctx) i) (\<lambda>v. Inr (v, trim_start u)))
                   | Some u1 \<Rightarrow> pbind (parse ctx PExpression u1) (\<lambda>(x, u2).
                       (case consume (CHR '','') (trim_start u2) of
                          None \<Rightarrow> Some (close_call (px_pow ctx) i x None u2)
                        | Some u3 \<Rightarrow> pbind (parse ctx PExpression u3) (\<lambda>(y, u4). Some (close_call (px_pow ctx) i x (Some y) u4)))))))))"

definition evaluate_expression :: "(f64 \<Rightarrow> f64 \<Rightarrow> f64) \<Rightarrow> aliases \<Rightarrow> string \<Rightarrow> (string + f64) option" where
  "evaluate_expression pow vals expr = map_option (\<lambda>r. rbind r (\<lambda>(v, s). let t = trim_start s in
     if t \<noteq> [] then Inl (''unexpected expression token near `'' @ t @ ''`'') else Inr v)) (parse \<lparr>px_pow = pow, px_values = vals\<rparr> PExpression expr)"

section \<open>The parser returns\<close>

lemma pbind_simps [simp]: "pbind (Some (Inl e)) f = Some (Inl e)" "pbind (Some (Inr p)) f = f p"
  by (simp_all add: pbind_def)

lemma consume_shorter: "consume c s = Some t \<Longrightarrow> length s = Suc (length t)"
  by (auto simp: consume_def split: list.splits if_splits)

text \<open>A result that leaves less than \<open>n\<close> characters.\<close>

definition leaves :: "nat \<Rightarrow> (string + f64 \<times> string) option \<Rightarrow> bool" where
  "leaves n m = (\<exists>r. m = Some r \<and> (\<forall>v s. r = Inr (v, s) \<longrightarrow> length s < n))"

lemma leaves_bind:
  assumes "leaves n m" "\<And>v s. length s < n \<Longrightarrow> leaves k (f (v, s))"
  shows "leaves k (pbind m f)"
proof -
  from assms(1) obtain r where r: "m = Some r" "\<forall>v s. r = Inr (v, s) \<longrightarrow> length s < n" by (auto simp: leaves_def)
  show ?thesis
  proof (cases r)
    case (Inl e)
    then show ?thesis using r by (simp add: leaves_def)
  next
    case (Inr p)
    then show ?thesis using r assms(2) by (cases p) simp
  qed
qed

lemma leaves_mono: "leaves n m \<Longrightarrow> n \<le> k \<Longrightarrow> leaves k m"
  unfolding leaves_def by fastforce

lemma leaves_Inl [simp]: "leaves n (Some (Inl e))"
  by (simp add: leaves_def)

lemma leaves_number:
  assumes "t \<noteq> []" "is_ascii_digit (hd t) \<or> hd t = CHR ''.''"
  shows "leaves (length t) (Some (parse_number t))"
proof -
  have "number_chars None t \<noteq> []" using assms by (cases t) auto
  then have "length (drop (length (number_chars None t)) t) < length t" using assms(1) by simp
  then show ?thesis by (auto simp: leaves_def parse_number_def Let_def result_simps)
qed

lemma trim_start_le: "length s < n \<Longrightarrow> length (trim_start s) < n"
  using trim_start_length [of s] by simp

lemma leaves_close:
  "length s < n \<Longrightarrow> leaves n (Some (close_group v s))" "length s < n \<Longrightarrow> leaves n (Some (close_call pow i x y s))"
  using trim_start_length [of s]
  by (auto simp: leaves_def close_group_def close_call_def result_simps dest!: consume_shorter split: option.splits)

lemma parse_leaves:
  "leaves (length s + (case mode of PExpressionLoop _ \<Rightarrow> 1 | PTermLoop _ \<Rightarrow> 1 | _ \<Rightarrow> 0)) (parse ctx mode s)"
proof (induction "length s" arbitrary: mode s rule: less_induct)
  case less
  have ih: "leaves (length s) (parse ctx m u)" if "length u < length s" for m u
    using leaves_mono [OF less [OF that, of m], of "length s"] that by (auto split: parse_mode.splits)
  let ?t = "trim_start s"
  have used: "length u < length s" if "consume c ?t = Some u" for c u
    using consume_shorter [OF that] trim_start_length [of s] by simp
  have factor: "leaves (length s) (parse ctx PFactor s)"
  proof -
    have ident: "leaves (length s) (case parse_identifier ?t of Inl e \<Rightarrow> Some (Inl e)
        | Inr (i, u) \<Rightarrow> (case consume (CHR ''('') (trim_start u) of
            None \<Rightarrow> Some (rbind (alias_value (px_values ctx) i) (\<lambda>v. Inr (v, trim_start u)))
          | Some u1 \<Rightarrow> pbind (parse ctx PExpression u1) (\<lambda>(x, u2). (case consume (CHR '','') (trim_start u2) of
                None \<Rightarrow> Some (close_call (px_pow ctx) i x None u2)
              | Some u3 \<Rightarrow> pbind (parse ctx PExpression u3) (\<lambda>(y, u4). Some (close_call (px_pow ctx) i x (Some y) u4))))))"
    proof (cases "parse_identifier ?t")
      case (Inr r)
      obtain i u where r: "r = (i, u)" by (cases r)
      have "u = drop (length i) ?t" "i \<noteq> []" "?t \<noteq> []" using Inr r by (auto simp: parse_identifier_def Let_def split: if_splits)
      then have u: "length u < length s" using trim_start_length [of s] by (cases ?t; cases i) auto
      show ?thesis
      proof (cases "consume (CHR ''('') (trim_start u)")
        case None
        then show ?thesis using Inr r u trim_start_le [OF u] by (auto simp: leaves_def result_simps)
      next
        case (Some u1)
        have "length u1 < length s" using consume_shorter [OF Some] trim_start_le [OF u] by simp
        moreover have "leaves (length s) (case consume (CHR '','') (trim_start u2) of
              None \<Rightarrow> Some (close_call (px_pow ctx) i x None u2)
            | Some u3 \<Rightarrow> pbind (parse ctx PExpression u3) (\<lambda>(y, u4). Some (close_call (px_pow ctx) i x (Some y) u4)))"
          if "length u2 < length s" for x u2
        proof (cases "consume (CHR '','') (trim_start u2)")
          case (Some u3)
          have "length u3 < length s" using consume_shorter [OF Some] trim_start_le [OF that] by simp
          with Some show ?thesis by (auto intro: leaves_bind [OF ih] leaves_close)
        qed (use that leaves_close in simp)
        ultimately show ?thesis using Inr r Some by (auto intro: leaves_bind [OF ih])
      qed
    qed simp
    have num: "leaves (length s) (Some (parse_number ?t))" if "?t \<noteq> [] \<and> (is_ascii_digit (hd ?t) \<or> hd ?t = CHR ''.'')"
      using leaves_mono [OF leaves_number [of ?t] trim_start_length] that by blast
    show ?thesis
    proof (cases "consume (CHR ''-'') ?t")
      case (Some u)
      have "leaves (length s) (pbind (parse ctx PFactor u) (\<lambda>(v, u'). Some (Inr (f64_neg v, u'))))"
        by (rule leaves_bind [OF ih [OF used [OF Some]]]) (simp add: leaves_def)
      with Some show ?thesis by (simp add: parse.simps [of ctx PFactor s])
    next
      case minus: None
      show ?thesis
      proof (cases "consume (CHR ''('') ?t")
        case (Some u)
        have "leaves (length s) (pbind (parse ctx PExpression u) (\<lambda>(v, u'). Some (close_group v u')))"
          by (rule leaves_bind [OF ih [OF used [OF Some]]]) (simp add: leaves_close)
        with Some minus show ?thesis by (simp add: parse.simps [of ctx PFactor s])
      next
        case None
        with minus ident num show ?thesis by (simp add: parse.simps [of ctx PFactor s] Let_def)
      qed
    qed
  qed
  have ih': "leaves (Suc (length s)) (parse ctx m u)" if "length u < length s" for m u
    using leaves_mono [OF ih [OF that]] by simp
  have rest: "leaves (Suc (length s)) (Some (Inr (v, ?t)))" for v
    using trim_start_length [of s] by (simp add: leaves_def)
  have tloop: "leaves (Suc (length s)) (parse ctx (PTermLoop v) s)" for v
    unfolding parse.simps [of ctx "PTermLoop v" s] Let_def parse_mode.case using used
    by (auto intro!: leaves_bind [OF ih] ih' rest split: option.splits)
  have term1: "leaves (length s) (parse ctx PTerm s)"
    by (subst parse.simps) (auto intro!: leaves_bind [OF factor] ih)
  have eloop: "leaves (Suc (length s)) (parse ctx (PExpressionLoop v) s)" for v
    unfolding parse.simps [of ctx "PExpressionLoop v" s] Let_def parse_mode.case using used
    by (auto intro!: leaves_bind [OF ih] ih' rest split: option.splits)
  have "leaves (length s) (parse ctx PExpression s)"
    by (subst parse.simps) (auto intro!: leaves_bind [OF term1] ih)
  with factor tloop term1 eloop show ?case by (cases mode) simp_all
qed

lemma evaluate_expression_returns: "\<exists>r. evaluate_expression pow vals expr = Some r"
  using parse_leaves [of expr PExpression] by (fastforce simp: evaluate_expression_def leaves_def)

section \<open>What an expression means\<close>

datatype aexp =
    ELit string | EAlias string | ENeg aexp | EAdd aexp aexp | ESub aexp aexp | EMul aexp aexp | EDiv aexp aexp
  | ECall string aexp | ECall2 string aexp aexp

fun eval_aexp :: "(f64 \<Rightarrow> f64 \<Rightarrow> f64) \<Rightarrow> aliases \<Rightarrow> aexp \<Rightarrow> string + f64" where
  "eval_aexp pow vals (ELit l) = ok_or (''invalid numeric literal `'' @ l @ ''`'') (parse_f64_literal l)"
| "eval_aexp pow vals (EAlias i) = alias_value vals i"
| "eval_aexp pow vals (ENeg a) = rbind (eval_aexp pow vals a) (\<lambda>x. Inr (f64_neg x))"
| "eval_aexp pow vals (EAdd a b) = rbind (eval_aexp pow vals a) (\<lambda>x. rbind (eval_aexp pow vals b) (\<lambda>y. Inr (f64_add x y)))"
| "eval_aexp pow vals (ESub a b) = rbind (eval_aexp pow vals a) (\<lambda>x. rbind (eval_aexp pow vals b) (\<lambda>y. Inr (f64_sub x y)))"
| "eval_aexp pow vals (EMul a b) = rbind (eval_aexp pow vals a) (\<lambda>x. rbind (eval_aexp pow vals b) (\<lambda>y. Inr (f64_mul x y)))"
| "eval_aexp pow vals (EDiv a b) = rbind (eval_aexp pow vals a) (\<lambda>x. rbind (eval_aexp pow vals b) (\<lambda>y.
     if f64_eq y f64_zero then Inl division_by_zero else Inr (f64_div x y)))"
| "eval_aexp pow vals (ECall f a) = rbind (eval_aexp pow vals a) (\<lambda>x. call_function pow f x None)"
| "eval_aexp pow vals (ECall2 f a b) = rbind (eval_aexp pow vals a) (\<lambda>x. rbind (eval_aexp pow vals b) (\<lambda>y.
     call_function pow f x (Some y)))"

text \<open>Texts with the parentheses that precedence and association to the left need: level 0 is a sum,
  1 a product, 2 a factor.\<close>

definition paren :: "bool \<Rightarrow> string \<Rightarrow> string" where
  "paren b s = (if b then ''('' @ s @ '')'' else s)"

fun show_aexp :: "nat \<Rightarrow> aexp \<Rightarrow> string" where
  "show_aexp l (ELit s) = s"
| "show_aexp l (EAlias i) = i"
| "show_aexp l (ENeg a) = ''-'' @ show_aexp 2 a"
| "show_aexp l (EAdd a b) = paren (0 < l) (show_aexp 0 a @ ''+'' @ show_aexp 1 b)"
| "show_aexp l (ESub a b) = paren (0 < l) (show_aexp 0 a @ ''-'' @ show_aexp 1 b)"
| "show_aexp l (EMul a b) = paren (1 < l) (show_aexp 1 a @ ''*'' @ show_aexp 2 b)"
| "show_aexp l (EDiv a b) = paren (1 < l) (show_aexp 1 a @ ''/'' @ show_aexp 2 b)"
| "show_aexp l (ECall f a) = f @ ''('' @ show_aexp 0 a @ '')''"
| "show_aexp l (ECall2 f a b) = f @ ''('' @ show_aexp 0 a @ '','' @ show_aexp 0 b @ '')''"

definition literal_ok :: "string \<Rightarrow> bool" where
  "literal_ok l = (l \<noteq> [] \<and> (is_ascii_digit (hd l) \<or> hd l = CHR ''.'') \<and> number_chars None l = l \<and>
     last l \<noteq> CHR ''e'' \<and> last l \<noteq> CHR ''E'')"

definition identifier_ok :: "string \<Rightarrow> bool" where
  "identifier_ok i = (i \<noteq> [] \<and> \<not> is_ascii_digit (hd i) \<and> (\<forall>c \<in> set i. is_identifier_char c))"

fun aexp_ok :: "aexp \<Rightarrow> bool" where
  "aexp_ok (ELit l) = literal_ok l"
| "aexp_ok (EAlias i) = identifier_ok i"
| "aexp_ok (ENeg a) = aexp_ok a"
| "aexp_ok (EAdd a b) = (aexp_ok a \<and> aexp_ok b)"
| "aexp_ok (ESub a b) = (aexp_ok a \<and> aexp_ok b)"
| "aexp_ok (EMul a b) = (aexp_ok a \<and> aexp_ok b)"
| "aexp_ok (EDiv a b) = (aexp_ok a \<and> aexp_ok b)"
| "aexp_ok (ECall f a) = (identifier_ok f \<and> aexp_ok a)"
| "aexp_ok (ECall2 f a b) = (identifier_ok f \<and> aexp_ok a \<and> aexp_ok b)"

text \<open>What may follow a factor and what may follow a sum.\<close>

definition after_factor :: "string \<Rightarrow> bool" where
  "after_factor s = (s = [] \<or> hd s \<in> set ''+-*/),'')"

definition after_sum :: "string \<Rightarrow> bool" where
  "after_sum s = (s = [] \<or> hd s \<in> set ''),'')"

lemma trim_start_plain:
  assumes "s = [] \<or> 32 < (of_char (hd s) :: nat) \<and> (of_char (hd s) :: nat) < 128"
  shows "trim_start s = s"
proof -
  have "ws_len s = 0" using assms ws_len_plain [of "hd s" "tl s"] by (cases s) (auto simp: ws_len_def)
  then show ?thesis by (subst trim_start.simps) simp
qed

lemma after_factor_trim: "after_factor s \<Longrightarrow> trim_start s = s"
  by (rule trim_start_plain) (auto simp: after_factor_def)

lemma number_chars_append:
  assumes "number_chars prev l = l" "l \<noteq> []" "last l \<noteq> CHR ''e''" "last l \<noteq> CHR ''E''" "after_factor s"
  shows "number_chars prev (l @ s) = l"
  using assms
proof (induction prev l rule: number_chars.induct)
  case (2 prev c cs)
  define ok where "ok = ((is_ascii_digit c \<or> c \<in> set ''.eE+-'') \<and>
    \<not> (prev \<noteq> None \<and> c \<in> set ''+-'' \<and> prev \<notin> {Some (CHR ''e''), Some (CHR ''E'')}))"
  have step: "number_chars prev (c # u) = (if ok then c # number_chars (Some c) u else [])" for u
    unfolding number_chars.simps ok_def by (simp only: split: if_split) blast
  have ok: "ok" "number_chars (Some c) cs = cs" using 2(2) unfolding step by (simp_all split: if_splits)
  show ?case
  proof (cases "cs = []")
    case True
    have "c \<noteq> CHR ''e''" "c \<noteq> CHR ''E''" using 2(4,5) True by simp_all
    then have "number_chars (Some c) s = []"
      using 2(6) by (cases s) (auto simp: after_factor_def is_ascii_digit_def Let_def)
    then show ?thesis using step [of s] ok True by simp
  next
    case False
    have "number_chars (Some c) (cs @ s) = cs"
      by (rule 2(1)) (use ok False 2 in \<open>auto simp: ok_def\<close>)
    with step [of "cs @ s"] ok show ?thesis by simp
  qed
qed simp

lemma identifier_append:
  assumes "identifier_ok i" "s = [] \<or> \<not> is_identifier_char (hd s)"
  shows "parse_identifier (i @ s) = Inr (i, s)"
proof -
  have "takeWhile is_identifier_char (i @ s) = i"
    using assms by (cases s) (auto simp: identifier_ok_def takeWhile_append)
  then show ?thesis using assms(1) by (simp add: parse_identifier_def identifier_ok_def)
qed

lemma identifier_head:
  assumes "identifier_ok i"
  shows "trim_start (i @ s) = i @ s" "consume (CHR ''-'') (i @ s) = None" "consume (CHR ''('') (i @ s) = None"
    "\<not> is_ascii_digit (hd (i @ s))" "hd (i @ s) \<noteq> CHR ''.''"
proof -
  obtain c cs where i: "i = c # cs" "is_identifier_char c" "\<not> is_ascii_digit c" using assms by (cases i) (auto simp: identifier_ok_def)
  then have "65 \<le> (of_char c :: nat)" "(of_char c :: nat) \<le> 122" by (auto simp: is_identifier_char_def Let_def)
  then show "trim_start (i @ s) = i @ s" "consume (CHR ''-'') (i @ s) = None" "consume (CHR ''('') (i @ s) = None"
    "\<not> is_ascii_digit (hd (i @ s))" "hd (i @ s) \<noteq> CHR ''.''"
    using i by (auto intro!: trim_start_plain simp: consume_def)
qed

definition pcont :: "string + f64 \<Rightarrow> (f64 \<Rightarrow> (string + f64 \<times> string) option) \<Rightarrow> (string + f64 \<times> string) option" where
  "pcont r k = (case r of Inl e \<Rightarrow> Some (Inl e) | Inr v \<Rightarrow> k v)"

lemma pcont_simps [simp]: "pcont (Inl e) k = Some (Inl e)" "pcont (Inr v) k = k v"
  by (simp_all add: pcont_def)

definition before_loop :: "string \<Rightarrow> bool" where
  "before_loop s = (s = [] \<or> hd s \<in> set ''+-),'')"

lemma before_loop_after: "before_loop s \<Longrightarrow> after_factor s" "after_sum s \<Longrightarrow> before_loop s" "after_sum s \<Longrightarrow> after_factor s"
  by (auto simp: before_loop_def after_factor_def after_sum_def)

lemma term_loop_stops: "before_loop s \<Longrightarrow> parse ctx (PTermLoop v) s = Some (Inr (v, s))"
  using after_factor_trim [OF before_loop_after(1), of s]
  by (cases s) (auto simp: parse.simps [of ctx "PTermLoop v"] before_loop_def consume_def)

lemma expression_loop_stops: "after_sum s \<Longrightarrow> parse ctx (PExpressionLoop v) s = Some (Inr (v, s))"
  using after_factor_trim [OF before_loop_after(3), of s]
  by (cases s) (auto simp: parse.simps [of ctx "PExpressionLoop v"] after_sum_def consume_def)

text \<open>The three claims of the induction: the parser, at a level, reads the text of an expression of this level
  and goes on with its value.\<close>

definition reads_factor :: "parse_context \<Rightarrow> string \<Rightarrow> string + f64 \<Rightarrow> bool" where
  "reads_factor ctx t r = (\<forall>s. after_factor s \<longrightarrow> parse ctx PFactor (t @ s) = pcont r (\<lambda>v. Some (Inr (v, s))))"

definition reads_term :: "parse_context \<Rightarrow> string \<Rightarrow> string + f64 \<Rightarrow> bool" where
  "reads_term ctx t r = (\<forall>s. after_factor s \<longrightarrow> parse ctx PTerm (t @ s) = pcont r (\<lambda>v. parse ctx (PTermLoop v) s))"

definition reads_sum :: "parse_context \<Rightarrow> string \<Rightarrow> string + f64 \<Rightarrow> bool" where
  "reads_sum ctx t r = (\<forall>s. before_loop s \<longrightarrow> parse ctx PExpression (t @ s) = pcont r (\<lambda>v. parse ctx (PExpressionLoop v) s))"

lemma reads_factor_term: "reads_factor ctx t r \<Longrightarrow> reads_term ctx t r"
  by (cases r) (auto simp: reads_factor_def reads_term_def parse.simps [of ctx PTerm])

lemma reads_term_sum: "reads_term ctx t r \<Longrightarrow> reads_sum ctx t r"
  by (cases r) (auto simp: reads_term_def reads_sum_def parse.simps [of ctx PExpression] term_loop_stops before_loop_after)

lemma reads_closed:
  assumes "reads_sum ctx t r" "after_sum s"
  shows "parse ctx PExpression (t @ s) = pcont r (\<lambda>v. Some (Inr (v, s)))"
  using assms before_loop_after(2) [OF assms(2)] by (simp add: reads_sum_def expression_loop_stops)

lemma delimiters [simp]: "after_sum ('')'' @ s)" "after_sum ('','' @ s)" "after_sum (CHR '')'' # s)" "after_sum (CHR '','' # s)"
    "after_sum []" "after_factor (CHR ''*'' # s)" "after_factor (CHR ''/'' # s)" "before_loop (CHR ''+'' # s)" "before_loop (CHR ''-'' # s)"
  by (auto simp: after_sum_def after_factor_def before_loop_def)

lemma trim_start_mark [simp]: "c \<in> set ''+-*/(),'' \<Longrightarrow> trim_start (c # s) = c # s"
  by (rule trim_start_plain) auto

lemma consume_Cons [simp]: "consume c (d # s) = (if d = c then Some s else None)"
  by (simp add: consume_def)

lemma reads_paren:
  assumes "reads_sum ctx t r"
  shows "reads_factor ctx (paren True t) r"
  unfolding reads_factor_def paren_def
  using reads_closed [OF assms] by (cases r) (auto simp: parse.simps [of ctx PFactor] close_group_def)

lemma reads_literal:
  assumes "literal_ok l"
  shows "reads_factor ctx l (ok_or (''invalid numeric literal `'' @ l @ ''`'') (parse_f64_literal l))"
  unfolding reads_factor_def
proof (intro allI impI)
  fix s assume s: "after_factor s"
  have n: "number_chars None (l @ s) = l" using number_chars_append [OF _ _ _ _ s] assms by (simp add: literal_ok_def)
  obtain c cs where l: "l = c # cs" "is_ascii_digit c \<or> c = CHR ''.''" using assms by (cases l) (auto simp: literal_ok_def)
  then have "trim_start (l @ s) = l @ s" by (intro trim_start_plain) (auto simp: is_ascii_digit_def Let_def)
  moreover have "c \<noteq> CHR ''-''" "c \<noteq> CHR ''(''" using l by (auto simp: is_ascii_digit_def Let_def)
  ultimately show "parse ctx PFactor (l @ s) = pcont (ok_or (''invalid numeric literal `'' @ l @ ''`'') (parse_f64_literal l))
      (\<lambda>v. Some (Inr (v, s)))"
    using l n by (cases "parse_f64_literal l") (auto simp: parse.simps [of ctx PFactor] parse_number_def ok_or_def Let_def)
qed

lemma not_identifier_mark: "after_factor s \<Longrightarrow> s = [] \<or> \<not> is_identifier_char (hd s)" "\<not> is_identifier_char (CHR ''('')"
  by (auto simp: after_factor_def is_identifier_char_def is_ascii_digit_def Let_def)

lemma after_factor_not_call: "after_factor s \<Longrightarrow> consume (CHR ''('') s = None"
  by (cases s) (auto simp: after_factor_def consume_def)

lemma reads_alias:
  assumes "identifier_ok i"
  shows "reads_factor ctx i (alias_value (px_values ctx) i)"
  unfolding reads_factor_def
proof (intro allI impI)
  fix s assume s: "after_factor s"
  show "parse ctx PFactor (i @ s) = pcont (alias_value (px_values ctx) i) (\<lambda>v. Some (Inr (v, s)))"
    using identifier_head [OF assms, of s] identifier_append [OF assms not_identifier_mark(1) [OF s]] after_factor_trim [OF s]
      after_factor_not_call [OF s]
    by (cases "alias_value (px_values ctx) i") (simp_all add: parse.simps [of ctx PFactor] Let_def)
qed

lemma parse_call:
  assumes "identifier_ok f"
  shows "parse ctx PFactor (f @ CHR ''('' # u) = pbind (parse ctx PExpression u) (\<lambda>(x, u2).
     (case consume (CHR '','') (trim_start u2) of
        None \<Rightarrow> Some (close_call (px_pow ctx) f x None u2)
      | Some u3 \<Rightarrow> pbind (parse ctx PExpression u3) (\<lambda>(y, u4). Some (close_call (px_pow ctx) f x (Some y) u4))))"
  using identifier_head [OF assms, of "CHR ''('' # u"] identifier_append [OF assms, of "CHR ''('' # u"] not_identifier_mark(2)
  by (simp add: parse.simps [of ctx PFactor] Let_def)

lemma reads_call:
  assumes f: "identifier_ok f" and a: "reads_sum ctx t r"
  shows "reads_factor ctx (f @ ''('' @ t @ '')'') (rbind r (\<lambda>x. call_function (px_pow ctx) f x None))"
  unfolding reads_factor_def
proof (intro allI impI)
  fix s :: string
  show "parse ctx PFactor ((f @ ''('' @ t @ '')'') @ s) = pcont (rbind r (\<lambda>x. call_function (px_pow ctx) f x None)) (\<lambda>v. Some (Inr (v, s)))"
  proof (cases r)
    case (Inr x)
    then show ?thesis using parse_call [OF f, of ctx "t @ '')'' @ s"] reads_closed [OF a, of "'')'' @ s"]
      by (cases "call_function (px_pow ctx) f x None") (simp_all add: close_call_def)
  qed (use parse_call [OF f, of ctx "t @ '')'' @ s"] reads_closed [OF a, of "'')'' @ s"] in simp)
qed

lemma reads_call2:
  assumes f: "identifier_ok f" and a: "reads_sum ctx t r" and b: "reads_sum ctx u q"
  shows "reads_factor ctx (f @ ''('' @ t @ '','' @ u @ '')'')
    (rbind r (\<lambda>x. rbind q (\<lambda>y. call_function (px_pow ctx) f x (Some y))))"
  unfolding reads_factor_def
proof (intro allI impI)
  fix s :: string
  note facts = parse_call [OF f, of ctx "t @ '','' @ u @ '')'' @ s"] reads_closed [OF a, of "'','' @ u @ '')'' @ s"]
    reads_closed [OF b, of "'')'' @ s"]
  show "parse ctx PFactor ((f @ ''('' @ t @ '','' @ u @ '')'') @ s) =
      pcont (rbind r (\<lambda>x. rbind q (\<lambda>y. call_function (px_pow ctx) f x (Some y)))) (\<lambda>v. Some (Inr (v, s)))"
  proof (cases r)
    case r: (Inr x)
    show ?thesis
    proof (cases q)
      case (Inr y)
      then show ?thesis using facts r
        by (cases "call_function (px_pow ctx) f x (Some y)") (simp_all add: close_call_def)
    qed (use facts r in simp)
  qed (use facts in simp)
qed

lemma reads_neg:
  assumes "reads_factor ctx t r"
  shows "reads_factor ctx (''-'' @ t) (rbind r (\<lambda>x. Inr (f64_neg x)))"
  using assms by (cases r) (auto simp: reads_factor_def parse.simps [of ctx PFactor])

lemma reads_plus:
  assumes "reads_sum ctx t r" "reads_term ctx u q"
  shows "reads_sum ctx (t @ ''+'' @ u) (rbind r (\<lambda>x. rbind q (\<lambda>y. Inr (f64_add x y))))"
    and "reads_sum ctx (t @ ''-'' @ u) (rbind r (\<lambda>x. rbind q (\<lambda>y. Inr (f64_sub x y))))"
  using assms by (cases r; cases q; auto simp: reads_sum_def reads_term_def before_loop_after term_loop_stops
      parse.simps [of ctx "PExpressionLoop v" "c # s" for v c s])+

lemma reads_times:
  assumes "reads_term ctx t r" "reads_factor ctx u q"
  shows "reads_term ctx (t @ ''*'' @ u) (rbind r (\<lambda>x. rbind q (\<lambda>y. Inr (f64_mul x y))))"
    and "reads_term ctx (t @ ''/'' @ u) (rbind r (\<lambda>x. rbind q (\<lambda>y.
      if f64_eq y f64_zero then Inl division_by_zero else Inr (f64_div x y))))"
  using assms by (cases r; cases q; auto simp: reads_term_def reads_factor_def
      parse.simps [of ctx "PTermLoop v" "c # s" for v c s])+

lemma reads_aexp:
  assumes "aexp_ok e"
  shows "reads_sum ctx (show_aexp 0 e) (eval_aexp (px_pow ctx) (px_values ctx) e)"
    "reads_term ctx (show_aexp 1 e) (eval_aexp (px_pow ctx) (px_values ctx) e)"
    "reads_factor ctx (show_aexp 2 e) (eval_aexp (px_pow ctx) (px_values ctx) e)"
proof -
  let ?v = "eval_aexp (px_pow ctx) (px_values ctx)"
  have up: "reads_term ctx t r \<and> reads_sum ctx t r" if "reads_factor ctx t r" for t r
    using reads_factor_term [OF that] reads_term_sum by blast
  have "reads_sum ctx (show_aexp 0 e) (?v e) \<and> reads_term ctx (show_aexp 1 e) (?v e) \<and> reads_factor ctx (show_aexp 2 e) (?v e)"
    using assms
  proof (induction e)
    case (ELit l)
    then show ?case using up [OF reads_literal [of l ctx]] reads_literal [of l ctx] by simp
  next
    case (EAlias i)
    then show ?case using up [OF reads_alias [of i ctx]] reads_alias [of i ctx] by simp
  next
    case (ENeg a)
    then have "reads_factor ctx (''-'' @ show_aexp 2 a) (?v (ENeg a))" using reads_neg by simp
    with up show ?case by simp
  next
    case (EAdd a b)
    then have "reads_sum ctx (show_aexp 0 a @ ''+'' @ show_aexp 1 b) (?v (EAdd a b))" using reads_plus(1) by simp
    with reads_paren [OF this] up [OF reads_paren [OF this]] show ?case by (simp add: paren_def)
  next
    case (ESub a b)
    then have "reads_sum ctx (show_aexp 0 a @ ''-'' @ show_aexp 1 b) (?v (ESub a b))" using reads_plus(2) by simp
    with reads_paren [OF this] up [OF reads_paren [OF this]] show ?case by (simp add: paren_def)
  next
    case (EMul a b)
    then have t: "reads_term ctx (show_aexp 1 a @ ''*'' @ show_aexp 2 b) (?v (EMul a b))" using reads_times(1) by simp
    with reads_term_sum [OF t] reads_paren [OF reads_term_sum [OF t]] show ?case by (simp add: paren_def)
  next
    case (EDiv a b)
    then have t: "reads_term ctx (show_aexp 1 a @ ''/'' @ show_aexp 2 b) (?v (EDiv a b))" using reads_times(2) by simp
    with reads_term_sum [OF t] reads_paren [OF reads_term_sum [OF t]] show ?case by (simp add: paren_def)
  next
    case (ECall f a)
    then have "reads_factor ctx (f @ ''('' @ show_aexp 0 a @ '')'') (?v (ECall f a))" using reads_call by simp
    with up show ?case by simp
  next
    case (ECall2 f a b)
    then have "reads_factor ctx (f @ ''('' @ show_aexp 0 a @ '','' @ show_aexp 0 b @ '')'') (?v (ECall2 f a b))" using reads_call2 by simp
    with up show ?case by simp
  qed
  then show "reads_sum ctx (show_aexp 0 e) (?v e)" "reads_term ctx (show_aexp 1 e) (?v e)" "reads_factor ctx (show_aexp 2 e) (?v e)"
    by blast+
qed

lemma evaluate_show:
  assumes "aexp_ok e"
  shows "evaluate_expression pow vals (show_aexp 0 e) = Some (eval_aexp pow vals e)"
  using reads_closed [OF reads_aexp(1) [OF assms, of "\<lparr>px_pow = pow, px_values = vals\<rparr>"], of "[]"]
  by (cases "eval_aexp pow vals e") (simp_all add: evaluate_expression_def trim_start_plain)

definition example_values :: aliases where
  "example_values = (\<lambda>a. if a = ''t'' then Some (sample_new ''d'' ''p'' (Integer 212) QGood 0) else None)"

definition example_expression :: aexp where
  "example_expression = EDiv (EMul (ESub (EAlias ''t'') (ELit ''32'')) (ELit ''5'')) (ECall2 ''max'' (ELit ''9'') (EAlias ''k''))"

section \<open>The properties of the evaluator\<close>

text \<open>
  C10. Reading an expression is evaluating it. For every expression tree (sums, products, quotients, negations,
  the calls of one and two arguments, aliases and numerals), the evaluator applied to its text, with the parentheses that precedence
  and association to the left need and no others, returns the value of the tree or the error of its leftmost failing part.\<close>

theorem expression_evaluation_correct:
  assumes "aexp_ok e"
  shows "evaluate_expression pow vals (show_aexp 0 e) = Some (eval_aexp pow vals e)"
  by (rule evaluate_show [OF assms])

theorem expression_evaluation_correct_witness:
  "aexp_ok example_expression \<and> show_aexp 0 example_expression = ''(t-32)*5/max(9,k)'' \<and>
   evaluate_expression (\<lambda>x y. x) example_values ''(t-32)*5/max(9,k)'' = Some (eval_aexp (\<lambda>x y. x) example_values example_expression)"
proof -
  have ok: "aexp_ok example_expression"
    by (simp add: example_expression_def literal_ok_def identifier_ok_def is_ascii_digit_def is_identifier_char_def Let_def)
  have s: "show_aexp 0 example_expression = ''(t-32)*5/max(9,k)''"
    by (simp add: example_expression_def paren_def)
  show ?thesis using expression_evaluation_correct [OF ok, of "\<lambda>x y. x" example_values] ok s by simp
qed

text \<open>
  The evaluator returns on every text, with a value or with an error: each turn of its loops and each
  recursive call consumes text. (The depth of the call stack is not modelled.)\<close>

theorem expression_evaluation_total: "\<exists>r. evaluate_expression pow vals expr = Some r"
  by (rule evaluate_expression_returns)

end
