(* ===== verification/Algorithm_Engine.thy ===== *)
theory Algorithm_Engine
  imports Expression
begin

text \<open>
  The algorithm engine of the edge runtime (crates/edge-runtime/src/algorithm.rs): the state that
  each algorithm keeps between samples, one operation per kind of algorithm, and \<open>apply_samples\<close>,
  which feeds the samples that algorithms generate back into the graph until none is left. An
  operation returns the new state and a result; a call that does not return (a panic or an endless loop) is
  \<open>None\<close>. The date library's \<open>num_milliseconds\<close> of a difference, the platform's power function, the
  number the standard library starts a sum from, the durations that the clock measures and the times
  that it shows are fields of an environment.
\<close>

section \<open>State\<close>

record algorithm_env =
  ae_pow :: "f64 \<Rightarrow> f64 \<Rightarrow> f64"
  ae_millis :: "timestamp \<Rightarrow> timestamp \<Rightarrow> int"
  ae_sum_start :: f64
  ae_elapsed :: "nat \<Rightarrow> nat"
  ae_now :: "nat \<Rightarrow> timestamp"

datatype runtime_event_severity = RsInfo | RsWarning | RsCritical

datatype runtime_event_category = RcSystem | RcProtocol | RcCollection | RcStorage | RcAlgorithm | RcSync

record edge_runtime_event =
  re_edge_id :: string
  re_severity :: runtime_event_severity
  re_category :: runtime_event_category
  re_code :: string
  re_message :: string
  re_timestamp :: timestamp
  re_context :: "string \<rightharpoonup> string"

definition runtime_event_new ::
  "timestamp \<Rightarrow> string \<Rightarrow> runtime_event_severity \<Rightarrow> runtime_event_category \<Rightarrow> string \<Rightarrow> string \<Rightarrow> edge_runtime_event" where
  "runtime_event_new now edge sev cat code msg = \<lparr>re_edge_id = edge, re_severity = sev, re_category = cat,
     re_code = code, re_message = msg, re_timestamp = now, re_context = Map.empty\<rparr>"

definition with_context :: "edge_runtime_event \<Rightarrow> string \<Rightarrow> string \<Rightarrow> edge_runtime_event" where
  "with_context e k v = e\<lparr>re_context := (re_context e)(k \<mapsto> v)\<rparr>"

record algorithm_execution_report =
  rp_samples :: "telemetry_sample list"
  rp_events :: "edge_runtime_event list"

record algorithm_execution_stats =
  xs_healthy :: bool
  xs_last_run_latency_ms :: u64
  xs_error_count :: u64
  xs_alert_count :: u64

definition stats_default :: algorithm_execution_stats where
  "stats_default = \<lparr>xs_healthy = False, xs_last_run_latency_ms = 0, xs_error_count = 0, xs_alert_count = 0\<rparr>"

record debounce_state =
  db_value :: telemetry_value
  db_since :: timestamp

record duration_condition_state =
  dc_since :: timestamp
  dc_emitted :: bool

record window_state =
  ws_started_at :: "timestamp option"
  ws_samples :: "telemetry_sample list"

definition window_default :: window_state where
  "window_default = \<lparr>ws_started_at = None, ws_samples = []\<rparr>"

record algorithm_state =
  sa_last_reported :: "string \<rightharpoonup> telemetry_value"
  sa_latest_by_alias :: aliases
  sa_previous_by_alias :: aliases
  sa_debounce_by_alias :: "string \<rightharpoonup> debounce_state"
  sa_duration_by_alias :: "string \<rightharpoonup> duration_condition_state"
  sa_windows :: "string \<rightharpoonup> window_state"

definition algorithm_state_default :: algorithm_state where
  "algorithm_state_default = \<lparr>sa_last_reported = Map.empty, sa_latest_by_alias = Map.empty, sa_previous_by_alias = Map.empty,
     sa_debounce_by_alias = Map.empty, sa_duration_by_alias = Map.empty, sa_windows = Map.empty\<rparr>"

record algorithm_engine =
  en_algorithms :: "algorithm_spec list"
  en_states :: "string \<rightharpoonup> algorithm_state"
  en_execution :: "string \<rightharpoonup> algorithm_execution_stats"

definition engine_new :: "algorithm_spec list \<Rightarrow> string + algorithm_engine" where
  "engine_new as = rbind (check_all (\<lambda>a. if trim (as_id a) = [] then Inl ''algorithm id is required'' else Inr ()) as) (\<lambda>_.
     Inr \<lparr>en_algorithms = as, en_states = Map.empty, en_execution = Map.empty\<rparr>)"

record algorithm_runtime_metrics =
  rm_algorithm_id :: string
  rm_healthy :: bool
  rm_last_run_latency_ms :: u64
  rm_error_count :: u64
  rm_alert_count :: u64

definition runtime_metrics :: "algorithm_engine \<Rightarrow> algorithm_runtime_metrics list" where
  "runtime_metrics en = List.map_filter (\<lambda>a. map_option (\<lambda>s.
       \<lparr>rm_algorithm_id = as_id a, rm_healthy = xs_healthy s, rm_last_run_latency_ms = xs_last_run_latency_ms s,
        rm_error_count = xs_error_count s, rm_alert_count = xs_alert_count s\<rparr>) (en_execution en (as_id a))) (en_algorithms en)"

definition elapsed_millis :: "nat \<Rightarrow> u64" where
  "elapsed_millis d = (if d = 0 then 0 else of_nat (min (max (d div 1000000) 1) (2 ^ 64 - 1)))"

section \<open>Values\<close>

definition f64_epsilon :: f64 where
  "f64_epsilon = 0x3CB0000000000000"

definition compare :: "f64 \<Rightarrow> compare_operator \<Rightarrow> f64 \<Rightarrow> bool" where
  "compare v op t = (case op of
       CmpGt \<Rightarrow> f64_lt t v
     | CmpGte \<Rightarrow> f64_le t v
     | CmpLt \<Rightarrow> f64_lt v t
     | CmpLte \<Rightarrow> f64_le v t
     | CmpEq \<Rightarrow> f64_lt (f64_abs (f64_sub v t)) f64_epsilon
     | CmpNe \<Rightarrow> f64_le f64_epsilon (f64_abs (f64_sub v t)))"

definition data_quality_rank :: "data_quality \<Rightarrow> nat" where
  "data_quality_rank q = (case q of QGood \<Rightarrow> 0 | QUncertain \<Rightarrow> 1 | QBad \<Rightarrow> 2)"

definition map_event_severity :: "event_severity \<Rightarrow> runtime_event_severity" where
  "map_event_severity s = (case s of SevInfo \<Rightarrow> RsInfo | SevWarning \<Rightarrow> RsWarning | SevCritical \<Rightarrow> RsCritical)"

definition value_changed :: "telemetry_value \<Rightarrow> telemetry_value \<Rightarrow> f64 \<Rightarrow> bool" where
  "value_changed previous current threshold = (case (as_f64 previous, as_f64 current) of
       (Some p, Some c) \<Rightarrow> f64_le threshold (f64_abs (f64_sub c p))
     | _ \<Rightarrow> \<not> tv_eq previous current)"

definition f64_infinity :: "bool \<Rightarrow> f64" where
  "f64_infinity neg = f64_make neg f64_inf_mag"

definition sum_values :: "f64 \<Rightarrow> f64 list \<Rightarrow> f64" where
  "sum_values start vs = foldl f64_add start vs"

definition aggregate_value :: "f64 \<Rightarrow> aggregate_function \<Rightarrow> f64 list \<Rightarrow> (string \<times> telemetry_value) option" where
  "aggregate_value start f vs = (case f of
       AggAvg out \<Rightarrow> if vs = [] then None else Some (out, Float (f64_div (sum_values start vs) (f64_of_int (int (length vs)))))
     | AggMin out \<Rightarrow> if vs = [] then None else Some (out, Float (foldl f64_min (f64_infinity False) vs))
     | AggMax out \<Rightarrow> if vs = [] then None else Some (out, Float (foldl f64_max (f64_infinity True) vs))
     | AggSum out \<Rightarrow> Some (out, Float (sum_values start vs))
     | AggCount out \<Rightarrow> Some (out, Integer (of_nat (length vs)))
     | AggFirst out \<Rightarrow> (case vs of [] \<Rightarrow> None | v # _ \<Rightarrow> Some (out, Float v))
     | AggLast out \<Rightarrow> if vs = [] then None else Some (out, Float (last vs)))"

text \<open>\<open>Iterator::max_by_key\<close> returns the last of several maxima.\<close>

definition max_by_key :: "('a \<Rightarrow> nat) \<Rightarrow> 'a list \<Rightarrow> 'a option" where
  "max_by_key key xs = foldl (\<lambda>acc x. case acc of None \<Rightarrow> Some x | Some y \<Rightarrow> if key y \<le> key x then Some x else Some y) None xs"

section \<open>The operations of the algorithms\<close>

text \<open>The sample that an algorithm generates from a sample.\<close>

definition derived_sample :: "telemetry_sample \<Rightarrow> algorithm_output \<Rightarrow> telemetry_value \<Rightarrow> telemetry_sample \<Rightarrow> telemetry_sample" where
  "derived_sample s out v src = inherit_quality (sample_new (ts_device_id s) (ao_point_id out) v (ts_quality src) (ts_timestamp s)) src"

definition input_of_alias :: "algorithm_spec \<Rightarrow> string \<Rightarrow> algorithm_input_binding option" where
  "input_of_alias a src = find (\<lambda>i. ai_alias i = src) (ad_inputs (as_dsl a))"

definition output_named :: "algorithm_spec \<Rightarrow> string \<Rightarrow> algorithm_output option" where
  "output_named a name = find (\<lambda>o1. ao_name o1 = name) (ad_outputs (as_dsl a))"

definition missing_alias :: "algorithm_spec \<Rightarrow> string \<Rightarrow> string" where
  "missing_alias a src = ''algorithm '' @ as_id a @ '' references missing input alias '' @ src"

definition missing_output :: "algorithm_spec \<Rightarrow> string \<Rightarrow> string" where
  "missing_output a name = ''algorithm '' @ as_id a @ '' references missing output '' @ name"

definition requires_output :: "algorithm_spec \<Rightarrow> string" where
  "requires_output a = ''algorithm '' @ as_id a @ '' requires an output''"

type_synonym sample_run = "algorithm_state \<times> (string + telemetry_sample list)"

definition change_filter_of :: "algorithm_step \<Rightarrow> (string \<times> f64) option" where
  "change_filter_of s = (case s of StChangeFilter src t \<Rightarrow> Some (src, t) | _ \<Rightarrow> None)"

definition apply_change_report :: "algorithm_spec \<Rightarrow> algorithm_state \<Rightarrow> telemetry_sample \<Rightarrow> sample_run" where
  "apply_change_report a st s = (case find_map change_filter_of (ad_steps (as_dsl a)) of
       None \<Rightarrow> (st, Inr [])
     | Some (src, threshold) \<Rightarrow> (case input_of_alias a src of
         None \<Rightarrow> (st, Inl (missing_alias a src))
       | Some b \<Rightarrow>
           if ai_point_id b \<noteq> ts_telemetry_id s then (st, Inr [])
           else (case ad_outputs (as_dsl a) of
               [] \<Rightarrow> (st, Inl (requires_output a))
             | out # _ \<Rightarrow>
                 if (case sa_last_reported st (ao_point_id out) of Some l \<Rightarrow> value_changed l (ts_value s) threshold | None \<Rightarrow> True)
                 then (st\<lparr>sa_last_reported := (sa_last_reported st)(ao_point_id out \<mapsto> ts_value s)\<rparr>,
                       Inr [derived_sample s out (ts_value s) s])
                 else (st, Inr []))))"

definition window_aggregate_of :: "algorithm_step \<Rightarrow> (string \<times> aggregate_function list) option" where
  "window_aggregate_of s = (case s of StWindowAggregate src fs \<Rightarrow> Some (src, fs) | _ \<Rightarrow> None)"

definition window_outputs ::
  "algorithm_env \<Rightarrow> algorithm_spec \<Rightarrow> aggregate_function list \<Rightarrow> telemetry_sample list \<Rightarrow> telemetry_sample \<Rightarrow> telemetry_sample list" where
  "window_outputs env a fs ws s =
     (let values = List.map_filter (\<lambda>w. as_f64 (ts_value w)) ws;
          src = (case max_by_key (\<lambda>w. data_quality_rank (ts_quality w)) ws of Some w \<Rightarrow> w | None \<Rightarrow> s) in
      List.map_filter (\<lambda>f. Option.bind (aggregate_value (ae_sum_start env) f values) (\<lambda>(name, v).
        map_option (\<lambda>out. derived_sample s out v src) (output_named a name))) fs)"

definition apply_window_aggregate :: "algorithm_env \<Rightarrow> algorithm_spec \<Rightarrow> algorithm_state \<Rightarrow> telemetry_sample \<Rightarrow> sample_run" where
  "apply_window_aggregate env a st s = (case ad_trigger (as_dsl a) of
       TriggerWindow every \<Rightarrow> (case find_map window_aggregate_of (ad_steps (as_dsl a)) of
         None \<Rightarrow> (st, Inr [])
       | Some (src, fs) \<Rightarrow> (case input_of_alias a src of
           None \<Rightarrow> (st, Inl (missing_alias a src))
         | Some b \<Rightarrow>
             if ai_point_id b \<noteq> ts_telemetry_id s then (st, Inr [])
             else
               (let w = (case sa_windows st src of Some w \<Rightarrow> w | None \<Rightarrow> window_default);
                    started = (case ws_started_at w of Some t \<Rightarrow> t | None \<Rightarrow> ts_timestamp s);
                    ws = ws_samples w @ [s] in
                if ae_millis env (ts_timestamp s) started < sint every
                then (st\<lparr>sa_windows := (sa_windows st)(src \<mapsto> \<lparr>ws_started_at = Some started, ws_samples = ws\<rparr>)\<rparr>, Inr [])
                else (st\<lparr>sa_windows := (sa_windows st)(src \<mapsto> \<lparr>ws_started_at = Some (ts_timestamp s), ws_samples = []\<rparr>)\<rparr>,
                      Inr (window_outputs env a fs ws s)))))
     | _ \<Rightarrow> (st, Inr []))"

definition numeric_source :: "algorithm_spec \<Rightarrow> algorithm_state \<Rightarrow> telemetry_sample \<Rightarrow> string \<Rightarrow> f64 option" where
  "numeric_source a st s src = Option.bind (input_of_alias a src) (\<lambda>b.
     if ai_point_id b \<noteq> ts_telemetry_id s then None
     else Option.bind (sa_latest_by_alias st src) (\<lambda>l. as_f64 (ts_value l)))"

text \<open>\<open>f64::clamp\<close> panics unless the bounds are ordered.\<close>

definition f64_clamp :: "f64 \<Rightarrow> f64 \<Rightarrow> f64 \<Rightarrow> f64 option" where
  "f64_clamp v lo hi = (if f64_le lo hi then Some (let x = (if f64_lt v lo then lo else v) in if f64_lt hi x then hi else x) else None)"

definition record_latest :: "algorithm_spec \<Rightarrow> algorithm_state \<Rightarrow> telemetry_sample \<Rightarrow> algorithm_state" where
  "record_latest a st s = foldl (\<lambda>st i. if ai_point_id i = ts_telemetry_id s
     then st\<lparr>sa_latest_by_alias := (sa_latest_by_alias st)(ai_alias i \<mapsto> s)\<rparr> else st) st (ad_inputs (as_dsl a))"

text \<open>One step of \<open>apply_transform\<close>'s search: \<open>None\<close> when it does not return, otherwise the state
  and what it found.\<close>

type_synonym found = "(string + string \<times> f64) option"

definition rate_of_change :: "algorithm_env \<Rightarrow> algorithm_spec \<Rightarrow> algorithm_state \<Rightarrow> telemetry_sample \<Rightarrow> string \<Rightarrow> string \<Rightarrow> u64 \<Rightarrow> algorithm_state \<times> found" where
  "rate_of_change env a st s src out per_ms = (case input_of_alias a src of
       None \<Rightarrow> (st, None)
     | Some b \<Rightarrow>
         if ai_point_id b \<noteq> ts_telemetry_id s then (st, None)
         else (case as_f64 (ts_value s) of
             None \<Rightarrow> (st, None)
           | Some current \<Rightarrow>
               (let st' = st\<lparr>sa_previous_by_alias := (sa_previous_by_alias st)(src \<mapsto> s)\<rparr> in
                case sa_previous_by_alias st src of
                  None \<Rightarrow> (st', None)
                | Some previous \<Rightarrow>
                    (let elapsed = ae_millis env (ts_timestamp s) (ts_timestamp previous) in
                     case as_f64 (ts_value previous) of
                       None \<Rightarrow> (st', None)
                     | Some pv \<Rightarrow>
                         if elapsed \<le> 0 \<or> per_ms = 0 then (st', None)
                         else (st', Some (Inr (out, f64_div (f64_mul (f64_sub current pv) (f64_of_int (uint per_ms))) (f64_of_int elapsed))))))))"

definition transform_step :: "algorithm_env \<Rightarrow> algorithm_spec \<Rightarrow> telemetry_sample \<Rightarrow> algorithm_state \<Rightarrow> algorithm_step \<Rightarrow> (algorithm_state \<times> found) option" where
  "transform_step env a s st step = (case step of
       StExpression out expr \<Rightarrow>
         if \<exists>i \<in> set (ad_inputs (as_dsl a)). sa_latest_by_alias st (ai_alias i) = None then Some (st, None)
         else map_option (\<lambda>r. (st, Some (rbind r (\<lambda>v. Inr (out, v))))) (evaluate_expression (ae_pow env) (sa_latest_by_alias st) expr)
     | StScale src out factor offset \<Rightarrow>
         Some (st, map_option (\<lambda>v. Inr (out, f64_add (f64_mul v factor) offset)) (numeric_source a st s src))
     | StClamp src out lo hi \<Rightarrow> (case numeric_source a st s src of
           None \<Rightarrow> Some (st, None)
         | Some v \<Rightarrow> map_option (\<lambda>x. (st, Some (Inr (out, x)))) (f64_clamp v lo hi))
     | StRateOfChange src out per_ms \<Rightarrow> Some (rate_of_change env a st s src out per_ms)
     | _ \<Rightarrow> Some (st, None))"

fun transform_steps :: "algorithm_env \<Rightarrow> algorithm_spec \<Rightarrow> telemetry_sample \<Rightarrow> algorithm_state \<Rightarrow> algorithm_step list \<Rightarrow> (algorithm_state \<times> found) option" where
  "transform_steps env a s st [] = Some (st, None)"
| "transform_steps env a s st (step # steps) = (case transform_step env a s st step of
       None \<Rightarrow> None
     | Some (st', Some r) \<Rightarrow> Some (st', Some r)
     | Some (st', None) \<Rightarrow> transform_steps env a s st' steps)"

definition apply_transform_steps :: "algorithm_env \<Rightarrow> algorithm_spec \<Rightarrow> algorithm_state \<Rightarrow> telemetry_sample \<Rightarrow> sample_run option" where
  "apply_transform_steps env a st s = map_option (\<lambda>(st', r). (st', case r of
       None \<Rightarrow> Inr []
     | Some res \<Rightarrow> rbind res (\<lambda>(name, v). rbind (ok_or (missing_output a name) (output_named a name)) (\<lambda>out.
         Inr [derived_sample s out (Float v) s])))) (transform_steps env a s (record_latest a st s) (ad_steps (as_dsl a)))"

definition debounce_of :: "algorithm_step \<Rightarrow> (string \<times> u64) option" where
  "debounce_of s = (case s of StDebounce src t \<Rightarrow> Some (src, t) | _ \<Rightarrow> None)"

definition apply_debounce :: "algorithm_env \<Rightarrow> algorithm_spec \<Rightarrow> algorithm_state \<Rightarrow> telemetry_sample \<Rightarrow> sample_run" where
  "apply_debounce env a st s = (case find_map debounce_of (ad_steps (as_dsl a)) of
       None \<Rightarrow> (st, Inr [])
     | Some (src, hold) \<Rightarrow> (case input_of_alias a src of
         None \<Rightarrow> (st, Inl (missing_alias a src))
       | Some b \<Rightarrow>
           if ai_point_id b \<noteq> ts_telemetry_id s then (st, Inr [])
           else
             (let pending = (case sa_debounce_by_alias st src of Some p \<Rightarrow> p
                 | None \<Rightarrow> \<lparr>db_value = ts_value s, db_since = ts_timestamp s\<rparr>);
                  keep = (\<lambda>p. st\<lparr>sa_debounce_by_alias := (sa_debounce_by_alias st)(src \<mapsto> p)\<rparr>) in
              if \<not> tv_eq (db_value pending) (ts_value s)
              then (keep \<lparr>db_value = ts_value s, db_since = ts_timestamp s\<rparr>, Inr [])
              else if ae_millis env (ts_timestamp s) (db_since pending) < sint hold then (keep pending, Inr [])
              else (case ad_outputs (as_dsl a) of
                  [] \<Rightarrow> (keep pending, Inl (requires_output a))
                | out # _ \<Rightarrow>
                    if (case sa_last_reported st (ao_point_id out) of Some v \<Rightarrow> tv_eq v (ts_value s) | None \<Rightarrow> False)
                    then (keep pending, Inr [])
                    else ((keep pending)\<lparr>sa_last_reported := (sa_last_reported st)(ao_point_id out \<mapsto> ts_value s)\<rparr>,
                          Inr [derived_sample s out (ts_value s) s])))))"

definition duration_condition_of :: "algorithm_step \<Rightarrow> (string \<times> compare_operator \<times> f64 \<times> u64 \<times> string) option" where
  "duration_condition_of s = (case s of StDurationCondition src op t d out \<Rightarrow> Some (src, op, t, d, out) | _ \<Rightarrow> None)"

definition apply_duration_condition :: "algorithm_env \<Rightarrow> algorithm_spec \<Rightarrow> algorithm_state \<Rightarrow> telemetry_sample \<Rightarrow> sample_run" where
  "apply_duration_condition env a st s = (case find_map duration_condition_of (ad_steps (as_dsl a)) of
       None \<Rightarrow> (st, Inr [])
     | Some (src, op, threshold, duration, name) \<Rightarrow> (case input_of_alias a src of
         None \<Rightarrow> (st, Inl (missing_alias a src))
       | Some b \<Rightarrow>
           if ai_point_id b \<noteq> ts_telemetry_id s then (st, Inr [])
           else (case as_f64 (ts_value s) of
               None \<Rightarrow> (st, Inr [])
             | Some v \<Rightarrow>
                 if \<not> compare v op threshold
                 then (st\<lparr>sa_duration_by_alias := (sa_duration_by_alias st)(src := None)\<rparr>, Inr [])
                 else
                   (let d = (case sa_duration_by_alias st src of Some d \<Rightarrow> d
                       | None \<Rightarrow> \<lparr>dc_since = ts_timestamp s, dc_emitted = False\<rparr>);
                        d = (if ts_timestamp s < dc_since d then \<lparr>dc_since = ts_timestamp s, dc_emitted = False\<rparr> else d);
                        keep = (\<lambda>d. st\<lparr>sa_duration_by_alias := (sa_duration_by_alias st)(src \<mapsto> d)\<rparr>);
                        elapsed = (of_int (ae_millis env (ts_timestamp s) (dc_since d)) :: u64) in
                    if dc_emitted d \<or> elapsed < duration then (keep d, Inr [])
                    else (keep (d\<lparr>dc_emitted := True\<rparr>), rbind (ok_or (missing_output a name) (output_named a name)) (\<lambda>out.
                      Inr [derived_sample s out (ts_value s) s]))))))"

definition threshold_event :: "timestamp \<Rightarrow> algorithm_spec \<Rightarrow> telemetry_sample \<Rightarrow> algorithm_event_output \<Rightarrow> edge_runtime_event" where
  "threshold_event now a s e = with_context (with_context
     (runtime_event_new now '''' (map_event_severity (aeo_severity e)) RcAlgorithm (aeo_code e) (aeo_message e))
     ''algorithm_id'' (as_id a)) ''point_id'' (ts_telemetry_id s)"

text \<open>The steps of a threshold rule, with the samples and events so far.\<close>

fun threshold_steps :: "(nat \<Rightarrow> timestamp) \<Rightarrow> algorithm_spec \<Rightarrow> telemetry_sample \<Rightarrow> algorithm_step list \<Rightarrow>
    telemetry_sample list \<times> edge_runtime_event list \<Rightarrow> string + telemetry_sample list \<times> edge_runtime_event list" where
  "threshold_steps now a s [] acc = Inr acc"
| "threshold_steps now a s (StThresholdRule src op t e # steps) (samples, events) = (case input_of_alias a src of
       None \<Rightarrow> Inl (missing_alias a src)
     | Some b \<Rightarrow>
         if ai_point_id b \<noteq> ts_telemetry_id s then threshold_steps now a s steps (samples, events)
         else (case as_f64 (ts_value s) of
             None \<Rightarrow> threshold_steps now a s steps (samples, events)
           | Some v \<Rightarrow> threshold_steps now a s steps (samples,
               if compare v op t then events @ [threshold_event (now (length events)) a s e] else events)))"
| "threshold_steps now a s (StConditionalRoute src op t matched unmatched # steps) (samples, events) = (case input_of_alias a src of
       None \<Rightarrow> Inl (missing_alias a src)
     | Some b \<Rightarrow>
         if ai_point_id b \<noteq> ts_telemetry_id s then threshold_steps now a s steps (samples, events)
         else (case as_f64 (ts_value s) of
             None \<Rightarrow> threshold_steps now a s steps (samples, events)
           | Some v \<Rightarrow> (let name = (if compare v op t then matched else unmatched) in
               case output_named a name of
                 None \<Rightarrow> Inl (''algorithm '' @ as_id a @ '' references missing route output '' @ name)
               | Some out \<Rightarrow> threshold_steps now a s steps (samples @ [derived_sample s out (ts_value s) s], events))))"
| "threshold_steps now a s (step # steps) acc = threshold_steps now a s steps acc"

definition apply_threshold_rule ::
  "(nat \<Rightarrow> timestamp) \<Rightarrow> algorithm_spec \<Rightarrow> algorithm_state \<Rightarrow> telemetry_sample \<Rightarrow>
   algorithm_state \<times> (string + telemetry_sample list \<times> edge_runtime_event list)" where
  "apply_threshold_rule now a st s = (st, threshold_steps now a s (ad_steps (as_dsl a)) ([], []))"

section \<open>Feeding samples through the graph\<close>

definition without_events :: "sample_run \<Rightarrow> algorithm_state \<times> (string + telemetry_sample list \<times> edge_runtime_event list)" where
  "without_events r = (fst r, rbind (snd r) (\<lambda>samples. Inr (samples, [])))"

definition run_algorithm :: "algorithm_env \<Rightarrow> (nat \<Rightarrow> timestamp) \<Rightarrow> algorithm_spec \<Rightarrow> algorithm_state \<Rightarrow> telemetry_sample \<Rightarrow>
    (algorithm_state \<times> (string + telemetry_sample list \<times> edge_runtime_event list)) option" where
  "run_algorithm env now a st s = (
     if as_kind a \<in> {ChangeReport, Deadband} then Some (without_events (apply_change_report a st s))
     else if as_kind a \<in> {WindowAggregate, Statistics} then Some (without_events (apply_window_aggregate env a st s))
     else if as_kind a = ExpressionAggregate then map_option without_events (apply_transform_steps env a st s)
     else if as_kind a = ThresholdRule then Some (apply_threshold_rule now a st s)
     else if as_kind a = Debounce then Some (without_events (apply_debounce env a st s))
     else Some (without_events (apply_duration_condition env a st s)))"

type_synonym transition = "string \<times> string \<times> string \<times> timestamp"

record engine_run =
  er_engine :: algorithm_engine
  er_report :: algorithm_execution_report
  er_pending :: "telemetry_sample list"
  er_processed :: "transition list"

datatype run_result = Continue engine_run | Stop algorithm_engine string

definition max_generated_samples :: "nat \<Rightarrow> nat \<Rightarrow> nat" where
  "max_generated_samples samples algorithms =
     min (2 ^ 64 - 1) (min (2 ^ 64 - 1) (max 1 samples * max 1 algorithms) * 16)"

definition sat_add64 :: "u64 \<Rightarrow> nat \<Rightarrow> u64" where
  "sat_add64 x n = of_nat (min (2 ^ 64 - 1) (unat x + n))"

definition transition_of :: "algorithm_spec \<Rightarrow> telemetry_sample \<Rightarrow> transition" where
  "transition_of a s = (as_id a, ts_device_id s, ts_telemetry_id s, ts_timestamp s)"

definition process_algorithm :: "algorithm_env \<Rightarrow> nat \<Rightarrow> telemetry_sample \<Rightarrow> algorithm_spec \<Rightarrow> engine_run \<Rightarrow> run_result option" where
  "process_algorithm env limit s a r = (
     if ad_inputs (as_dsl a) = [] \<or> ts_telemetry_id s \<notin> set (algorithm_inputs a) \<or> transition_of a s \<in> set (er_processed r)
     then Some (Continue r)
     else
       (let en = er_engine r;
            st = (case en_states en (as_id a) of Some st \<Rightarrow> st | None \<Rightarrow> algorithm_state_default);
            report = er_report r in
        map_option (\<lambda>(st', result).
          (let stats = (case en_execution en (as_id a) of Some x \<Rightarrow> x | None \<Rightarrow> stats_default)
                 \<lparr>xs_last_run_latency_ms := elapsed_millis (ae_elapsed env (length (er_processed r)))\<rparr>;
               en' = en\<lparr>en_states := (en_states en)(as_id a \<mapsto> st')\<rparr>;
               save = (\<lambda>x. en'\<lparr>en_execution := (en_execution en)(as_id a \<mapsto> x)\<rparr>) in
           case result of
             Inl e \<Rightarrow> Stop (save (stats\<lparr>xs_healthy := False, xs_error_count := sat_add64 (xs_error_count stats) 1\<rparr>)) e
           | Inr (generated, events) \<Rightarrow>
               (let en'' = save (stats\<lparr>xs_healthy := True, xs_alert_count := sat_add64 (xs_alert_count stats) (length events)\<rparr>) in
                if limit < length (rp_samples report) + length generated
                then Stop en'' ''algorithm graph generated too many samples; check for a cycle''
                else Continue \<lparr>er_engine = en'',
                  er_report = \<lparr>rp_samples = rp_samples report @ generated, rp_events = rp_events report @ events\<rparr>,
                  er_pending = er_pending r @ generated,
                  er_processed = transition_of a s # er_processed r\<rparr>)))
          (run_algorithm env (\<lambda>k. ae_now env (length (rp_events report) + k)) a st s)))"

fun process_algorithms :: "algorithm_env \<Rightarrow> nat \<Rightarrow> telemetry_sample \<Rightarrow> algorithm_spec list \<Rightarrow> engine_run \<Rightarrow> run_result option" where
  "process_algorithms env limit s [] r = Some (Continue r)"
| "process_algorithms env limit s (a # as) r = (case process_algorithm env limit s a r of
       Some (Continue r') \<Rightarrow> process_algorithms env limit s as r'
     | other \<Rightarrow> other)"

partial_function (option) process_pending :: "algorithm_env \<Rightarrow> nat \<Rightarrow> engine_run \<Rightarrow> run_result option" where
  "process_pending env limit r = (case er_pending r of
       [] \<Rightarrow> Some (Continue r)
     | s # rest \<Rightarrow> Option.bind (process_algorithms env limit s (en_algorithms (er_engine r)) (r\<lparr>er_pending := rest\<rparr>)) (\<lambda>res.
         case res of Stop en e \<Rightarrow> Some (Stop en e) | Continue r' \<Rightarrow> process_pending env limit r'))"

definition apply_samples :: "algorithm_env \<Rightarrow> algorithm_engine \<Rightarrow> telemetry_sample list \<Rightarrow>
    (algorithm_engine \<times> (string + algorithm_execution_report)) option" where
  "apply_samples env en samples = map_option (\<lambda>res. case res of
       Stop en' e \<Rightarrow> (en', Inl e)
     | Continue r \<Rightarrow> (er_engine r, Inr (er_report r)))
     (process_pending env (max_generated_samples (length samples) (length (en_algorithms en)))
       \<lparr>er_engine = en, er_report = \<lparr>rp_samples = [], rp_events = []\<rparr>, er_pending = samples, er_processed = []\<rparr>)"

section \<open>An execution returns and derives its samples\<close>

definition clamps_ok :: "algorithm_spec \<Rightarrow> bool" where
  "clamps_ok a = (\<forall>step \<in> set (ad_steps (as_dsl a)). case step of StClamp _ _ lo hi \<Rightarrow> f64_le lo hi | _ \<Rightarrow> True)"

text \<open>A sample that an algorithm may derive from another.\<close>

definition derived :: "algorithm_spec \<Rightarrow> telemetry_sample \<Rightarrow> telemetry_sample \<Rightarrow> bool" where
  "derived a s g = (ts_device_id g = ts_device_id s \<and> ts_timestamp g = ts_timestamp s \<and>
     ts_telemetry_id g \<in> ao_point_id ` set (ad_outputs (as_dsl a)))"

lemma derived_sample_ok: "out \<in> set (ad_outputs (as_dsl a)) \<Longrightarrow> derived a s (derived_sample s out v src)"
  by (simp add: derived_def derived_sample_def inherit_quality_def sample_new_def)

lemma output_named_in: "output_named a name = Some out \<Longrightarrow> out \<in> set (ad_outputs (as_dsl a))"
  by (auto simp: output_named_def find_Some_iff)

lemma transform_step_returns:
  assumes "case step of StClamp _ _ lo hi \<Rightarrow> f64_le lo hi | _ \<Rightarrow> True"
  shows "\<exists>r. transform_step env a s st step = Some r"
  using assms evaluate_expression_returns [of "ae_pow env" "sa_latest_by_alias st"]
  by (cases step) (fastforce simp: transform_step_def f64_clamp_def split: option.splits)+

lemma transform_steps_returns:
  assumes "\<forall>step \<in> set steps. case step of StClamp _ _ lo hi \<Rightarrow> f64_le lo hi | _ \<Rightarrow> True"
  shows "\<exists>r. transform_steps env a s st steps = Some r"
  using assms
proof (induction steps arbitrary: st)
  case (Cons step steps)
  obtain st' r where "transform_step env a s st step = Some (st', r)" using transform_step_returns [of step env a s st] Cons.prems by auto
  then show ?case using Cons by (cases r) auto
qed simp

lemma run_algorithm_returns:
  assumes "clamps_ok a"
  shows "\<exists>st' r. run_algorithm env now a st s = Some (st', r)"
proof -
  obtain r where "transform_steps env a s (record_latest a st s) (ad_steps (as_dsl a)) = Some r"
    using transform_steps_returns assms unfolding clamps_ok_def by blast
  then show ?thesis by (auto simp: run_algorithm_def apply_transform_steps_def)
qed

lemma threshold_steps_derived:
  assumes "threshold_steps now a s steps (samples, events) = Inr (gen, ev)" "\<forall>g \<in> set samples. derived a s g"
  shows "\<forall>g \<in> set gen. derived a s g"
  using assms
proof (induction steps arbitrary: samples events)
  case (Cons step steps)
  note ih = Cons.IH [of samples events, OF _ Cons.prems(2)]
  show ?case
  proof (cases step)
    case (StConditionalRoute src op t matched unmatched)
    have more: "\<forall>g \<in> set (samples @ [derived_sample s out v s]). derived a s g" if "output_named a name = Some out" for name out v
      using Cons.prems(2) derived_sample_ok [OF output_named_in [OF that]] by simp
    show ?thesis using Cons.prems(1) StConditionalRoute ih
      by (auto split: option.splits if_splits simp: Let_def dest!: Cons.IH [OF _ more])
  next
    case (StThresholdRule src op t e)
    then show ?thesis using Cons.prems ih Cons.IH [OF _ Cons.prems(2)]
      by (auto split: option.splits if_splits)
  qed (use Cons.prems ih in auto)
qed simp

lemma change_report_derived:
  assumes "apply_change_report a st s = (st', Inr gen)" "g \<in> set gen"
  shows "derived a s g"
  using assms by (auto simp: apply_change_report_def split: option.splits if_splits list.splits intro!: derived_sample_ok)

lemma debounce_derived:
  assumes "apply_debounce env a st s = (st', Inr gen)" "g \<in> set gen"
  shows "derived a s g"
  using assms by (auto simp: apply_debounce_def Let_def split: option.splits if_splits list.splits intro!: derived_sample_ok)

lemma duration_derived:
  assumes "apply_duration_condition env a st s = (st', Inr gen)" "g \<in> set gen"
  shows "derived a s g"
  using assms by (auto simp: apply_duration_condition_def Let_def result_simps split: option.splits if_splits
      intro!: derived_sample_ok output_named_in)

lemma window_derived:
  assumes "apply_window_aggregate env a st s = (st', Inr gen)" "g \<in> set gen"
  shows "derived a s g"
proof -
  have "derived a s g" if "g \<in> set (window_outputs env a fs ws s)" for fs ws
    using that by (auto simp: window_outputs_def Let_def List.map_filter_def Option.bind_eq_Some_conv
        intro!: derived_sample_ok output_named_in)
  with assms show ?thesis
    by (auto simp: apply_window_aggregate_def Let_def split: algorithm_trigger.splits option.splits if_splits)
qed

lemma transform_derived:
  assumes "apply_transform_steps env a st s = Some (st', Inr gen)" "g \<in> set gen"
  shows "derived a s g"
  using assms by (auto simp: apply_transform_steps_def result_simps split: option.splits sum.splits
      intro!: derived_sample_ok output_named_in)

lemma run_algorithm_derived:
  assumes "run_algorithm env now a st s = Some (st', Inr (gen, ev))" "g \<in> set gen"
  shows "derived a s g"
proof -
  have we: "without_events r = (st', Inr (gen, ev)) \<Longrightarrow> r = (st', Inr gen)" for r
    by (cases r) (auto simp: without_events_def result_simps)
  have thr: "apply_threshold_rule now a st s = (st', Inr (gen, ev)) \<Longrightarrow> derived a s g"
    using threshold_steps_derived [of now a s _ "[]" "[]" gen ev] assms(2) by (auto simp: apply_threshold_rule_def)
  show ?thesis using assms(1)
    by (auto simp: run_algorithm_def split: if_splits dest!: we thr
        intro: change_report_derived [OF _ assms(2)] debounce_derived [OF _ assms(2)] duration_derived [OF _ assms(2)]
          window_derived [OF _ assms(2)] transform_derived [OF _ assms(2)])
qed

section \<open>The graph returns\<close>

text \<open>A run of the engine within its limit: every sample that it generated or has still to process
  derives from a sample that was given.\<close>

definition from_samples :: "algorithm_spec list \<Rightarrow> telemetry_sample list \<Rightarrow> telemetry_sample \<Rightarrow> bool" where
  "from_samples as samples g = (\<exists>s \<in> set samples. \<exists>a \<in> set as. derived a s g)"

definition run_ok :: "algorithm_spec list \<Rightarrow> telemetry_sample list \<Rightarrow> nat \<Rightarrow> engine_run \<Rightarrow> bool" where
  "run_ok as samples limit r = (en_algorithms (er_engine r) = as \<and> length (rp_samples (er_report r)) \<le> limit \<and>
     distinct (er_processed r) \<and>
     (\<forall>g \<in> set (rp_samples (er_report r)). from_samples as samples g) \<and>
     (\<forall>p \<in> set (er_pending r). p \<in> set samples \<or> from_samples as samples p))"

definition run_measure :: "nat \<Rightarrow> engine_run \<Rightarrow> nat" where
  "run_measure limit r = length (er_pending r) + (limit - length (rp_samples (er_report r)))"

definition result_ok :: "algorithm_spec list \<Rightarrow> telemetry_sample list \<Rightarrow> nat \<Rightarrow> nat \<Rightarrow> run_result option \<Rightarrow> bool" where
  "result_ok as samples limit n res = (case res of
       Some (Continue r) \<Rightarrow> run_ok as samples limit r \<and> run_measure limit r \<le> n
     | Some (Stop en e) \<Rightarrow> en_algorithms en = as
     | None \<Rightarrow> False)"

lemma from_derived:
  assumes "s \<in> set samples \<or> from_samples as samples s" "a \<in> set as" "derived a s g"
  shows "from_samples as samples g"
  using assms unfolding from_samples_def derived_def by metis

lemma process_algorithm_ok:
  assumes ok: "run_ok as samples limit r" and a: "a \<in> set as" "clamps_ok a" and s: "s \<in> set samples \<or> from_samples as samples s"
  shows "result_ok as samples limit (run_measure limit r) (process_algorithm env limit s a r)"
proof (cases "ad_inputs (as_dsl a) = [] \<or> ts_telemetry_id s \<notin> set (algorithm_inputs a) \<or> transition_of a s \<in> set (er_processed r)")
  case True
  then show ?thesis using ok unfolding process_algorithm_def result_ok_def by simp
next
  case False
  let ?st = "case en_states (er_engine r) (as_id a) of Some st \<Rightarrow> st | None \<Rightarrow> algorithm_state_default"
  let ?now = "\<lambda>k. ae_now env (length (rp_events (er_report r)) + k)"
  obtain st' res where run: "run_algorithm env ?now a ?st s = Some (st', res)"
    using run_algorithm_returns [OF a(2)] by blast
  show ?thesis
  proof (cases res)
    case (Inl e)
    with run False ok show ?thesis by (simp add: process_algorithm_def result_ok_def Let_def run_ok_def)
  next
    case (Inr p)
    obtain gen ev where p: "p = (gen, ev)" by (cases p)
    have "\<forall>g \<in> set gen. from_samples as samples g"
      using run_algorithm_derived [OF run [unfolded Inr p]] from_derived [OF s a(1)] by blast
    with run Inr p False ok show ?thesis
      by (auto simp: process_algorithm_def result_ok_def Let_def run_ok_def run_measure_def)
  qed
qed

lemma result_ok_mono: "result_ok as samples limit n res \<Longrightarrow> n \<le> m \<Longrightarrow> result_ok as samples limit m res"
  by (auto simp: result_ok_def split: option.splits run_result.splits)

lemma process_algorithms_ok:
  assumes "run_ok as samples limit r" "set l \<subseteq> set as" "\<forall>a \<in> set as. clamps_ok a" "s \<in> set samples \<or> from_samples as samples s"
  shows "result_ok as samples limit (run_measure limit r) (process_algorithms env limit s l r)"
  using assms(1,2)
proof (induction l arbitrary: r)
  case (Cons a l)
  have one: "result_ok as samples limit (run_measure limit r) (process_algorithm env limit s a r)"
    using process_algorithm_ok [OF Cons.prems(1) _ _ assms(4)] Cons.prems(2) assms(3) by simp
  show ?case
  proof (cases "process_algorithm env limit s a r")
    case (Some res)
    show ?thesis
    proof (cases res)
      case (Continue r')
      with Some one have r': "run_ok as samples limit r'" "run_measure limit r' \<le> run_measure limit r" by (auto simp: result_ok_def)
      show ?thesis using result_ok_mono [OF Cons.IH [OF r'(1)] r'(2)] Cons.prems(2) Some Continue by simp
    qed (use Some one in simp)
  qed (use one in \<open>simp add: result_ok_def\<close>)
qed (simp add: result_ok_def)

lemma process_pending_ok:
  assumes "run_ok as samples limit r" "\<forall>a \<in> set as. clamps_ok a"
  shows "result_ok as samples limit (run_measure limit r) (process_pending env limit r)"
  using assms(1)
proof (induction "run_measure limit r" arbitrary: r rule: less_induct)
  case less
  show ?case
  proof (cases "er_pending r")
    case Nil
    then show ?thesis using less.prems by (subst process_pending.simps) (simp add: result_ok_def)
  next
    case (Cons s rest)
    let ?r = "r\<lparr>er_pending := rest\<rparr>"
    have ok: "run_ok as samples limit ?r" and s: "s \<in> set samples \<or> from_samples as samples s"
      using less.prems Cons by (auto simp: run_ok_def)
    have dec: "run_measure limit ?r < run_measure limit r" using Cons by (simp add: run_measure_def)
    have as: "en_algorithms (er_engine r) = as" using less.prems by (simp add: run_ok_def)
    have one: "result_ok as samples limit (run_measure limit ?r) (process_algorithms env limit s as ?r)"
      by (rule process_algorithms_ok [OF ok subset_refl assms(2) s])
    then obtain res where res: "process_algorithms env limit s as ?r = Some res" by (auto simp: result_ok_def split: option.splits)
    show ?thesis
    proof (cases res)
      case (Continue r')
      with one res have r': "run_ok as samples limit r'" "run_measure limit r' < run_measure limit r" using dec by (auto simp: result_ok_def)
      have "result_ok as samples limit (run_measure limit r) (process_pending env limit r')"
        by (rule result_ok_mono [OF less.hyps [OF r'(2,1)]]) (use r' in simp)
      with Cons res Continue as show ?thesis by (subst process_pending.simps) simp
    next
      case (Stop en e)
      with one res Cons as show ?thesis by (subst process_pending.simps) (simp add: result_ok_def)
    qed
  qed
qed

lemma apply_samples_ok:
  assumes "\<forall>a \<in> set (en_algorithms en). clamps_ok a"
  shows "\<exists>en' res. apply_samples env en samples = Some (en', res) \<and> en_algorithms en' = en_algorithms en \<and>
    (\<forall>report. res = Inr report \<longrightarrow>
      length (rp_samples report) \<le> max_generated_samples (length samples) (length (en_algorithms en)) \<and>
      (\<forall>g \<in> set (rp_samples report). from_samples (en_algorithms en) samples g))"
proof -
  let ?limit = "max_generated_samples (length samples) (length (en_algorithms en))"
  let ?r = "\<lparr>er_engine = en, er_report = \<lparr>rp_samples = [], rp_events = []\<rparr>, er_pending = samples, er_processed = []\<rparr>"
  have "run_ok (en_algorithms en) samples ?limit ?r" by (simp add: run_ok_def)
  from process_pending_ok [OF this assms, of env]
  show ?thesis by (auto simp: apply_samples_def result_ok_def run_ok_def split: option.splits run_result.splits)
qed

section \<open>Sequences of samples\<close>

fun run_samples :: "(algorithm_state \<Rightarrow> telemetry_sample \<Rightarrow> sample_run) \<Rightarrow> algorithm_state \<Rightarrow> telemetry_sample list \<Rightarrow> sample_run" where
  "run_samples f st [] = (st, Inr [])"
| "run_samples f st (s # ss) = (case f st s of
       (st', Inl e) \<Rightarrow> (st', Inl e)
     | (st', Inr xs) \<Rightarrow> (case run_samples f st' ss of (st'', r) \<Rightarrow> (st'', rbind r (\<lambda>ys. Inr (xs @ ys)))))"

text \<open>A partition into windows: all but the last sample of a window come before the window's time is
  over and the last one does not; a window starts at the last sample of the window before it.\<close>

fun windows_ok :: "(timestamp \<Rightarrow> timestamp \<Rightarrow> int) \<Rightarrow> int \<Rightarrow> timestamp \<Rightarrow> telemetry_sample list list \<Rightarrow> telemetry_sample list \<Rightarrow> bool" where
  "windows_ok mil every start [] open_window = (\<forall>s \<in> set open_window. mil (ts_timestamp s) start < every)"
| "windows_ok mil every start (w # ws) open_window = (w \<noteq> [] \<and>
     (\<forall>s \<in> set (butlast w). mil (ts_timestamp s) start < every) \<and> every \<le> mil (ts_timestamp (last w)) start \<and>
     windows_ok mil every (ts_timestamp (last w)) ws open_window)"

definition window_of :: "algorithm_spec \<Rightarrow> u64 \<Rightarrow> string \<Rightarrow> aggregate_function list \<Rightarrow> string \<Rightarrow> bool" where
  "window_of a every src fs point = (ad_trigger (as_dsl a) = TriggerWindow every \<and>
     find_map window_aggregate_of (ad_steps (as_dsl a)) = Some (src, fs) \<and> map_option ai_point_id (input_of_alias a src) = Some point)"

lemma window_step:
  assumes a: "window_of a every src fs (ts_telemetry_id s)"
    and w: "(case sa_windows st src of Some w \<Rightarrow> w | None \<Rightarrow> window_default) = \<lparr>ws_started_at = begun, ws_samples = cur\<rparr>"
    and start: "start = (case begun of Some t \<Rightarrow> t | None \<Rightarrow> ts_timestamp s)"
  shows "apply_window_aggregate env a st s =
    (if ae_millis env (ts_timestamp s) start < sint every
     then (st\<lparr>sa_windows := (sa_windows st)(src \<mapsto> \<lparr>ws_started_at = Some start, ws_samples = cur @ [s]\<rparr>)\<rparr>, Inr [])
     else (st\<lparr>sa_windows := (sa_windows st)(src \<mapsto> \<lparr>ws_started_at = Some (ts_timestamp s), ws_samples = []\<rparr>)\<rparr>,
       Inr (window_outputs env a fs (cur @ [s]) s)))"
  using a w start by (auto simp: apply_window_aggregate_def window_of_def Let_def)

lemma windows_from:
  assumes "window_of a every src fs point" "\<forall>s \<in> set ss. ts_telemetry_id s = point"
    "sa_windows st src = Some \<lparr>ws_started_at = Some start, ws_samples = cur\<rparr>"
    "\<forall>s \<in> set cur. ae_millis env (ts_timestamp s) start < sint every"
  shows "\<exists>ws open_window st'. cur @ ss = concat ws @ open_window \<and> windows_ok (ae_millis env) (sint every) start ws open_window \<and>
    run_samples (apply_window_aggregate env a) st ss = (st', Inr (concat (map (\<lambda>w. window_outputs env a fs w (last w)) ws)))"
  using assms(2-)
proof (induction ss arbitrary: st start cur)
  case Nil
  then show ?case by (intro exI [of _ "[]"] exI [of _ cur] exI [of _ st]) simp
next
  case (Cons s ss)
  have a: "window_of a every src fs (ts_telemetry_id s)" using assms(1) Cons.prems(1) by simp
  have ss: "\<forall>s \<in> set ss. ts_telemetry_id s = point" using Cons.prems(1) by simp
  note step = window_step [OF a, where st = st and begun = "Some start" and cur = cur and start = start and env = env]
  show ?case
  proof (cases "ae_millis env (ts_timestamp s) start < sint every")
    case True
    let ?st = "st\<lparr>sa_windows := (sa_windows st)(src \<mapsto> \<lparr>ws_started_at = Some start, ws_samples = cur @ [s]\<rparr>)\<rparr>"
    have "apply_window_aggregate env a st s = (?st, Inr [])" using step Cons.prems(2) True by simp
    moreover obtain ws ow st' where "(cur @ [s]) @ ss = concat ws @ ow" "windows_ok (ae_millis env) (sint every) start ws ow"
        "run_samples (apply_window_aggregate env a) ?st ss = (st', Inr (concat (map (\<lambda>w. window_outputs env a fs w (last w)) ws)))"
      using Cons.IH [OF ss, of ?st start "cur @ [s]"] Cons.prems(3) True by auto
    ultimately show ?thesis by (intro exI [of _ ws] exI [of _ ow] exI [of _ st']) simp
  next
    case False
    let ?st = "st\<lparr>sa_windows := (sa_windows st)(src \<mapsto> \<lparr>ws_started_at = Some (ts_timestamp s), ws_samples = []\<rparr>)\<rparr>"
    have "apply_window_aggregate env a st s = (?st, Inr (window_outputs env a fs (cur @ [s]) s))" using step Cons.prems(2) False by simp
    moreover obtain ws ow st' where "ss = concat ws @ ow" "windows_ok (ae_millis env) (sint every) (ts_timestamp s) ws ow"
        "run_samples (apply_window_aggregate env a) ?st ss = (st', Inr (concat (map (\<lambda>w. window_outputs env a fs w (last w)) ws)))"
      using Cons.IH [OF ss, of ?st "ts_timestamp s" "[]"] by auto
    ultimately show ?thesis using False Cons.prems(3)
      by (intro exI [of _ "(cur @ [s]) # ws"] exI [of _ ow] exI [of _ st']) simp
  qed
qed

lemma windows_partition:
  assumes "window_of a every src fs point" "\<forall>s \<in> set ss. ts_telemetry_id s = point" "sa_windows st src = None" "ss \<noteq> []"
  shows "\<exists>ws open_window st'. ss = concat ws @ open_window \<and>
    windows_ok (ae_millis env) (sint every) (ts_timestamp (hd ss)) ws open_window \<and>
    run_samples (apply_window_aggregate env a) st ss = (st', Inr (concat (map (\<lambda>w. window_outputs env a fs w (last w)) ws)))"
proof -
  obtain s rest where ss: "ss = s # rest" using assms(4) by (cases ss) auto
  let ?w = "\<lparr>ws_started_at = Some (ts_timestamp s), ws_samples = []\<rparr>"
  let ?st = "st\<lparr>sa_windows := (sa_windows st)(src \<mapsto> ?w)\<rparr>"
  have a: "window_of a every src fs (ts_telemetry_id s)" using assms(1,2) ss by simp
  have same: "apply_window_aggregate env a st s = apply_window_aggregate env a ?st s"
    using window_step [OF a, of st None "[]" "ts_timestamp s" env] window_step [OF a, of ?st "Some (ts_timestamp s)" "[]" "ts_timestamp s" env]
      assms(3) by (simp add: window_default_def)
  then have "run_samples (apply_window_aggregate env a) st ss = run_samples (apply_window_aggregate env a) ?st ss"
    by (simp add: ss)
  then show ?thesis using windows_from [OF assms(1,2), of ?st "ts_timestamp s" "[]" env] ss by simp
qed

text \<open>What a debounce remembers: the last sample that changed the value.\<close>

definition debounce_of_point :: "algorithm_spec \<Rightarrow> string \<Rightarrow> u64 \<Rightarrow> string \<Rightarrow> bool" where
  "debounce_of_point a src hold point = (find_map debounce_of (ad_steps (as_dsl a)) = Some (src, hold) \<and>
     map_option ai_point_id (input_of_alias a src) = Some point \<and> ad_outputs (as_dsl a) \<noteq> [])"

definition stable_since :: "telemetry_sample list \<Rightarrow> telemetry_sample \<Rightarrow> bool" where
  "stable_since hist f = (\<exists>pre suf. hist = pre @ f # suf \<and> (\<forall>x \<in> set suf. tv_eq (ts_value f) (ts_value x)))"

definition debounce_remembers :: "string \<Rightarrow> telemetry_sample list \<Rightarrow> algorithm_state \<Rightarrow> bool" where
  "debounce_remembers src hist st = (case sa_debounce_by_alias st src of
       None \<Rightarrow> hist = []
     | Some p \<Rightarrow> \<exists>f. stable_since hist f \<and> p = \<lparr>db_value = ts_value f, db_since = ts_timestamp f\<rparr>)"

lemma stable_since_snoc: "stable_since hist f \<Longrightarrow> tv_eq (ts_value f) (ts_value s) \<Longrightarrow> stable_since (hist @ [s]) f"
proof -
  assume "stable_since hist f" "tv_eq (ts_value f) (ts_value s)"
  then obtain pre suf where "hist = pre @ f # suf" "\<forall>x \<in> set suf. tv_eq (ts_value f) (ts_value x)" by (auto simp: stable_since_def)
  with \<open>tv_eq (ts_value f) (ts_value s)\<close> show ?thesis unfolding stable_since_def
    by (intro exI [of _ pre] exI [of _ "suf @ [s]"]) simp
qed

lemma stable_since_last: "stable_since (hist @ [s]) s"
  unfolding stable_since_def by (intro exI [of _ hist] exI [of _ "[]"]) simp

lemma debounce_step:
  assumes a: "debounce_of_point a src hold (ts_telemetry_id s)" and d: "debounce_remembers src hist st"
  shows "\<exists>st' gen. apply_debounce env a st s = (st', Inr gen) \<and> debounce_remembers src (hist @ [s]) st' \<and>
    (gen \<noteq> [] \<longrightarrow> gen = [derived_sample s (hd (ad_outputs (as_dsl a))) (ts_value s) s] \<and>
      (\<exists>f. stable_since (hist @ [s]) f \<and> tv_eq (ts_value f) (ts_value s) \<and> sint hold \<le> ae_millis env (ts_timestamp s) (ts_timestamp f)))"
proof -
  obtain out outs where o: "ad_outputs (as_dsl a) = out # outs" using a by (cases "ad_outputs (as_dsl a)") (auto simp: debounce_of_point_def)
  define p where "p = (case sa_debounce_by_alias st src of Some p \<Rightarrow> p | None \<Rightarrow> \<lparr>db_value = ts_value s, db_since = ts_timestamp s\<rparr>)"
  obtain f where f: "p = \<lparr>db_value = ts_value f, db_since = ts_timestamp f\<rparr>"
      "tv_eq (ts_value f) (ts_value s) \<Longrightarrow> stable_since (hist @ [s]) f"
  proof (cases "sa_debounce_by_alias st src")
    case None
    show ?thesis by (rule that [of s]) (simp_all add: p_def None stable_since_last)
  next
    case (Some q)
    with d obtain f where "stable_since hist f" "q = \<lparr>db_value = ts_value f, db_since = ts_timestamp f\<rparr>"
      by (auto simp: debounce_remembers_def)
    then show ?thesis using that [of f] Some stable_since_snoc by (simp add: p_def)
  qed
  show ?thesis
  proof (cases "tv_eq (ts_value f) (ts_value s)")
    case False
    then have "apply_debounce env a st s = (st\<lparr>sa_debounce_by_alias := (sa_debounce_by_alias st)(src \<mapsto>
        \<lparr>db_value = ts_value s, db_since = ts_timestamp s\<rparr>)\<rparr>, Inr [])"
      using a f(1) p_def [symmetric] by (auto simp: apply_debounce_def debounce_of_point_def Let_def)
    then show ?thesis using stable_since_last by (auto simp: debounce_remembers_def)
  next
    case True
    have keep: "debounce_remembers src (hist @ [s]) st'" if "sa_debounce_by_alias st' = (sa_debounce_by_alias st)(src \<mapsto> p)" for st'
      using that f True by (auto simp: debounce_remembers_def)
    show ?thesis using a f True o p_def [symmetric]
      by (auto simp: apply_debounce_def debounce_of_point_def Let_def keep split: option.splits)
  qed
qed

lemma debounce_run:
  assumes "\<forall>s \<in> set ss. debounce_of_point a src hold (ts_telemetry_id s)" "debounce_remembers src hist st"
  shows "debounce_remembers src (hist @ ss) (fst (run_samples (apply_debounce env a) st ss))"
  using assms
proof (induction ss arbitrary: st hist)
  case (Cons s ss)
  obtain st' gen where s: "apply_debounce env a st s = (st', Inr gen)" "debounce_remembers src (hist @ [s]) st'"
    using debounce_step [OF _ Cons.prems(2), of a hold s env] Cons.prems(1) by auto
  then show ?case using Cons.IH [OF _ s(2)] Cons.prems(1) by (auto split: prod.splits)
qed simp

section \<open>Clamps with crossed bounds\<close>

lemma clamp_panics:
  assumes kind: "as_kind a = ExpressionAggregate" and steps: "ad_steps (as_dsl a) = StClamp src out lo hi # rest"
    and input: "input_of_alias a src = Some b" "ai_point_id b = ts_telemetry_id s"
    and num: "as_f64 (ts_value s) = Some v" and crossed: "\<not> f64_le lo hi"
  shows "run_algorithm env now a st s = None"
proof -
  have "b \<in> set (ad_inputs (as_dsl a))" "ai_alias b = src" using input(1) by (auto simp: input_of_alias_def find_Some_iff)
  moreover have "sa_latest_by_alias (foldl (\<lambda>st i. if ai_point_id i = ts_telemetry_id s
       then st\<lparr>sa_latest_by_alias := (sa_latest_by_alias st)(ai_alias i \<mapsto> s)\<rparr> else st) st is) src = Some s"
    if "(b \<in> set is \<and> ai_alias b = src) \<or> sa_latest_by_alias st src = Some s" for st :: algorithm_state and "is"
    using that input(2) by (induction "is" arbitrary: st) auto
  ultimately have "sa_latest_by_alias (record_latest a st s) src = Some s" by (simp add: record_latest_def)
  then have "numeric_source a (record_latest a st s) s src = Some v" using input num by (simp add: numeric_source_def)
  then show ?thesis using kind steps crossed by (simp add: run_algorithm_def apply_transform_steps_def transform_step_def f64_clamp_def)
qed

lemma apply_samples_clamp:
  assumes "en_algorithms en = a # as" "as_kind a = ExpressionAggregate" "ad_steps (as_dsl a) = StClamp src out lo hi # rest"
    "input_of_alias a src = Some b" "ai_point_id b = ts_telemetry_id s" "as_f64 (ts_value s) = Some v" "\<not> f64_le lo hi"
  shows "apply_samples env en (s # ss) = None"
proof -
  have b: "b \<in> set (ad_inputs (as_dsl a))" using assms(4) by (auto simp: input_of_alias_def find_Some_iff)
  then have "ts_telemetry_id s \<in> set (algorithm_inputs a)" "ad_inputs (as_dsl a) \<noteq> []"
    using assms(5) [symmetric] by (auto simp: algorithm_inputs_def)
  then show ?thesis using assms(1) clamp_panics [OF assms(2-7)]
    by (simp add: apply_samples_def process_pending.simps process_algorithm_def Let_def)
qed

section \<open>Examples\<close>

definition example_algorithm :: "algorithm_kind \<Rightarrow> algorithm_trigger \<Rightarrow> algorithm_step \<Rightarrow> algorithm_spec" where
  "example_algorithm kind trigger step = algorithm_spec_dsl ''alg'' ''1'' kind
     \<lparr>ad_inputs = [\<lparr>ai_alias = ''x'', ai_point_id = ''p''\<rparr>], ad_trigger = trigger, ad_steps = [step],
      ad_outputs = [\<lparr>ao_name = ''out'', ao_point_id = ''q''\<rparr>], ad_report = algorithm_report_default\<rparr>"

definition example_clamp :: "f64 \<Rightarrow> f64 \<Rightarrow> algorithm_spec" where
  "example_clamp lo hi = example_algorithm ExpressionAggregate OnSample (StClamp ''x'' ''out'' lo hi)"

definition example_window :: algorithm_spec where
  "example_window = example_algorithm WindowAggregate (TriggerWindow 10) (StWindowAggregate ''x'' [AggCount ''out''])"

definition example_debounce :: algorithm_spec where
  "example_debounce = example_algorithm Debounce OnSample (StDebounce ''x'' 10)"

definition example_engine :: "algorithm_spec list \<Rightarrow> algorithm_engine" where
  "example_engine as = \<lparr>en_algorithms = as, en_states = Map.empty, en_execution = Map.empty\<rparr>"

definition example_algorithm_env :: algorithm_env where
  "example_algorithm_env = \<lparr>ae_pow = \<lambda>x y. x, ae_millis = \<lambda>t u. (t - u) div 1000000, ae_sum_start = f64_zero,
     ae_elapsed = \<lambda>_. 0, ae_now = \<lambda>_. 0\<rparr>"

definition example_sample :: "bool \<Rightarrow> timestamp \<Rightarrow> telemetry_sample" where
  "example_sample b t = sample_new ''dev'' ''p'' (Boolean b) QGood (t * 1000000)"

section \<open>The properties of the engine\<close>





text \<open>
  C17. The windows of a window algorithm partition the samples of its source: each sample is in exactly one window or in the open
  one, in order; a window closes with the first sample that is \<open>every_ms\<close> (read as a signed number) after the window's start,
  which is the first sample for the first window and the end of the window before for the others; and the outputs are the
  aggregates of the closed windows.\<close>

theorem windows_tumble:
  assumes "window_of a every src fs point" "\<forall>s \<in> set ss. ts_telemetry_id s = point" "sa_windows st src = None" "ss \<noteq> []"
  shows "\<exists>ws open_window st'. ss = concat ws @ open_window \<and>
    windows_ok (ae_millis env) (sint every) (ts_timestamp (hd ss)) ws open_window \<and>
    run_samples (apply_window_aggregate env a) st ss = (st', Inr (concat (map (\<lambda>w. window_outputs env a fs w (last w)) ws)))"
  by (rule windows_partition [OF assms])

theorem windows_tumble_witness:
  "\<exists>ws open_window st'. map (example_sample True) [0, 4, 11, 15] = concat ws @ open_window \<and>
    windows_ok (\<lambda>t u. (t - u) div 1000000) 10 0 ws open_window \<and>
    run_samples (apply_window_aggregate example_algorithm_env example_window) algorithm_state_default (map (example_sample True) [0, 4, 11, 15]) =
      (st', Inr (concat (map (\<lambda>w. window_outputs example_algorithm_env example_window [AggCount ''out''] w (last w)) ws)))"
proof -
  have "window_of example_window 10 ''x'' [AggCount ''out''] ''p''"
    by (simp add: window_of_def example_window_def example_algorithm_def algorithm_spec_dsl_def window_aggregate_of_def input_of_alias_def)
  from windows_tumble [OF this, of "map (example_sample True) [0, 4, 11, 15]" algorithm_state_default example_algorithm_env]
  show ?thesis by (simp add: example_sample_def sample_new_def algorithm_state_default_def example_algorithm_env_def)
qed

text \<open>
  C18. A debounce reports a value only when the value was stable: from some sample on, every sample of the source had a value equal to
  that sample's, and the last one came at least \<open>stable_ms\<close> after it. What it reports is the last sample's value, under the
  first output.\<close>

theorem debounce_reports_stable:
  assumes "\<forall>x \<in> set (ss @ [s]). debounce_of_point a src hold (ts_telemetry_id x)" "sa_debounce_by_alias st src = None"
    "apply_debounce env a (fst (run_samples (apply_debounce env a) st ss)) s = (st', Inr gen)" "gen \<noteq> []"
  shows "gen = [derived_sample s (hd (ad_outputs (as_dsl a))) (ts_value s) s] \<and>
    (\<exists>f. stable_since (ss @ [s]) f \<and> tv_eq (ts_value f) (ts_value s) \<and> sint hold \<le> ae_millis env (ts_timestamp s) (ts_timestamp f))"
proof -
  have "debounce_remembers src ss (fst (run_samples (apply_debounce env a) st ss))"
    using debounce_run [of ss a src hold "[]" st env] assms(1,2) by (simp add: debounce_remembers_def)
  from debounce_step [OF _ this, of a hold s env] assms show ?thesis by auto
qed

theorem debounce_reports_stable_witness:
  "\<exists>f. stable_since [example_sample True 0, example_sample True 11] f \<and> 10 \<le> (11000000 - ts_timestamp f) div 1000000"
proof -
  let ?st = "fst (run_samples (apply_debounce example_algorithm_env example_debounce) algorithm_state_default [example_sample True 0])"
  note defs = example_sample_def sample_new_def algorithm_state_default_def example_algorithm_env_def example_debounce_def example_algorithm_def
    algorithm_spec_dsl_def debounce_of_def input_of_alias_def
  have a: "\<forall>x \<in> set ([example_sample True 0] @ [example_sample True 11]). debounce_of_point example_debounce ''x'' 10 (ts_telemetry_id x)"
    by (simp add: debounce_of_point_def defs)
  obtain st' gen where g: "apply_debounce example_algorithm_env example_debounce ?st (example_sample True 11) = (st', Inr gen)" "gen \<noteq> []"
    by (simp add: apply_debounce_def defs Let_def)
  from debounce_reports_stable [OF a _ g] show ?thesis by (auto simp: defs)
qed

end
