(* ===== verification/Agent_Governance.thy ===== *)
theory Agent_Governance
  imports Flow_Config
begin

text \<open>
  The governance of agents in the control plane: proposals and their review
  (crates/cloud-control/src/agent.rs), the registry of tools with its authorization rules, change
  sets of configuration and candidates of device commands (crates/cloud-control/src/agent_v2.rs). JSON
  values are of a type \<open>'j\<close>; identifiers and clock readings are arguments. A change set and a command
  candidate are state machines; their shared contract is the locale \<open>governed\<close>.
\<close>

section \<open>Proposals\<close>

datatype agent_proposal_kind = ConfigSuggestion | PointMapping | RolloutPlan | CommandProposal

datatype agent_proposal_risk = ProposalLow | ProposalMedium | ProposalHigh

datatype agent_proposal_status = PendingReview | Approved | Rejected

record 'j agent_proposal =
  ap_proposal_id :: string
  ap_agent_id :: string
  ap_kind :: agent_proposal_kind
  ap_project_id :: "string option"
  ap_edge_id :: "string option"
  ap_title :: string
  ap_summary :: string
  ap_payload :: 'j
  ap_risk :: agent_proposal_risk
  ap_status :: agent_proposal_status
  ap_created_by :: string
  ap_created_at :: timestamp
  ap_reviewed_by :: "string option"
  ap_reviewed_at :: "timestamp option"
  ap_review_note :: "string option"

definition proposal_new :: "string \<Rightarrow> timestamp \<Rightarrow> 'j \<Rightarrow> string \<Rightarrow> agent_proposal_kind \<Rightarrow> string \<Rightarrow> string \<Rightarrow> string \<Rightarrow> 'j agent_proposal" where
  "proposal_new uid now none agent kind title summary by =
     \<lparr>ap_proposal_id = uid, ap_agent_id = agent, ap_kind = kind, ap_project_id = None, ap_edge_id = None, ap_title = title,
      ap_summary = summary, ap_payload = none, ap_risk = ProposalLow, ap_status = PendingReview, ap_created_by = by,
      ap_created_at = now, ap_reviewed_by = None, ap_reviewed_at = None, ap_review_note = None\<rparr>"

datatype review_error = AlreadyReviewed | InvalidDecision | MissingReviewer | SelfReview | ApprovalNoteRequired | ReviewNoteTooLong

text \<open>The number of characters of a text in UTF-8: its bytes that are not continuation bytes.\<close>

definition chars_count :: "string \<Rightarrow> nat" where
  "chars_count s = length (filter (\<lambda>c. \<not> (128 \<le> (of_char c :: nat) \<and> (of_char c :: nat) < 192)) s)"

definition review :: "timestamp \<Rightarrow> 'j agent_proposal \<Rightarrow> agent_proposal_status \<Rightarrow> string \<Rightarrow> string option \<Rightarrow> review_error + 'j agent_proposal" where
  "review now p decision reviewer note =
     (if ap_status p \<noteq> PendingReview then Inl AlreadyReviewed
      else if decision \<notin> {Approved, Rejected} then Inl InvalidDecision
      else let who = trim reviewer in
        if who = [] then Inl MissingReviewer
        else if who = trim (ap_created_by p) then Inl SelfReview
        else let kept = option_filter (\<lambda>v. v \<noteq> []) (map_option trim note) in
          if (case kept of Some v \<Rightarrow> 2000 < chars_count v | None \<Rightarrow> False) then Inl ReviewNoteTooLong
          else if decision = Approved \<and> ap_risk p = ProposalHigh \<and> kept = None then Inl ApprovalNoteRequired
          else Inr (p\<lparr>ap_status := decision, ap_reviewed_by := Some who, ap_reviewed_at := Some now, ap_review_note := kept\<rparr>))"

section \<open>Tools\<close>

datatype agent_risk_level = RiskLow | RiskMedium | RiskHigh | RiskCritical

datatype agent_permission =
    ProjectRead | ProductRead | ConfigurationRead | RuntimeRead | MqttRead | AuditRead | KnowledgeRead
  | ConfigurationPropose | ConfigurationApply | CommandPropose | CommandDispatch

datatype agent_tool_category = CatProject | CatProduct | CatConfiguration | CatRuntime | CatMqtt | CatAudit | CatKnowledge | CatCommand

datatype agent_tool_effect = ReadOnly | DraftChangeSet | ApplyChangeSet | DraftDeviceCommand | DispatchDeviceCommand

definition mutates_state :: "agent_tool_effect \<Rightarrow> bool" where
  "mutates_state e = (e \<in> {ApplyChangeSet, DispatchDeviceCommand})"

datatype agent_tool_exposure = ModelCallable | ControlPlaneOnly

datatype agent_confirmation_policy = NoConfirmation | HumanUser | PrivilegedReviewer | TwoPerson

record 'j agent_tool_descriptor =
  td_name :: string
  td_description :: string
  td_category :: agent_tool_category
  td_effect :: agent_tool_effect
  td_exposure :: agent_tool_exposure
  td_risk :: agent_risk_level
  td_confirmation :: agent_confirmation_policy
  td_required_permissions :: "agent_permission set"
  td_input_schema :: 'j
  td_output_schema :: 'j

datatype agent_tool_registry_error =
    EmptyToolName | DuplicateTool string | InvalidSchema string | ModelMutationForbidden string
  | MutationRequiresConfirmation string | UnknownTool string

definition descriptor_validate :: "('j \<Rightarrow> bool) \<Rightarrow> 'j agent_tool_descriptor \<Rightarrow> agent_tool_registry_error + unit" where
  "descriptor_validate is_object d =
     (if trim (td_name d) = [] then Inl EmptyToolName
      else if \<not> is_object (td_input_schema d) \<or> \<not> is_object (td_output_schema d) then Inl (InvalidSchema (td_name d))
      else if td_exposure d = ModelCallable \<and> mutates_state (td_effect d) then Inl (ModelMutationForbidden (td_name d))
      else if mutates_state (td_effect d) \<and> td_confirmation d = NoConfirmation then Inl (MutationRequiresConfirmation (td_name d))
      else Inr ())"

type_synonym 'j agent_tool_registry = "string \<rightharpoonup> 'j agent_tool_descriptor"

definition register :: "('j \<Rightarrow> bool) \<Rightarrow> 'j agent_tool_registry \<Rightarrow> 'j agent_tool_descriptor \<Rightarrow> agent_tool_registry_error + 'j agent_tool_registry" where
  "register is_object reg d = rbind (descriptor_validate is_object d) (\<lambda>_.
     if reg (td_name d) \<noteq> None then Inl (DuplicateTool (td_name d)) else Inr (reg(td_name d \<mapsto> d)))"

datatype agent_tool_caller = CallerModel | CallerControlPlane

record agent_confirmation_evidence =
  ev_confirmed_by :: string
  ev_co_approver :: "string option"
  ev_note :: "string option"
  ev_confirmed_at :: timestamp

text \<open>The test that \<open>is_human\<close> and \<open>distinct_approvers\<close> apply to a trimmed name.\<close>

definition human_name :: "string \<Rightarrow> bool" where
  "human_name a = (a \<noteq> [] \<and> \<not> starts_with a ''agent:'' \<and> \<not> starts_with a ''model:'')"

definition is_human :: "agent_confirmation_evidence \<Rightarrow> bool" where
  "is_human e = human_name (trim (ev_confirmed_by e))"

definition distinct_approvers :: "agent_confirmation_evidence \<Rightarrow> nat" where
  "distinct_approvers e = card ((if is_human e then {trim (ev_confirmed_by e)} else {}) \<union>
     (case ev_co_approver e of Some c \<Rightarrow> if human_name (trim c) then {trim c} else {} | None \<Rightarrow> {}))"

record agent_authorization_request =
  aq_caller :: agent_tool_caller
  aq_permissions :: "agent_permission set"
  aq_confirmation :: "agent_confirmation_evidence option"

datatype agent_tool_decision =
    Allowed | ConfirmationRequired agent_confirmation_policy | Denied string "agent_permission set"

definition authorize :: "'j agent_tool_registry \<Rightarrow> string \<Rightarrow> agent_authorization_request \<Rightarrow> agent_tool_registry_error + agent_tool_decision" where
  "authorize reg name q = (case reg name of
       None \<Rightarrow> Inl (UnknownTool name)
     | Some tool \<Rightarrow> Inr (
         if aq_caller q = CallerModel \<and> td_exposure tool = ControlPlaneOnly
         then Denied ''tool is reserved for the deterministic control plane'' {}
         else if td_required_permissions tool - aq_permissions q \<noteq> {}
         then Denied ''caller does not have the required permissions'' (td_required_permissions tool - aq_permissions q)
         else if td_confirmation tool \<noteq> NoConfirmation
         then (case aq_confirmation q of
             None \<Rightarrow> ConfirmationRequired (td_confirmation tool)
           | Some e \<Rightarrow>
               if \<not> is_human e then Denied ''confirmation must be provided by a human operator'' {}
               else if td_confirmation tool = TwoPerson \<and> distinct_approvers e < 2 then ConfirmationRequired TwoPerson
               else Allowed)
         else Allowed))"

definition default_tool_descriptors :: "'j \<Rightarrow> 'j agent_tool_descriptor list" where
  "default_tool_descriptors schema = (
     let descriptor = (\<lambda>name description category effect exposure risk confirmation permissions.
       \<lparr>td_name = name, td_description = description, td_category = category, td_effect = effect, td_exposure = exposure,
        td_risk = risk, td_confirmation = confirmation, td_required_permissions = set permissions,
        td_input_schema = schema, td_output_schema = schema\<rparr>) in
     [descriptor ''project.list'' ''List projects available in the active operator scope.''
        CatProject ReadOnly ModelCallable RiskLow NoConfirmation [ProjectRead],
      descriptor ''product.inspect'' ''Inspect a product, protocol bindings and runtime compatibility.''
        CatProduct ReadOnly ModelCallable RiskLow NoConfirmation [ProductRead],
      descriptor ''configuration.inspect'' ''Inspect point sets, protocol connections and data or command flows.''
        CatConfiguration ReadOnly ModelCallable RiskLow NoConfirmation [ConfigurationRead],
      descriptor ''protocol.inspect'' ''Inspect scoped industrial protocol connections and their runtime bindings.''
        CatConfiguration ReadOnly ModelCallable RiskLow NoConfirmation [ConfigurationRead],
      descriptor ''point_set.inspect'' ''Inspect reusable point sets, point addresses, access and sampling intervals.''
        CatConfiguration ReadOnly ModelCallable RiskLow NoConfirmation [ConfigurationRead],
      descriptor ''collection_flow.inspect'' ''Inspect upstream collection graphs, calculations and MQTT outputs.''
        CatConfiguration ReadOnly ModelCallable RiskLow NoConfirmation [ConfigurationRead],
      descriptor ''command_flow.inspect'' ''Inspect governed downstream command graphs and writable-point targets.''
        CatCommand ReadOnly ModelCallable RiskLow NoConfirmation [ConfigurationRead],
      descriptor ''runtime.metrics'' ''Read runtime health, collection, processing and delivery metrics.''
        CatRuntime ReadOnly ModelCallable RiskLow NoConfirmation [RuntimeRead],
      descriptor ''mqtt.status'' ''Read MQTT connection, session, delivery and error status.''
        CatMqtt ReadOnly ModelCallable RiskLow NoConfirmation [MqttRead],
      descriptor ''operations.diagnose'' ''Correlate configuration, Runtime, industrial protocol, MQTT, local buffer and event evidence into deterministic operational findings.''
        CatRuntime ReadOnly ModelCallable RiskLow NoConfirmation [RuntimeRead, ConfigurationRead, MqttRead],
      descriptor ''audit.search'' ''Search scoped configuration, command and runtime audit events.''
        CatAudit ReadOnly ModelCallable RiskLow NoConfirmation [AuditRead],
      descriptor ''knowledge.search'' ''Retrieve protocol manuals and runbooks with citations.''
        CatKnowledge ReadOnly ModelCallable RiskLow NoConfirmation [KnowledgeRead],
      descriptor ''configuration.change_set.draft'' ''Create a non-executing configuration ChangeSet with diff and impact metadata.''
        CatConfiguration DraftChangeSet ModelCallable RiskMedium NoConfirmation [ConfigurationPropose],
      descriptor ''configuration.change_set.apply'' ''Apply a validated and confirmed ChangeSet through configuration APIs.''
        CatConfiguration ApplyChangeSet ControlPlaneOnly RiskHigh HumanUser [ConfigurationApply],
      descriptor ''device.command.draft'' ''Create a non-executing command candidate for a writable point.''
        CatCommand DraftDeviceCommand ModelCallable RiskHigh NoConfirmation [CommandPropose],
      descriptor ''device.command.dispatch'' ''Dispatch a validated command through policy and the device adapter.''
        CatCommand DispatchDeviceCommand ControlPlaneOnly RiskCritical PrivilegedReviewer [CommandDispatch]])"

fun register_all :: "('j \<Rightarrow> bool) \<Rightarrow> 'j agent_tool_registry \<Rightarrow> 'j agent_tool_descriptor list \<Rightarrow> agent_tool_registry_error + 'j agent_tool_registry" where
  "register_all is_object reg [] = Inr reg"
| "register_all is_object reg (d # ds) = rbind (register is_object reg d) (\<lambda>reg'. register_all is_object reg' ds)"

text \<open>\<open>expect\<close> panics on an error: the registry of the program, or \<open>None\<close>.\<close>

definition velaedge_v2 :: "('j \<Rightarrow> bool) \<Rightarrow> 'j \<Rightarrow> 'j agent_tool_registry option" where
  "velaedge_v2 is_object schema = (case register_all is_object Map.empty (default_tool_descriptors schema) of
     Inr reg \<Rightarrow> Some reg | Inl _ \<Rightarrow> None)"

section \<open>Change sets\<close>

datatype agent_resource_kind =
    ResProject | ResProduct | ResProductVersion | ResPointSet | ResProtocolConnection | ResCollectionFlow | ResCommandFlow
  | ResMqttSink | ResEdgeBinding

datatype agent_change_operation_kind = OpCreate | OpUpdate | OpDelete

record 'j agent_change_operation =
  co_operation_id :: string
  co_kind :: agent_change_operation_kind
  co_resource_kind :: agent_resource_kind
  co_resource_id :: string
  co_before :: "'j option"
  co_after :: "'j option"
  co_depends_on :: "string list"

definition operation_new :: "string \<Rightarrow> agent_change_operation_kind \<Rightarrow> agent_resource_kind \<Rightarrow> string \<Rightarrow> 'j option \<Rightarrow> 'j option \<Rightarrow> 'j agent_change_operation" where
  "operation_new uid kind rk rid before after = \<lparr>co_operation_id = uid, co_kind = kind, co_resource_kind = rk,
     co_resource_id = rid, co_before = before, co_after = after, co_depends_on = []\<rparr>"

datatype agent_change_set_status = CsDraft | CsAwaitingConfirmation | CsConfirmed | CsApplying | CsApplied | CsRejected | CsFailed

datatype agent_change_set_error =
    EmptyChangeSet | InvalidOperation string | CsValidationRequired | CsHumanConfirmationRequired | CsReviewNoteRequired
  | CsInvalidTransition agent_change_set_status string

definition validate_shape :: "'j agent_change_operation \<Rightarrow> agent_change_set_error + unit" where
  "validate_shape o1 = (
     let valid = (case co_kind o1 of
           OpCreate \<Rightarrow> co_before o1 = None \<and> co_after o1 \<noteq> None
         | OpUpdate \<Rightarrow> co_before o1 \<noteq> None \<and> co_after o1 \<noteq> None
         | OpDelete \<Rightarrow> co_before o1 \<noteq> None \<and> co_after o1 = None) in
     if \<not> valid \<or> trim (co_resource_id o1) = [] then Inl (InvalidOperation (co_operation_id o1)) else Inr ())"

record agent_change_target =
  tg_project_id :: string
  tg_product_id :: "string option"
  tg_product_version :: "string option"
  tg_edge_ids :: "string set"

datatype agent_validation_severity = IssueInfo | IssueWarning | IssueError

record agent_validation_issue =
  vi_severity :: agent_validation_severity
  vi_code :: string
  vi_path :: string
  vi_message :: string

record agent_impact_summary =
  im_affected_resources :: nat
  im_affected_edges :: "string set"
  im_requires_runtime_sync :: bool
  im_command_path_changed :: bool
  im_notes :: "string list"

record agent_validation_report =
  vr_valid :: bool
  vr_checked_at :: timestamp
  vr_issues :: "agent_validation_issue list"
  vr_impact :: agent_impact_summary

definition report_of_issues :: "timestamp \<Rightarrow> agent_validation_issue list \<Rightarrow> agent_impact_summary \<Rightarrow> agent_validation_report" where
  "report_of_issues now issues impact = \<lparr>vr_valid = list_all (\<lambda>i. vi_severity i \<noteq> IssueError) issues, vr_checked_at = now,
     vr_issues = issues, vr_impact = impact\<rparr>"

text \<open>The JSON result of a change set or candidate: a value of the executor or the object written by a rejection.\<close>

datatype 'j governed_result = ResultValue 'j | RejectedBy string string timestamp

record 'j agent_change_set =
  cs_change_set_id :: string
  cs_title :: string
  cs_rationale :: string
  cs_target :: agent_change_target
  cs_base_revision :: string
  cs_operations :: "'j agent_change_operation list"
  cs_risk :: agent_risk_level
  cs_status :: agent_change_set_status
  cs_validation :: "agent_validation_report option"
  cs_confirmation :: "agent_confirmation_evidence option"
  cs_created_by :: string
  cs_created_at :: timestamp
  cs_updated_at :: timestamp
  cs_result :: "'j governed_result option"

fun check_shapes :: "'j agent_change_operation list \<Rightarrow> agent_change_set_error + unit" where
  "check_shapes [] = Inr ()"
| "check_shapes (o1 # os) = rbind (validate_shape o1) (\<lambda>_. check_shapes os)"

definition change_set_new :: "string \<Rightarrow> timestamp \<Rightarrow> string \<Rightarrow> string \<Rightarrow> agent_change_target \<Rightarrow> string \<Rightarrow> 'j agent_change_operation list \<Rightarrow>
    agent_risk_level \<Rightarrow> string \<Rightarrow> agent_change_set_error + 'j agent_change_set" where
  "change_set_new uid now title rationale target revision ops risk by =
     (if ops = [] then Inl EmptyChangeSet
      else rbind (check_shapes ops) (\<lambda>_. Inr
        \<lparr>cs_change_set_id = uid, cs_title = title, cs_rationale = rationale, cs_target = target, cs_base_revision = revision,
         cs_operations = ops, cs_risk = risk, cs_status = CsDraft, cs_validation = None, cs_confirmation = None, cs_created_by = by,
         cs_created_at = now, cs_updated_at = now, cs_result = None\<rparr>))"

definition blank_note :: "string option \<Rightarrow> bool" where
  "blank_note n = ((case n of Some v \<Rightarrow> trim v | None \<Rightarrow> []) = [])"

definition cs_record_validation :: "timestamp \<Rightarrow> agent_validation_report \<Rightarrow> 'j agent_change_set \<Rightarrow> agent_change_set_error + 'j agent_change_set" where
  "cs_record_validation now r c =
     (if cs_status c \<in> {CsApplying, CsApplied, CsRejected, CsFailed} then Inl (CsInvalidTransition (cs_status c) ''record_validation'')
      else Inr (c\<lparr>cs_status := (if vr_valid r then CsAwaitingConfirmation else CsDraft), cs_validation := Some r,
        cs_confirmation := None, cs_updated_at := now\<rparr>))"

definition cs_confirm :: "timestamp \<Rightarrow> agent_confirmation_evidence \<Rightarrow> 'j agent_change_set \<Rightarrow> agent_change_set_error + 'j agent_change_set" where
  "cs_confirm now e c =
     (if cs_status c \<noteq> CsAwaitingConfirmation then Inl (CsInvalidTransition (cs_status c) ''confirm'')
      else if \<not> (case cs_validation c of Some r \<Rightarrow> vr_valid r | None \<Rightarrow> False) then Inl CsValidationRequired
      else if \<not> is_human e then Inl CsHumanConfirmationRequired
      else if cs_risk c \<in> {RiskHigh, RiskCritical} \<and> blank_note (ev_note e) then Inl CsReviewNoteRequired
      else Inr (c\<lparr>cs_confirmation := Some e, cs_status := CsConfirmed, cs_updated_at := now\<rparr>))"

definition cs_start_apply :: "timestamp \<Rightarrow> 'j agent_change_set \<Rightarrow> agent_change_set_error + 'j agent_change_set" where
  "cs_start_apply now c =
     (if cs_status c \<noteq> CsConfirmed then Inl (CsInvalidTransition (cs_status c) ''start_apply'')
      else Inr (c\<lparr>cs_status := CsApplying, cs_updated_at := now\<rparr>))"

definition cs_reject :: "timestamp \<Rightarrow> timestamp \<Rightarrow> string \<Rightarrow> string \<Rightarrow> 'j agent_change_set \<Rightarrow> agent_change_set_error + 'j agent_change_set" where
  "cs_reject at now by note c =
     (if cs_status c \<in> {CsApplying, CsApplied, CsRejected, CsFailed} then Inl (CsInvalidTransition (cs_status c) ''reject'')
      else if trim by = [] \<or> starts_with by ''agent:'' \<or> starts_with by ''model:'' then Inl CsHumanConfirmationRequired
      else if trim note = [] then Inl CsReviewNoteRequired
      else Inr (c\<lparr>cs_status := CsRejected, cs_confirmation := None, cs_result := Some (RejectedBy by note at), cs_updated_at := now\<rparr>))"

definition cs_finish_apply :: "timestamp \<Rightarrow> agent_change_set_status \<Rightarrow> 'j \<Rightarrow> 'j agent_change_set \<Rightarrow> agent_change_set_error + 'j agent_change_set" where
  "cs_finish_apply now st result c =
     (if cs_status c \<noteq> CsApplying then Inl (CsInvalidTransition (cs_status c) ''finish_apply'')
      else Inr (c\<lparr>cs_status := st, cs_result := Some (ResultValue result), cs_updated_at := now\<rparr>))"

definition cs_mark_applied :: "timestamp \<Rightarrow> 'j \<Rightarrow> 'j agent_change_set \<Rightarrow> agent_change_set_error + 'j agent_change_set" where
  "cs_mark_applied now result c = cs_finish_apply now CsApplied result c"

definition cs_mark_failed :: "timestamp \<Rightarrow> 'j \<Rightarrow> 'j agent_change_set \<Rightarrow> agent_change_set_error + 'j agent_change_set" where
  "cs_mark_failed now result c = cs_finish_apply now CsFailed result c"

section \<open>Command candidates\<close>

record agent_command_target =
  ct_project_id :: string
  ct_edge_id :: string
  ct_product_id :: "string option"
  ct_product_version :: "string option"
  ct_flow_id :: string
  ct_protocol_connection_id :: string
  ct_target_device_id :: string
  ct_point_id :: string

datatype agent_command_candidate_status =
    CcDraft | CcAwaitingConfirmation | CcConfirmed | CcDispatching | CcDispatched | CcRejected | CcFailed

datatype agent_command_candidate_error =
    MissingTargetField string | IdempotencyKeyRequired | CcValidationRequired | CcHumanConfirmationRequired | CcReviewNoteRequired
  | TwoPersonConfirmationRequired | CcInvalidTransition agent_command_candidate_status string

definition target_validate :: "agent_command_target \<Rightarrow> agent_command_candidate_error + unit" where
  "target_validate t = (case find (\<lambda>(f, v). trim v = [])
       [(''projectId'', ct_project_id t), (''edgeId'', ct_edge_id t), (''flowId'', ct_flow_id t),
        (''protocolConnectionId'', ct_protocol_connection_id t), (''deviceId'', ct_target_device_id t), (''pointId'', ct_point_id t)] of
     Some (f, v) \<Rightarrow> Inl (MissingTargetField f) | None \<Rightarrow> Inr ())"

record 'j agent_command_candidate =
  cc_candidate_id :: string
  cc_title :: string
  cc_rationale :: string
  cc_target :: agent_command_target
  cc_value :: 'j
  cc_idempotency_key :: string
  cc_risk :: agent_risk_level
  cc_status :: agent_command_candidate_status
  cc_validation :: "agent_validation_report option"
  cc_confirmation :: "agent_confirmation_evidence option"
  cc_created_by :: string
  cc_created_at :: timestamp
  cc_updated_at :: timestamp
  cc_result :: "'j governed_result option"

definition command_candidate_new :: "string \<Rightarrow> timestamp \<Rightarrow> string \<Rightarrow> string \<Rightarrow> agent_command_target \<Rightarrow> 'j \<Rightarrow> string \<Rightarrow> agent_risk_level \<Rightarrow> string \<Rightarrow>
    agent_command_candidate_error + 'j agent_command_candidate" where
  "command_candidate_new uid now title rationale target v key risk by = rbind (target_validate target) (\<lambda>_.
     if trim key = [] then Inl IdempotencyKeyRequired
     else Inr \<lparr>cc_candidate_id = uid, cc_title = title, cc_rationale = rationale, cc_target = target, cc_value = v,
       cc_idempotency_key = key, cc_risk = risk, cc_status = CcDraft, cc_validation = None, cc_confirmation = None,
       cc_created_by = by, cc_created_at = now, cc_updated_at = now, cc_result = None\<rparr>)"

definition cc_record_validation :: "timestamp \<Rightarrow> agent_validation_report \<Rightarrow> 'j agent_command_candidate \<Rightarrow> agent_command_candidate_error + 'j agent_command_candidate" where
  "cc_record_validation now r c =
     (if cc_status c \<in> {CcDispatching, CcDispatched, CcRejected, CcFailed} then Inl (CcInvalidTransition (cc_status c) ''record_validation'')
      else Inr (c\<lparr>cc_status := (if vr_valid r then CcAwaitingConfirmation else CcDraft), cc_validation := Some r,
        cc_confirmation := None, cc_updated_at := now\<rparr>))"

definition cc_confirm :: "timestamp \<Rightarrow> agent_confirmation_evidence \<Rightarrow> 'j agent_command_candidate \<Rightarrow> agent_command_candidate_error + 'j agent_command_candidate" where
  "cc_confirm now e c =
     (if cc_status c \<noteq> CcAwaitingConfirmation then Inl (CcInvalidTransition (cc_status c) ''confirm'')
      else if \<not> (case cc_validation c of Some r \<Rightarrow> vr_valid r | None \<Rightarrow> False) then Inl CcValidationRequired
      else if \<not> is_human e then Inl CcHumanConfirmationRequired
      else if blank_note (ev_note e) then Inl CcReviewNoteRequired
      else if cc_risk c = RiskCritical \<and> distinct_approvers e < 2 then Inl TwoPersonConfirmationRequired
      else Inr (c\<lparr>cc_confirmation := Some e, cc_status := CcConfirmed, cc_updated_at := now\<rparr>))"

definition cc_reject :: "timestamp \<Rightarrow> timestamp \<Rightarrow> string \<Rightarrow> string \<Rightarrow> 'j agent_command_candidate \<Rightarrow> agent_command_candidate_error + 'j agent_command_candidate" where
  "cc_reject at now by note c =
     (if cc_status c \<in> {CcDispatching, CcDispatched, CcRejected, CcFailed} then Inl (CcInvalidTransition (cc_status c) ''reject'')
      else if trim by = [] \<or> starts_with by ''agent:'' \<or> starts_with by ''model:'' then Inl CcHumanConfirmationRequired
      else if trim note = [] then Inl CcReviewNoteRequired
      else Inr (c\<lparr>cc_status := CcRejected, cc_confirmation := None, cc_result := Some (RejectedBy by note at), cc_updated_at := now\<rparr>))"

definition cc_start_dispatch :: "timestamp \<Rightarrow> 'j agent_command_candidate \<Rightarrow> agent_command_candidate_error + 'j agent_command_candidate" where
  "cc_start_dispatch now c =
     (if cc_status c \<noteq> CcConfirmed then Inl (CcInvalidTransition (cc_status c) ''start_dispatch'')
      else Inr (c\<lparr>cc_status := CcDispatching, cc_updated_at := now\<rparr>))"

definition cc_finish_dispatch :: "timestamp \<Rightarrow> agent_command_candidate_status \<Rightarrow> 'j \<Rightarrow> 'j agent_command_candidate \<Rightarrow> agent_command_candidate_error + 'j agent_command_candidate" where
  "cc_finish_dispatch now st result c =
     (if cc_status c \<noteq> CcDispatching then Inl (CcInvalidTransition (cc_status c) ''finish_dispatch'')
      else Inr (c\<lparr>cc_status := st, cc_result := Some (ResultValue result), cc_updated_at := now\<rparr>))"

definition cc_mark_dispatched :: "timestamp \<Rightarrow> 'j \<Rightarrow> 'j agent_command_candidate \<Rightarrow> agent_command_candidate_error + 'j agent_command_candidate" where
  "cc_mark_dispatched now result c = cc_finish_dispatch now CcDispatched result c"

definition cc_mark_failed :: "timestamp \<Rightarrow> 'j \<Rightarrow> 'j agent_command_candidate \<Rightarrow> agent_command_candidate_error + 'j agent_command_candidate" where
  "cc_mark_failed now result c = cc_finish_dispatch now CcFailed result c"

section \<open>Governed state machines\<close>

datatype phase = Drafting | Awaiting | Ready | Running | Finished | Refused

definition phase_move :: "phase \<Rightarrow> phase \<Rightarrow> bool" where
  "phase_move a b = (case b of
       Drafting \<Rightarrow> a \<in> {Drafting, Awaiting, Ready}
     | Awaiting \<Rightarrow> a \<in> {Drafting, Awaiting, Ready}
     | Ready \<Rightarrow> a = Awaiting
     | Running \<Rightarrow> a = Ready
     | Finished \<Rightarrow> a = Running
     | Refused \<Rightarrow> a \<in> {Drafting, Awaiting, Ready})"

text \<open>The contract: drafts are validated, confirmed, executed once; \<open>approved\<close> is what a confirmation must
  establish and \<open>content\<close> is what is confirmed.\<close>

locale governed =
  fixes phase :: "'s \<Rightarrow> phase" and step :: "'s \<Rightarrow> 's \<Rightarrow> bool" and approved :: "'s \<Rightarrow> bool" and content :: "'s \<Rightarrow> 'c"
  assumes step_phase: "step s s' \<Longrightarrow> phase_move (phase s) (phase s')"
    and approval_given: "step s s' \<Longrightarrow> phase s' = Ready \<Longrightarrow> approved s'"
    and approval_kept: "step s s' \<Longrightarrow> phase s' \<in> {Running, Finished} \<Longrightarrow> approved s \<Longrightarrow> approved s'"
    and content_kept: "step s s' \<Longrightarrow> content s' = content s"
begin

lemma executed_approved:
  assumes "step\<^sup>*\<^sup>* s s'" "phase s = Drafting" "phase s' \<in> {Ready, Running, Finished}"
  shows "approved s'"
  using assms
proof (induction rule: rtranclp_induct)
  case (step u v)
  then show ?case using step_phase [OF step(2)] approval_given [OF step(2)] approval_kept [OF step(2)]
    by (auto simp: phase_move_def)
qed simp

lemma content_reached: "step\<^sup>*\<^sup>* s s' \<Longrightarrow> content s' = content s"
  by (induction rule: rtranclp_induct) (auto dest: content_kept)

lemma terminal: "phase s \<in> {Finished, Refused} \<Longrightarrow> \<not> step s s'"
  using step_phase [of s s'] by (cases "phase s'") (auto simp: phase_move_def)

lemma executed_once:
  assumes "step\<^sup>*\<^sup>* s s'" "phase s = Running"
  shows "s' = s \<or> step s s' \<and> phase s' = Finished"
  using assms
proof (induction rule: rtranclp_induct)
  case (step u v)
  then show ?case
  proof (cases "u = s")
    case True
    then show ?thesis using step step_phase [OF step(2)] by (cases "phase v") (auto simp: phase_move_def)
  next
    case False
    then show ?thesis using step terminal by auto
  qed
qed simp

lemma execution_path:
  assumes "step\<^sup>*\<^sup>* s s'" "phase s = Drafting" "phase s' = Running"
  shows "\<exists>u v. step\<^sup>*\<^sup>* s u \<and> phase u = Awaiting \<and> step u v \<and> phase v = Ready \<and> step v s'"
proof -
  obtain v where v: "step\<^sup>*\<^sup>* s v" "step v s'" using assms by (cases rule: rtranclp.cases) auto
  have r: "phase v = Ready" using step_phase [OF v(2)] assms(3) by (simp add: phase_move_def)
  obtain u where u: "step\<^sup>*\<^sup>* s u" "step u v" using v(1) assms(2) r by (cases rule: rtranclp.cases) auto
  have "phase u = Awaiting" using step_phase [OF u(2)] r by (simp add: phase_move_def)
  with u r v(2) show ?thesis by blast
qed

end

definition validated :: "agent_validation_report option \<Rightarrow> bool" where
  "validated v = (\<exists>r. v = Some r \<and> vr_valid r)"

inductive cs_step :: "'j agent_change_set \<Rightarrow> 'j agent_change_set \<Rightarrow> bool" where
  cs_validate: "cs_record_validation now r c = Inr c' \<Longrightarrow> cs_step c c'"
| cs_confirmed: "cs_confirm now e c = Inr c' \<Longrightarrow> cs_step c c'"
| cs_started: "cs_start_apply now c = Inr c' \<Longrightarrow> cs_step c c'"
| cs_rejected: "cs_reject at now by note c = Inr c' \<Longrightarrow> cs_step c c'"
| cs_applied: "cs_mark_applied now result c = Inr c' \<Longrightarrow> cs_step c c'"
| cs_failed: "cs_mark_failed now result c = Inr c' \<Longrightarrow> cs_step c c'"

definition cs_phase :: "'j agent_change_set \<Rightarrow> phase" where
  "cs_phase c = (case cs_status c of CsDraft \<Rightarrow> Drafting | CsAwaitingConfirmation \<Rightarrow> Awaiting | CsConfirmed \<Rightarrow> Ready
     | CsApplying \<Rightarrow> Running | CsApplied \<Rightarrow> Finished | CsFailed \<Rightarrow> Finished | CsRejected \<Rightarrow> Refused)"

definition cs_approved :: "'j agent_change_set \<Rightarrow> bool" where
  "cs_approved c = (validated (cs_validation c) \<and> (\<exists>e. cs_confirmation c = Some e \<and> is_human e \<and>
     (cs_risk c \<in> {RiskHigh, RiskCritical} \<longrightarrow> \<not> blank_note (ev_note e))))"

definition cs_content :: "'j agent_change_set \<Rightarrow> 'j agent_change_operation list \<times> agent_change_target \<times> string \<times> agent_risk_level" where
  "cs_content c = (cs_operations c, cs_target c, cs_base_revision c, cs_risk c)"

lemmas cs_defs = cs_record_validation_def cs_confirm_def cs_start_apply_def cs_reject_def cs_mark_applied_def cs_mark_failed_def
  cs_finish_apply_def

interpretation change_set: governed cs_phase cs_step cs_approved cs_content
proof
  fix c c' :: "'j agent_change_set"
  assume s: "cs_step c c'"
  show "phase_move (cs_phase c) (cs_phase c')"
    using s by cases (auto simp: cs_defs cs_phase_def phase_move_def split: if_splits agent_change_set_status.splits)
  show "cs_approved c'" if "cs_phase c' = Ready"
    using s that by cases (auto simp: cs_defs cs_phase_def cs_approved_def validated_def split: if_splits option.splits)
  show "cs_approved c'" if "cs_phase c' \<in> {Running, Finished}" "cs_approved c"
    using s that by cases (auto simp: cs_defs cs_phase_def cs_approved_def split: if_splits)
  show "cs_content c' = cs_content c"
    using s by cases (auto simp: cs_defs cs_content_def split: if_splits)
qed

inductive cc_step :: "'j agent_command_candidate \<Rightarrow> 'j agent_command_candidate \<Rightarrow> bool" where
  cc_validate: "cc_record_validation now r c = Inr c' \<Longrightarrow> cc_step c c'"
| cc_confirmed: "cc_confirm now e c = Inr c' \<Longrightarrow> cc_step c c'"
| cc_started: "cc_start_dispatch now c = Inr c' \<Longrightarrow> cc_step c c'"
| cc_rejected: "cc_reject at now by note c = Inr c' \<Longrightarrow> cc_step c c'"
| cc_dispatched: "cc_mark_dispatched now result c = Inr c' \<Longrightarrow> cc_step c c'"
| cc_failed: "cc_mark_failed now result c = Inr c' \<Longrightarrow> cc_step c c'"

definition cc_phase :: "'j agent_command_candidate \<Rightarrow> phase" where
  "cc_phase c = (case cc_status c of CcDraft \<Rightarrow> Drafting | CcAwaitingConfirmation \<Rightarrow> Awaiting | CcConfirmed \<Rightarrow> Ready
     | CcDispatching \<Rightarrow> Running | CcDispatched \<Rightarrow> Finished | CcFailed \<Rightarrow> Finished | CcRejected \<Rightarrow> Refused)"

definition cc_approved :: "'j agent_command_candidate \<Rightarrow> bool" where
  "cc_approved c = (validated (cc_validation c) \<and> (\<exists>e. cc_confirmation c = Some e \<and> is_human e \<and> \<not> blank_note (ev_note e) \<and>
     (cc_risk c = RiskCritical \<longrightarrow> 2 \<le> distinct_approvers e)))"

definition cc_content :: "'j agent_command_candidate \<Rightarrow> agent_command_target \<times> 'j \<times> string \<times> agent_risk_level" where
  "cc_content c = (cc_target c, cc_value c, cc_idempotency_key c, cc_risk c)"

lemmas cc_defs = cc_record_validation_def cc_confirm_def cc_start_dispatch_def cc_reject_def cc_mark_dispatched_def cc_mark_failed_def
  cc_finish_dispatch_def

interpretation candidate: governed cc_phase cc_step cc_approved cc_content
proof
  fix c c' :: "'j agent_command_candidate"
  assume s: "cc_step c c'"
  show "phase_move (cc_phase c) (cc_phase c')"
    using s by cases (auto simp: cc_defs cc_phase_def phase_move_def split: if_splits agent_command_candidate_status.splits)
  show "cc_approved c'" if "cc_phase c' = Ready"
    using s that by cases (auto simp: cc_defs cc_phase_def cc_approved_def validated_def split: if_splits option.splits)
  show "cc_approved c'" if "cc_phase c' \<in> {Running, Finished}" "cc_approved c"
    using s that by cases (auto simp: cc_defs cc_phase_def cc_approved_def split: if_splits)
  show "cc_content c' = cc_content c"
    using s by cases (auto simp: cc_defs cc_content_def split: if_splits)
qed

section \<open>The registry\<close>

definition registry_safe :: "('j \<Rightarrow> bool) \<Rightarrow> 'j agent_tool_registry \<Rightarrow> bool" where
  "registry_safe is_object reg = (\<forall>n d. reg n = Some d \<longrightarrow> td_name d = n \<and> descriptor_validate is_object d = Inr ())"

lemma register_safe: "registry_safe is_object reg \<Longrightarrow> register is_object reg d = Inr reg' \<Longrightarrow> registry_safe is_object reg'"
  by (auto simp: registry_safe_def register_def rbind_Inr split: if_splits)

lemma register_all_safe: "registry_safe is_object reg \<Longrightarrow> register_all is_object reg ds = Inr reg' \<Longrightarrow> registry_safe is_object reg'"
  by (induction ds arbitrary: reg) (auto simp: rbind_Inr dest: register_safe)

lemma allowed_mutation:
  assumes "registry_safe is_object reg" "reg name = Some d" "mutates_state (td_effect d)" "authorize reg name q = Inr Allowed"
  shows "aq_caller q = CallerControlPlane \<and> td_required_permissions d \<subseteq> aq_permissions q \<and>
    (\<exists>e. aq_confirmation q = Some e \<and> is_human e \<and> (td_confirmation d = TwoPerson \<longrightarrow> 2 \<le> distinct_approvers e))"
proof -
  have "descriptor_validate is_object d = Inr ()" using assms(1,2) by (simp add: registry_safe_def)
  then have "td_exposure d = ControlPlaneOnly" "td_confirmation d \<noteq> NoConfirmation"
    using assms(3) by (cases "td_exposure d"; auto simp: descriptor_validate_def split: if_splits)+
  then show ?thesis using assms(2,4) by (cases "aq_caller q") (auto simp: authorize_def split: if_splits option.splits)
qed

text \<open>
  C13. A tool that changes state is allowed only for the control plane, with every permission that it requires and with the
  confirmation of a human (of two distinct ones under the two-person policy): no registration and no request lets a model call it.\<close>

theorem mutating_tool_governed:
  assumes "register_all is_object Map.empty ds = Inr reg" "reg name = Some d" "mutates_state (td_effect d)"
    "authorize reg name q = Inr Allowed"
  shows "aq_caller q = CallerControlPlane \<and> td_required_permissions d \<subseteq> aq_permissions q \<and>
    (\<exists>e. aq_confirmation q = Some e \<and> is_human e \<and> (td_confirmation d = TwoPerson \<longrightarrow> 2 \<le> distinct_approvers e))"
  using allowed_mutation [OF register_all_safe [OF _ assms(1)] assms(2-)] by (simp add: registry_safe_def)

lemmas descriptor_defs = default_tool_descriptors_def register_def descriptor_validate_def mutates_state_def Let_def

definition example_dispatch_tool :: "nat agent_tool_descriptor" where
  "example_dispatch_tool = last (default_tool_descriptors 0)"

definition example_operator :: agent_confirmation_evidence where
  "example_operator = \<lparr>ev_confirmed_by = ''ada'', ev_co_approver = Some ''bob'', ev_note = Some ''ok'', ev_confirmed_at = 0\<rparr>"

lemma example_operator_human: "is_human example_operator"
  by (simp add: is_human_def example_operator_def human_name_def starts_with_def trim_plain)

theorem mutating_tool_governed_witness:
  "authorize [''device.command.dispatch'' \<mapsto> example_dispatch_tool] ''device.command.dispatch''
     \<lparr>aq_caller = CallerControlPlane, aq_permissions = {CommandDispatch}, aq_confirmation = Some example_operator\<rparr> = Inr Allowed \<and>
   (\<exists>e. Some example_operator = Some e \<and> is_human e)"
proof -
  have d: "td_name example_dispatch_tool = ''device.command.dispatch''" "td_effect example_dispatch_tool = DispatchDeviceCommand"
      "td_exposure example_dispatch_tool = ControlPlaneOnly" "td_confirmation example_dispatch_tool = PrivilegedReviewer"
      "td_required_permissions example_dispatch_tool = {CommandDispatch}"
    by (simp_all add: example_dispatch_tool_def descriptor_defs)
  let ?reg = "[''device.command.dispatch'' \<mapsto> example_dispatch_tool]"
  have r: "register_all (\<lambda>_. True) Map.empty [example_dispatch_tool] = Inr ?reg"
    using d by (simp add: register_def descriptor_validate_def trim_plain)
  have a: "authorize ?reg ''device.command.dispatch''
     \<lparr>aq_caller = CallerControlPlane, aq_permissions = {CommandDispatch}, aq_confirmation = Some example_operator\<rparr> = Inr Allowed"
    using d example_operator_human by (simp add: authorize_def)
  show ?thesis using mutating_tool_governed [OF r _ _ a] d a by (simp add: mutates_state_def)
qed

lemma register_all_distinct:
  assumes "distinct (map td_name ds)" "\<forall>d \<in> set ds. descriptor_validate is_object d = Inr () \<and> reg (td_name d) = None"
  shows "register_all is_object reg ds = Inr (\<lambda>n. case find (\<lambda>d. td_name d = n) ds of Some d \<Rightarrow> Some d | None \<Rightarrow> reg n)"
  using assms
proof (induction ds arbitrary: reg)
  case (Cons d ds)
  have r: "register is_object reg d = Inr (reg(td_name d \<mapsto> d))" using Cons.prems(2) by (simp add: register_def)
  have "register_all is_object (reg(td_name d \<mapsto> d)) ds =
      Inr (\<lambda>n. case find (\<lambda>d. td_name d = n) ds of Some d \<Rightarrow> Some d | None \<Rightarrow> (reg(td_name d \<mapsto> d)) n)"
    by (rule Cons.IH) (use Cons.prems in \<open>auto simp: image_iff dest: sym\<close>)
  moreover have "find (\<lambda>x. td_name x = td_name d) ds = None" using Cons.prems(1) by (auto simp: find_None_iff image_iff dest: sym)
  ultimately show ?case using r by (auto simp: fun_eq_iff split: option.splits)
qed simp

lemma default_names_distinct: "distinct (map td_name (default_tool_descriptors schema))"
  by (simp add: default_tool_descriptors_def Let_def)

lemma default_descriptors_valid:
  assumes "is_object schema" "d \<in> set (default_tool_descriptors schema)"
  shows "descriptor_validate is_object d = Inr ()"
proof -
  have "\<forall>d \<in> set (default_tool_descriptors schema). td_name d \<noteq> [] \<and> 32 < (of_char (hd (td_name d)) :: nat) \<and>
      (of_char (hd (td_name d)) :: nat) < 128 \<and> 32 < (of_char (last (td_name d)) :: nat) \<and> (of_char (last (td_name d)) :: nat) < 128 \<and>
      td_input_schema d = schema \<and> td_output_schema d = schema \<and>
      (mutates_state (td_effect d) \<longrightarrow> td_exposure d = ControlPlaneOnly \<and> td_confirmation d \<noteq> NoConfirmation)"
    by (simp add: default_tool_descriptors_def Let_def mutates_state_def)
  with assms show ?thesis using trim_plain [of "td_name d"] by (auto simp: descriptor_validate_def)
qed

lemma default_mutating:
  "{td_name d |d. d \<in> set (default_tool_descriptors schema) \<and> mutates_state (td_effect d)} =
    {''configuration.change_set.apply'', ''device.command.dispatch''}"
proof -
  have "map td_name (filter (\<lambda>d. mutates_state (td_effect d)) (default_tool_descriptors schema)) =
      [''configuration.change_set.apply'', ''device.command.dispatch'']"
    by (simp add: default_tool_descriptors_def Let_def mutates_state_def)
  then have "td_name ` set (filter (\<lambda>d. mutates_state (td_effect d)) (default_tool_descriptors schema)) =
      set [''configuration.change_set.apply'', ''device.command.dispatch'']"
    by (metis set_map)
  then show ?thesis by (simp add: setcompr_eq_image)
qed

lemma builtin_registry:
  assumes "is_object schema"
  shows "velaedge_v2 is_object schema = Some (\<lambda>n. find (\<lambda>d. td_name d = n) (default_tool_descriptors schema))"
proof -
  have "register_all is_object Map.empty (default_tool_descriptors schema) =
      Inr (\<lambda>n. case find (\<lambda>d. td_name d = n) (default_tool_descriptors schema) of Some d \<Rightarrow> Some d | None \<Rightarrow> Map.empty n)"
    by (rule register_all_distinct [OF default_names_distinct])
      (use default_descriptors_valid [of is_object schema] assms in simp)
  moreover have "(\<lambda>n. case find (\<lambda>d. td_name d = n) (default_tool_descriptors schema) of Some d \<Rightarrow> Some d | None \<Rightarrow> Map.empty n) =
      (\<lambda>n. find (\<lambda>d. td_name d = n) (default_tool_descriptors schema))"
    by (auto simp: fun_eq_iff split: option.splits)
  ultimately show ?thesis by (simp add: velaedge_v2_def)
qed

lemma find_named:
  assumes "distinct (map td_name ds)"
  shows "find (\<lambda>d. td_name d = n) ds = Some d \<longleftrightarrow> d \<in> set ds \<and> td_name d = n"
  using assms by (induction ds) auto

text \<open>
  The built-in registry is built without panic, and exactly two of its tools change state, applying a change set and
  dispatching a device command.\<close>

theorem builtin_registry_builds:
  assumes "is_object schema"
  shows "\<exists>reg. velaedge_v2 is_object schema = Some reg \<and>
    {n. \<exists>d. reg n = Some d \<and> mutates_state (td_effect d)} = {''configuration.change_set.apply'', ''device.command.dispatch''}"
proof (intro exI conjI)
  show "velaedge_v2 is_object schema = Some (\<lambda>n. find (\<lambda>d. td_name d = n) (default_tool_descriptors schema))"
    by (rule builtin_registry [of is_object schema, OF assms])
  show "{n. \<exists>d. find (\<lambda>d. td_name d = n) (default_tool_descriptors schema) = Some d \<and> mutates_state (td_effect d)} =
      {''configuration.change_set.apply'', ''device.command.dispatch''}"
    unfolding default_mutating [of schema, symmetric] find_named [OF default_names_distinct] by blast
qed

theorem builtin_registry_builds_witness:
  "\<exists>reg. velaedge_v2 (\<lambda>n. n = 0) (0 :: nat) = Some reg"
  using builtin_registry_builds [of "\<lambda>n. n = 0" "0 :: nat"] by blast

section \<open>What is executed was confirmed\<close>

lemma check_shapes_Inr: "check_shapes os = Inr () \<longleftrightarrow> (\<forall>o1 \<in> set os. validate_shape o1 = Inr ())"
  by (induction os) (auto simp: rbind_Inr)

lemma change_set_new_Inr:
  assumes "change_set_new uid now title rationale target revision ops risk by = Inr c"
  shows "cs_phase c = Drafting" "cs_content c = (ops, target, revision, risk)" "ops \<noteq> []" "\<forall>o1 \<in> set ops. validate_shape o1 = Inr ()"
  using assms by (auto simp: change_set_new_def rbind_Inr check_shapes_Inr cs_phase_def cs_content_def split: if_splits)

lemma command_candidate_new_Inr:
  assumes "command_candidate_new uid now title rationale target v key risk by = Inr c"
  shows "cc_phase c = Drafting" "cc_content c = (target, v, key, risk)"
  using assms by (auto simp: command_candidate_new_def rbind_Inr cc_phase_def cc_content_def split: if_splits)

text \<open>
  C12. Whatever operations are called on a change set and in whatever order, when it is confirmed, being applied, applied or failed
  then its last validation passed, a human confirmed it (with a note when the risk is high or critical), and its
  operations, target, base revision and risk are the ones that it was created with; there is at least one operation and each has the
  shape of its kind.\<close>

theorem change_set_applied_governed:
  assumes "change_set_new uid now title rationale target revision ops risk by = Inr c0" "cs_step\<^sup>*\<^sup>* c0 c"
    "cs_status c \<in> {CsConfirmed, CsApplying, CsApplied, CsFailed}"
  shows "cs_approved c \<and> cs_content c = (ops, target, revision, risk) \<and> ops \<noteq> [] \<and> (\<forall>o1 \<in> set ops. validate_shape o1 = Inr ())"
proof -
  note n = change_set_new_Inr [OF assms(1)]
  have "cs_phase c \<in> {Ready, Running, Finished}" using assms(3) by (auto simp: cs_phase_def)
  from change_set.executed_approved [OF assms(2) n(1) this] change_set.content_reached [OF assms(2)] n show ?thesis by simp
qed

definition example_target :: agent_change_target where
  "example_target = \<lparr>tg_project_id = ''p'', tg_product_id = None, tg_product_version = None, tg_edge_ids = {}\<rparr>"

definition example_operation :: "nat agent_change_operation" where
  "example_operation = operation_new ''op'' OpCreate ResProject ''p'' None (Some 1)"

definition example_report :: agent_validation_report where
  "example_report = report_of_issues 1 [] \<lparr>im_affected_resources = 1, im_affected_edges = {}, im_requires_runtime_sync = False,
     im_command_path_changed = False, im_notes = []\<rparr>"

lemma example_operator_note: "\<not> blank_note (ev_note example_operator)"
  by (simp add: blank_note_def example_operator_def trim_plain)

theorem change_set_applied_governed_witness:
  "\<exists>c. cs_status c = CsApplying \<and> cs_approved (c :: nat agent_change_set)"
proof -
  have "trim ''p'' = ''p''" by (simp add: trim_plain)
  then obtain c0 where c0: "change_set_new ''id'' 0 ''t'' ''r'' example_target ''rev'' [example_operation] RiskHigh ''ada'' = Inr c0"
      "cs_status c0 = CsDraft" "cs_risk c0 = RiskHigh"
    by (simp add: change_set_new_def validate_shape_def example_operation_def operation_new_def Let_def)
  obtain c1 where c1: "cs_record_validation 1 example_report c0 = Inr c1" "cs_status c1 = CsAwaitingConfirmation"
      "cs_validation c1 = Some example_report" "cs_risk c1 = RiskHigh"
    using c0 by (simp add: cs_record_validation_def example_report_def report_of_issues_def)
  obtain c2 where c2: "cs_confirm 2 example_operator c1 = Inr c2" "cs_status c2 = CsConfirmed"
    using c1 example_operator_human example_operator_note by (simp add: cs_confirm_def example_report_def report_of_issues_def)
  obtain c3 where c3: "cs_start_apply 3 c2 = Inr c3" "cs_status c3 = CsApplying" using c2 by (simp add: cs_start_apply_def)
  have "cs_step\<^sup>*\<^sup>* c0 c3"
    using cs_validate [OF c1(1)] cs_confirmed [OF c2(1)] cs_started [OF c3(1)] by (meson rtranclp.rtrancl_refl rtranclp.rtrancl_into_rtrancl)
  from change_set_applied_governed [OF c0(1) this] c3(2) show ?thesis by auto
qed

text \<open>
  C11. A command candidate that is confirmed, being dispatched, dispatched or failed had a passing validation and the confirmation
  of a human with a note, by two distinct humans when its risk is critical; its target, value, idempotency key and risk are the ones
  that it was created with. A candidate is dispatched at most once: while it is being dispatched, the only operation that still succeeds
  finishes it, and none succeeds after that.\<close>

theorem command_dispatch_governed:
  assumes "command_candidate_new uid now title rationale target v key risk by = Inr c0" "cc_step\<^sup>*\<^sup>* c0 c"
    "cc_status c \<in> {CcConfirmed, CcDispatching, CcDispatched, CcFailed}"
  shows "cc_approved c \<and> cc_content c = (target, v, key, risk) \<and>
    (cc_status c = CcDispatching \<longrightarrow> (\<forall>c'. cc_step\<^sup>*\<^sup>* c c' \<longrightarrow> c' = c \<or> cc_status c' \<in> {CcDispatched, CcFailed} \<and> (\<forall>c''. \<not> cc_step c' c'')))"
proof -
  note n = command_candidate_new_Inr [OF assms(1)]
  have ph: "cc_phase c \<in> {Ready, Running, Finished}" using assms(3) by (auto simp: cc_phase_def)
  have once: "c' = c \<or> cc_status c' \<in> {CcDispatched, CcFailed} \<and> (\<forall>c''. \<not> cc_step c' c'')"
    if "cc_status c = CcDispatching" "cc_step\<^sup>*\<^sup>* c c'" for c'
  proof -
    have "c' = c \<or> cc_phase c' = Finished" using candidate.executed_once [OF that(2)] that(1) by (auto simp: cc_phase_def)
    then show ?thesis using candidate.terminal [of c'] by (auto simp: cc_phase_def split: agent_command_candidate_status.splits)
  qed
  from candidate.executed_approved [OF assms(2) n(1) ph] candidate.content_reached [OF assms(2)] n(2) once show ?thesis by simp
qed

definition example_command_target :: agent_command_target where
  "example_command_target = \<lparr>ct_project_id = ''p'', ct_edge_id = ''e'', ct_product_id = None, ct_product_version = None, ct_flow_id = ''f'',
     ct_protocol_connection_id = ''c'', ct_target_device_id = ''d'', ct_point_id = ''x''\<rparr>"

lemma example_operator_two: "distinct_approvers example_operator = 2"
  using example_operator_human
  by (simp add: distinct_approvers_def example_operator_def human_name_def starts_with_def trim_plain)

theorem command_dispatch_governed_witness:
  "\<exists>c. cc_status c = CcDispatching \<and> cc_approved (c :: nat agent_command_candidate)"
proof -
  have "target_validate example_command_target = Inr ()"
    by (simp add: target_validate_def example_command_target_def trim_plain)
  moreover have "trim ''k'' = ''k''" by (simp add: trim_plain)
  ultimately obtain c0 where c0: "command_candidate_new ''id'' 0 ''t'' ''r'' example_command_target (1 :: nat) ''k'' RiskCritical ''ada'' = Inr c0"
      "cc_status c0 = CcDraft" "cc_risk c0 = RiskCritical"
    by (simp add: command_candidate_new_def)
  obtain c1 where c1: "cc_record_validation 1 example_report c0 = Inr c1" "cc_status c1 = CcAwaitingConfirmation"
      "cc_validation c1 = Some example_report" "cc_risk c1 = RiskCritical"
    using c0 by (simp add: cc_record_validation_def example_report_def report_of_issues_def)
  obtain c2 where c2: "cc_confirm 2 example_operator c1 = Inr c2" "cc_status c2 = CcConfirmed"
    using c1 example_operator_human example_operator_note example_operator_two
    by (simp add: cc_confirm_def example_report_def report_of_issues_def)
  obtain c3 where c3: "cc_start_dispatch 3 c2 = Inr c3" "cc_status c3 = CcDispatching" using c2 by (simp add: cc_start_dispatch_def)
  have "cc_step\<^sup>*\<^sup>* c0 c3"
    using cc_validate [OF c1(1)] cc_confirmed [OF c2(1)] cc_started [OF c3(1)] by (meson rtranclp.rtrancl_refl rtranclp.rtrancl_into_rtrancl)
  from command_dispatch_governed [OF c0(1) this] c3(2) show ?thesis by auto
qed

text \<open>
  The two tests of who is human differ. A rejection tests the name as it is given and a confirmation tests the trimmed
  name, so a name of an agent with a space in front may reject a draft although it may not confirm one.\<close>

theorem padded_agent_rejects:
  assumes "cs_status c = CsDraft" "trim note \<noteq> []" "ev_confirmed_by e = '' agent:bot''"
  shows "(\<exists>c'. cs_reject at now '' agent:bot'' note c = Inr c' \<and> cs_status c' = CsRejected) \<and> \<not> is_human e"
proof -
  have "trim '' agent:bot'' = ''agent:bot''"
    by (simp add: trim_def trim_start.simps trim_end.simps ws_suffix_len_def ws_len_def Let_def)
  then show ?thesis using assms by (simp add: cs_reject_def is_human_def human_name_def starts_with_def)
qed

theorem padded_agent_rejects_witness:
  "\<exists>c :: nat agent_change_set. cs_status c = CsRejected"
proof -
  have "trim ''p'' = ''p''" by (simp add: trim_plain)
  then obtain c0 where c0: "change_set_new ''id'' 0 ''t'' ''r'' example_target ''rev'' [example_operation] RiskHigh ''ada'' = Inr c0"
      "cs_status c0 = CsDraft"
    by (simp add: change_set_new_def validate_shape_def example_operation_def operation_new_def Let_def)
  have "trim ''no'' \<noteq> []" by (simp add: trim_plain)
  from padded_agent_rejects [OF c0(2) this, of "example_operator\<lparr>ev_confirmed_by := '' agent:bot''\<rparr>" 0 0] show ?thesis by auto
qed


end
