(* ===== verification/Release.thy ===== *)
theory Release
  imports Package
begin

text \<open>
  The release of configuration packages by the control plane: the validator
  (crates/cloud-control/src/validation.rs), which collects every error, the releases
  (crates/cloud-control/src/release.rs) and the part of the in-memory store that they and the removal of an edge
  node touch (crates/cloud-control/src/store.rs). The JSON decoder of browse paths, identifiers and
  clock readings are arguments. The lemmas relate the validator to the checks of the edge
  runtime in \<open>Package\<close>.
\<close>

section \<open>OPC UA browse paths\<close>

record opc_ua_browse_element =
  be_namespace_index :: u16
  be_target_name :: string

record opc_ua_browse_path =
  bp_starting_node :: string
  bp_elements :: "opc_ua_browse_element list"

definition check_browse_element :: "nat \<times> opc_ua_browse_element \<Rightarrow> string + unit" where
  "check_browse_element ie = (let name = trim (be_target_name (snd ie)) in
     if name = [] then Inl (''OPC UA BrowsePath element '' @ show_nat (fst ie + 1) @ '' target name is required'')
     else if length name > 256
     then Inl (''OPC UA BrowsePath element '' @ show_nat (fst ie + 1) @ '' target name exceeds 256 bytes'')
     else Inr ())"

definition parse_opc_ua_browse_path :: "(string \<Rightarrow> string + opc_ua_browse_path) \<Rightarrow> string \<Rightarrow> string + opc_ua_browse_path" where
  "parse_opc_ua_browse_path from_json v =
     rbind (map_err (\<lambda>e. ''OPC UA BrowsePath JSON is invalid: '' @ e) (from_json v)) (\<lambda>path.
     rbind (map_err (\<lambda>e. ''OPC UA BrowsePath starting node is invalid: '' @ e) (validate_opc_ua_node_id (bp_starting_node path))) (\<lambda>_.
     if bp_elements path = [] then Inl ''OPC UA BrowsePath requires at least one target element''
     else if length (bp_elements path) > 32 then Inl ''OPC UA BrowsePath cannot exceed 32 elements''
     else rbind (check_all check_browse_element (enumerate 0 (bp_elements path))) (\<lambda>_. Inr path)))"

section \<open>The validator\<close>

text \<open>The errors of a fallible check with a prefix, and of a test.\<close>

definition errors_of :: "(string \<Rightarrow> string) \<Rightarrow> string + 'a \<Rightarrow> string list" where
  "errors_of f r = (case r of Inl e \<Rightarrow> [f e] | Inr _ \<Rightarrow> [])"

definition error_if :: "bool \<Rightarrow> string \<Rightarrow> string list" where
  "error_if b e = (if b then [e] else [])"

definition quoted :: "string \<Rightarrow> string" where
  "quoted s = ''`'' @ s @ ''`''"

definition blank_option :: "string option \<Rightarrow> bool" where
  "blank_option v = (case v of Some s \<Rightarrow> trim s = [] | None \<Rightarrow> False)"

definition mqtt_broker_uses_tls :: "string \<Rightarrow> bool" where
  "mqtt_broker_uses_tls broker =
     (map_option (\<lambda>(scheme, _). to_ascii_lowercase scheme) (split_once_str ''://'' broker) \<in> {Some ''mqtts'', Some ''ssl''})"

definition connection_errors :: "protocol_connection \<Rightarrow> string list" where
  "connection_errors c = errors_of (\<lambda>e. ''protocol connection '' @ quoted (pc_connection_id c) @ '': '' @ e) (connection_validate c)"

definition uplink_errors :: "mqtt_uplink \<Rightarrow> string list" where
  "uplink_errors u = (let sink = ''mqtt sink '' @ quoted (mu_sink_id u) in
     error_if ((mu_username u \<noteq> None) \<noteq> (mu_password_env u \<noteq> None))
       (sink @ '' username and password environment reference must be configured together'') @
     error_if (blank_option (mu_username u) \<or> blank_option (mu_password_env u)) (sink @ '' credential references must not be empty'') @
     error_if (blank_option (mu_tls_ca_path u)) (sink @ '' TLS CA path must not be empty'') @
     error_if (mu_tls_ca_path u \<noteq> None \<and> \<not> mqtt_broker_uses_tls (mu_broker u)) (sink @ '' TLS CA path requires an mqtts:// broker''))"

definition opc_ua_address_check :: "(string \<Rightarrow> string + opc_ua_browse_path) \<Rightarrow> point_address \<Rightarrow> string + unit" where
  "opc_ua_address_check from_json a =
     (if pa_kind a = ''node_id'' then validate_opc_ua_node_id (pa_value a)
      else if pa_kind a = ''browse_path'' then rbind (parse_opc_ua_browse_path from_json (pa_value a)) (\<lambda>_. Inr ())
      else Inl ''OPC UA address kind must be `node_id` or `browse_path`'')"

definition mapping_address_errors :: "(string \<Rightarrow> string + opc_ua_browse_path) \<Rightarrow> protocol_type \<Rightarrow> telemetry_point_mapping \<Rightarrow> string list" where
  "mapping_address_errors from_json p m = (
     let point = ''point '' @ quoted (pm_point_id m); failed = (\<lambda>e. point @ '': '' @ e) in
     (if p = OpcUa then errors_of failed (opc_ua_address_check from_json (pm_address m)) else []) @
     (if p = Iec104
      then (if pa_kind (pm_address m) \<noteq> ''iec104_ioa'' then [point @ '' IEC 104 address kind must be `iec104_ioa`'']
            else errors_of failed (parse_iec104_point_address (pa_value (pm_address m))))
      else []) @
     (if p = BacnetIp then errors_of failed (validate_bacnet_point (pm_address m) (pm_value_type m) (pm_access m) (pm_bacnet m)) else []) @
     (if p = SiemensS7 then errors_of failed (validate_siemens_s7_point (pm_address m) (pm_value_type m) (pm_access m)) else []) @
     (if p = OmronFins then errors_of failed (validate_omron_fins_point (pm_address m) (pm_value_type m) (pm_access m)) else []))"

definition mapping_errors :: "(string \<Rightarrow> string + opc_ua_browse_path) \<Rightarrow> 'j edge_config_package \<Rightarrow> telemetry_point_mapping \<Rightarrow> string list" where
  "mapping_errors from_json p m = (let point = ''point '' @ quoted (pm_point_id m) in
     errors_of (\<lambda>e. point @ '': '' @ e) (validate_modbus_point_options (pm_address m) (pm_value_type m) (pm_access m)) @
     (case connection_by_id (ep_protocol_connections p) (pm_protocol_connection_id m) of
        Some c \<Rightarrow> mapping_address_errors from_json (pc_protocol c) m
      | None \<Rightarrow> [point @ '' references missing protocol connection '' @ quoted (pm_protocol_connection_id m)]) @
     error_if (pm_device_id m \<notin> set (map di_device_id (ep_devices p))) (point @ '' references missing device '' @ quoted (pm_device_id m)))"

definition task_point_errors :: "telemetry_point_mapping list \<Rightarrow> collection_task \<Rightarrow> string \<Rightarrow> string list" where
  "task_point_errors ms t i = (let task = ''collection task '' @ quoted (ct_task_id t) in
     case mapping_by_id ms i of
       None \<Rightarrow> [task @ '' references missing point '' @ quoted i]
     | Some m \<Rightarrow>
         error_if (pm_device_id m \<noteq> ct_device_id t)
           (task @ '' point '' @ quoted i @ '' belongs to device '' @ quoted (pm_device_id m) @ '', expected '' @ quoted (ct_device_id t)) @
         error_if (\<not> is_readable (pm_access m)) (task @ '' references write-only point '' @ quoted i))"

definition task_errors :: "'j edge_config_package \<Rightarrow> collection_task \<Rightarrow> string list" where
  "task_errors p t = (let task = ''collection task '' @ quoted (ct_task_id t) in
     error_if (trim (ct_task_id t) = []) ''collection task id is required'' @
     (if trim (ct_device_id t) = [] then [task @ '' device id is required'']
      else error_if (ct_device_id t \<notin> set (map di_device_id (ep_devices p))) (task @ '' references missing device '' @ quoted (ct_device_id t))) @
     error_if (ct_interval_ms t = 0) (task @ '' interval must be greater than zero'') @
     error_if (ct_point_ids t = []) (task @ '' must contain at least one point'') @
     concat (map (task_point_errors (ep_point_mappings p) t) (ct_point_ids t)))"

definition data_point_errors :: "telemetry_point_mapping list \<Rightarrow> 'j data_config \<Rightarrow> data_config_point \<Rightarrow> string list" where
  "data_point_errors ms c d = (let config = ''data config '' @ quoted (cf_config_id c) in
     if trim (dp_point_id d) = [] then [config @ '' contains point with empty id'']
     else case mapping_by_id ms (dp_point_id d) of
       None \<Rightarrow> [config @ '' references missing point '' @ quoted (dp_point_id d)]
     | Some m \<Rightarrow>
         error_if (pm_device_id m \<noteq> cf_device_id c)
           (config @ '' point '' @ quoted (dp_point_id d) @ '' belongs to device '' @ quoted (pm_device_id m) @ '', expected '' @ quoted (cf_device_id c)) @
         error_if (pm_protocol_connection_id m \<noteq> cf_protocol_connection_id c)
           (config @ '' point '' @ quoted (dp_point_id d) @ '' uses protocol connection '' @ quoted (pm_protocol_connection_id m)
             @ '', expected '' @ quoted (cf_protocol_connection_id c)) @
         error_if (\<not> is_readable (pm_access m)) (config @ '' references write-only point '' @ quoted (dp_point_id d)))"

fun data_points_errors :: "telemetry_point_mapping list \<Rightarrow> 'j data_config \<Rightarrow> data_config_point list \<Rightarrow> string list \<Rightarrow> string list" where
  "data_points_errors ms c [] seen = []"
| "data_points_errors ms c (d # ds) seen = data_point_errors ms c d @
     (if trim (dp_json_field d) = []
      then (''data config '' @ quoted (cf_config_id c) @ '' point '' @ quoted (dp_point_id d) @ '' json field is required'')
             # data_points_errors ms c ds seen
      else if dp_json_field d \<in> set seen
      then (''data config '' @ quoted (cf_config_id c) @ '' has duplicate json field '' @ quoted (dp_json_field d))
             # data_points_errors ms c ds seen
      else data_points_errors ms c ds (dp_json_field d # seen))"

definition data_config_errors :: "'j edge_config_package \<Rightarrow> 'j data_config \<Rightarrow> string list" where
  "data_config_errors p c = (let config = ''data config '' @ quoted (cf_config_id c) in
     error_if (trim (cf_config_id c) = []) ''data config id is required'' @
     (if trim (cf_device_id c) = [] then [config @ '' device id is required'']
      else error_if (cf_device_id c \<notin> set (map di_device_id (ep_devices p))) (config @ '' references missing device '' @ quoted (cf_device_id c))) @
     (if trim (cf_protocol_connection_id c) = [] then [config @ '' protocol connection is required'']
      else error_if (cf_protocol_connection_id c \<notin> set (map pc_connection_id (ep_protocol_connections p)))
        (config @ '' references missing protocol connection '' @ quoted (cf_protocol_connection_id c))) @
     error_if (pb_sink_id (cf_publish c) \<notin> set (map mu_sink_id (ep_mqtt_uplinks p)))
       (config @ '' references missing mqtt sink '' @ quoted (pb_sink_id (cf_publish c))) @
     error_if (dc_period_ms (cf_collection c) = 0) (config @ '' collection period must be greater than zero'') @
     error_if (dc_timeout_ms (cf_collection c) = 0 \<or> dc_timeout_ms (cf_collection c) > 300000)
       (config @ '' collection timeout must be between 1 and 300000 ms'') @
     error_if (dc_retry_count (cf_collection c) > 10) (config @ '' collection retry count must not exceed 10'') @
     error_if (cf_points c = []) (config @ '' must contain at least one point'') @
     data_points_errors (ep_point_mappings p) c (cf_points c) [] @
     concat (map (\<lambda>a. error_if (a \<notin> set (map as_id (ep_algorithms p))) (config @ '' references missing algorithm '' @ quoted a)) (cf_algorithm_ids c)))"

definition flow_errors :: "'j json_ops \<Rightarrow> 'j edge_config_package \<Rightarrow> 'j command_flow \<Rightarrow> string list" where
  "flow_errors js p f = (let flow = ''command flow '' @ quoted (fl_flow_id f) in
     error_if (fl_protocol_connection_id f \<noteq> [] \<and> fl_protocol_connection_id f \<notin> set (map pc_connection_id (ep_protocol_connections p)))
       (flow @ '' references missing protocol connection '' @ quoted (fl_protocol_connection_id f)) @
     error_if (fl_mqtt_connection_id f \<notin> set (map mu_sink_id (ep_mqtt_uplinks p)))
       (flow @ '' references missing MQTT connection '' @ quoted (fl_mqtt_connection_id f)) @
     errors_of (\<lambda>e. e) (validate_command_flow js f (ep_point_mappings p)))"

definition package_errors :: "'j json_ops \<Rightarrow> (string \<Rightarrow> string + opc_ua_browse_path) \<Rightarrow> 'j edge_config_package \<Rightarrow> string list" where
  "package_errors js from_json p =
     concat (map connection_errors (ep_protocol_connections p)) @
     concat (map uplink_errors (ep_mqtt_uplinks p)) @
     concat (map (mapping_errors from_json p) (ep_point_mappings p)) @
     concat (map (task_errors p) (ep_collection_tasks p)) @
     concat (map (data_config_errors p) (ep_data_configs p)) @
     concat (map (flow_errors js p) (ep_command_flows p))"

text \<open>The only check that may panic is the one of Siemens S7 addresses; then the validator does not return.\<close>

definition mapping_panics :: "'j edge_config_package \<Rightarrow> telemetry_point_mapping \<Rightarrow> bool" where
  "mapping_panics p m = (case connection_by_id (ep_protocol_connections p) (pm_protocol_connection_id m) of
     Some c \<Rightarrow> pc_protocol c = SiemensS7 \<and> validate_siemens_s7_point (pm_address m) (pm_value_type m) (pm_access m) = Inl ''panic''
   | None \<Rightarrow> False)"

definition validate_package :: "'j json_ops \<Rightarrow> (string \<Rightarrow> string + opc_ua_browse_path) \<Rightarrow> 'j edge_config_package \<Rightarrow> string list option" where
  "validate_package js from_json p =
     (if list_ex (mapping_panics p) (ep_point_mappings p) then None else Some (package_errors js from_json p))"

section \<open>Releases\<close>

datatype release_status = Pending | Applied | Failed | Superseded

record release_record =
  rl_release_id :: string
  rl_edge_id :: string
  rl_desired_version :: string
  rl_reported_version :: "string option"
  rl_status :: release_status

datatype audit_action =
    CreateRelease | ApplyRelease | UpdateConfig | CreateAgentProposal | ApproveAgentProposal | RejectAgentProposal
  | CreateKnowledgeDocument | UpdateKnowledgeDocument | DeleteKnowledgeDocument | CreateAgentConversation
  | DeleteAgentConversation | InvokeAgentTool | CreateAgentChangeSet | ValidateAgentChangeSet | ConfirmAgentChangeSet
  | RejectAgentChangeSet | ApplyAgentChangeSet | FailAgentChangeSet | CreateAgentCommandCandidate
  | ValidateAgentCommandCandidate | ConfirmAgentCommandCandidate | RejectAgentCommandCandidate
  | DispatchAgentCommandCandidate | FailAgentCommandCandidate

record audit_record =
  au_audit_id :: string
  au_action :: audit_action
  au_target :: string
  au_actor :: string
  au_created_at :: timestamp

definition audit_system :: "string \<Rightarrow> timestamp \<Rightarrow> audit_action \<Rightarrow> string \<Rightarrow> audit_record" where
  "audit_system uid now action target = \<lparr>au_audit_id = uid, au_action = action, au_target = target, au_actor = ''system'', au_created_at = now\<rparr>"

definition prepare_release :: "'j json_ops \<Rightarrow> (string \<Rightarrow> string + opc_ua_browse_path) \<Rightarrow> string \<Rightarrow> 'j edge_config_package \<Rightarrow> (string list + release_record) option" where
  "prepare_release js from_json uid p = map_option (\<lambda>errors. if errors \<noteq> [] then Inl errors
     else Inr \<lparr>rl_release_id = uid, rl_edge_id = ep_edge_id p, rl_desired_version = ep_version p, rl_reported_version = None,
       rl_status = Pending\<rparr>) (validate_package js from_json p)"

record edge_access_credential =
  ec_credential_id :: string
  ec_edge_id :: string
  ec_token_hash :: string
  ec_active :: bool
  ec_created_at :: timestamp

text \<open>The fields of the store that concern an edge node; nodes, metrics, events, uplinks and discovery reports are of
  any type, an event with its edge id. The ordered maps of the program are maps: the operations below do not depend on the order, or the
  order is an argument.\<close>

record ('j, 'n, 'm, 'e, 'd) control_store =
  st_edge_nodes :: "string \<rightharpoonup> 'n"
  st_edge_credentials :: "string \<rightharpoonup> edge_access_credential"
  st_config_packages :: "string \<times> string \<rightharpoonup> 'j edge_config_package"
  st_releases :: "string \<rightharpoonup> release_record"
  st_audit_records :: "audit_record list"
  st_runtime_metrics :: "string \<rightharpoonup> 'm"
  st_runtime_events :: "(string \<times> 'e) list"
  st_mqtt_uplinks :: "string \<rightharpoonup> mqtt_uplink"
  st_discovery_reports :: "string \<rightharpoonup> 'd list"

definition retain :: "('k \<Rightarrow> 'v \<Rightarrow> bool) \<Rightarrow> ('k \<rightharpoonup> 'v) \<Rightarrow> ('k \<rightharpoonup> 'v)" where
  "retain P m = (\<lambda>k. case m k of Some v \<Rightarrow> if P k v then Some v else None | None \<Rightarrow> None)"

definition remove_edge_node :: "string \<Rightarrow> ('j, 'n, 'm, 'e, 'd) control_store \<Rightarrow> 'n option \<times> ('j, 'n, 'm, 'e, 'd) control_store" where
  "remove_edge_node edge s = (case st_edge_nodes s edge of
       None \<Rightarrow> (None, s)
     | Some n \<Rightarrow> (Some n, s
         \<lparr>st_edge_nodes := (st_edge_nodes s)(edge := None),
          st_config_packages := retain (\<lambda>(e, v) _. e \<noteq> edge) (st_config_packages s),
          st_releases := retain (\<lambda>_ r. rl_edge_id r \<noteq> edge) (st_releases s),
          st_runtime_metrics := (st_runtime_metrics s)(edge := None),
          st_runtime_events := filter (\<lambda>(e, x). e \<noteq> edge) (st_runtime_events s),
          st_mqtt_uplinks := (st_mqtt_uplinks s)(edge := None),
          st_discovery_reports := (st_discovery_reports s)(edge := None),
          st_edge_credentials := retain (\<lambda>_ c. ec_edge_id c \<noteq> edge) (st_edge_credentials s)\<rparr>))"

definition upsert_edge_credential :: "edge_access_credential \<Rightarrow> ('j, 'n, 'm, 'e, 'd) control_store \<Rightarrow> ('j, 'n, 'm, 'e, 'd) control_store" where
  "upsert_edge_credential c s = s\<lparr>st_edge_credentials := (st_edge_credentials s)(ec_credential_id c \<mapsto> c)\<rparr>"

definition replace_edge_credential :: "edge_access_credential \<Rightarrow> ('j, 'n, 'm, 'e, 'd) control_store \<Rightarrow> ('j, 'n, 'm, 'e, 'd) control_store" where
  "replace_edge_credential c s = upsert_edge_credential c (s\<lparr>st_edge_credentials := (\<lambda>k. map_option (\<lambda>x.
     if ec_edge_id x = ec_edge_id c then x\<lparr>ec_active := False\<rparr> else x) (st_edge_credentials s k))\<rparr>)"

definition upsert_config_package :: "'j edge_config_package \<Rightarrow> ('j, 'n, 'm, 'e, 'd) control_store \<Rightarrow> ('j, 'n, 'm, 'e, 'd) control_store" where
  "upsert_config_package p s = s\<lparr>st_config_packages := (st_config_packages s)((ep_edge_id p, ep_version p) \<mapsto> p)\<rparr>"

definition insert_release :: "release_record \<Rightarrow> ('j, 'n, 'm, 'e, 'd) control_store \<Rightarrow> ('j, 'n, 'm, 'e, 'd) control_store" where
  "insert_release r s = s\<lparr>st_releases := (st_releases s)(rl_release_id r \<mapsto> r)\<rparr>"

definition push_audit :: "string \<Rightarrow> timestamp \<Rightarrow> audit_action \<Rightarrow> string \<Rightarrow> ('j, 'n, 'm, 'e, 'd) control_store \<Rightarrow> ('j, 'n, 'm, 'e, 'd) control_store" where
  "push_audit uid now action target s = s\<lparr>st_audit_records := st_audit_records s @ [audit_system uid now action target]\<rparr>"

definition create_release ::
  "'j json_ops \<Rightarrow> (string \<Rightarrow> string + opc_ua_browse_path) \<Rightarrow> string \<Rightarrow> string \<Rightarrow> timestamp \<Rightarrow> 'j edge_config_package \<Rightarrow> ('j, 'n, 'm, 'e, 'd) control_store \<Rightarrow>
   ((string list + release_record) \<times> ('j, 'n, 'm, 'e, 'd) control_store) option" where
  "create_release js from_json uid audit_id now p s = map_option (\<lambda>res. case res of
       Inl errors \<Rightarrow> (Inl errors, s)
     | Inr r \<Rightarrow> (Inr r, push_audit audit_id now CreateRelease (rl_release_id r) (insert_release r (upsert_config_package p s))))
     (prepare_release js from_json uid p)"

definition mark_reported :: "string \<Rightarrow> timestamp \<Rightarrow> string \<Rightarrow> string \<Rightarrow> ('j, 'n, 'm, 'e, 'd) control_store \<Rightarrow> release_record option \<times> ('j, 'n, 'm, 'e, 'd) control_store" where
  "mark_reported audit_id now rid version s = (case st_releases s rid of
       None \<Rightarrow> (None, s)
     | Some r \<Rightarrow> (let r' = r\<lparr>rl_reported_version := Some version,
           rl_status := (if rl_desired_version r = version then Applied else Failed)\<rparr> in
         (Some r', push_audit audit_id now ApplyRelease rid (s\<lparr>st_releases := (st_releases s)(rid \<mapsto> r')\<rparr>))))"

text \<open>\<open>Ord\<close> on texts compares their bytes; \<open>max_by\<close> returns the last of several maxima. The packages are listed in the
  order of their keys.\<close>

fun text_le :: "string \<Rightarrow> string \<Rightarrow> bool" where
  "text_le [] t = True"
| "text_le (c # s) [] = False"
| "text_le (c # s) (d # t) = ((of_char c :: nat) < of_char d \<or> c = d \<and> text_le s t)"

definition latest_config_package_for_edge :: "string \<Rightarrow> 'j edge_config_package list \<Rightarrow> 'j edge_config_package option" where
  "latest_config_package_for_edge edge ps = foldl (\<lambda>acc p. case acc of
       None \<Rightarrow> Some p | Some q \<Rightarrow> if text_le (ep_version q) (ep_version p) then Some p else Some q) None
     (filter (\<lambda>p. ep_edge_id p = edge) ps)"

section \<open>What the validator accepts\<close>

lemma errors_of_Nil [simp]: "errors_of f r = [] \<longleftrightarrow> (\<exists>x. r = Inr x)"
  by (cases r) (simp_all add: errors_of_def)

lemma error_if_Nil [simp]: "error_if b e = [] \<longleftrightarrow> \<not> b"
  by (simp add: error_if_def)

definition release_uplink_ok :: "mqtt_uplink \<Rightarrow> bool" where
  "release_uplink_ok u = ((mu_username u = None) = (mu_password_env u = None) \<and> \<not> blank_option (mu_username u) \<and>
     \<not> blank_option (mu_password_env u) \<and> \<not> blank_option (mu_tls_ca_path u) \<and>
     (mu_tls_ca_path u \<noteq> None \<longrightarrow> mqtt_broker_uses_tls (mu_broker u)))"

definition release_address_ok :: "(string \<Rightarrow> string + opc_ua_browse_path) \<Rightarrow> protocol_type \<Rightarrow> telemetry_point_mapping \<Rightarrow> bool" where
  "release_address_ok from_json p m = (case p of
       OpcUa \<Rightarrow> opc_ua_address_check from_json (pm_address m) = Inr ()
     | Iec104 \<Rightarrow> pa_kind (pm_address m) = ''iec104_ioa'' \<and> (\<exists>a. parse_iec104_point_address (pa_value (pm_address m)) = Inr a)
     | BacnetIp \<Rightarrow> (\<exists>a. validate_bacnet_point (pm_address m) (pm_value_type m) (pm_access m) (pm_bacnet m) = Inr a)
     | SiemensS7 \<Rightarrow> (\<exists>a. validate_siemens_s7_point (pm_address m) (pm_value_type m) (pm_access m) = Inr a)
     | OmronFins \<Rightarrow> (\<exists>a. validate_omron_fins_point (pm_address m) (pm_value_type m) (pm_access m) = Inr a)
     | _ \<Rightarrow> True)"

definition release_mapping_ok :: "(string \<Rightarrow> string + opc_ua_browse_path) \<Rightarrow> 'j edge_config_package \<Rightarrow> telemetry_point_mapping \<Rightarrow> bool" where
  "release_mapping_ok from_json p m = (validate_modbus_point_options (pm_address m) (pm_value_type m) (pm_access m) = Inr () \<and>
     pm_device_id m \<in> di_device_id ` set (ep_devices p) \<and>
     (\<exists>c. connection_by_id (ep_protocol_connections p) (pm_protocol_connection_id m) = Some c \<and> release_address_ok from_json (pc_protocol c) m))"

definition release_task_ok :: "'j edge_config_package \<Rightarrow> collection_task \<Rightarrow> bool" where
  "release_task_ok p t = (trim (ct_device_id t) \<noteq> [] \<and> task_ok p t)"

definition release_data_config_ok :: "'j edge_config_package \<Rightarrow> 'j data_config \<Rightarrow> bool" where
  "release_data_config_ok p c = (trim (cf_config_id c) \<noteq> [] \<and> cf_points c \<noteq> [] \<and> dc_period_ms (cf_collection c) \<noteq> 0 \<and>
     dc_timeout_ms (cf_collection c) \<noteq> 0 \<and> dc_timeout_ms (cf_collection c) \<le> 300000 \<and> dc_retry_count (cf_collection c) \<le> 10 \<and>
     trim (cf_device_id c) \<noteq> [] \<and> cf_device_id c \<in> di_device_id ` set (ep_devices p) \<and>
     trim (cf_protocol_connection_id c) \<noteq> [] \<and> cf_protocol_connection_id c \<in> pc_connection_id ` set (ep_protocol_connections p) \<and>
     pb_sink_id (cf_publish c) \<in> mu_sink_id ` set (ep_mqtt_uplinks p) \<and>
     (\<forall>d \<in> set (cf_points c). trim (dp_point_id d) \<noteq> [] \<and> trim (dp_json_field d) \<noteq> [] \<and>
        (\<exists>m. mapping_by_id (ep_point_mappings p) (dp_point_id d) = Some m \<and>
        pm_device_id m = cf_device_id c \<and> pm_protocol_connection_id m = cf_protocol_connection_id c \<and> is_readable (pm_access m))) \<and>
     distinct (map dp_json_field (cf_points c)) \<and> set (cf_algorithm_ids c) \<subseteq> as_id ` set (ep_algorithms p))"

definition release_ok :: "'j json_ops \<Rightarrow> (string \<Rightarrow> string + opc_ua_browse_path) \<Rightarrow> 'j edge_config_package \<Rightarrow> bool" where
  "release_ok js from_json p = ((\<forall>c \<in> set (ep_protocol_connections p). connection_validate c = Inr ()) \<and>
     (\<forall>u \<in> set (ep_mqtt_uplinks p). release_uplink_ok u) \<and>
     (\<forall>m \<in> set (ep_point_mappings p). release_mapping_ok from_json p m) \<and>
     (\<forall>t \<in> set (ep_collection_tasks p). release_task_ok p t) \<and>
     (\<forall>c \<in> set (ep_data_configs p). release_data_config_ok p c) \<and>
     (\<forall>f \<in> set (ep_command_flows p). flow_refs_ok js p f))"

lemma connection_errors_Nil: "connection_errors c = [] \<longleftrightarrow> connection_validate c = Inr ()"
  by (simp add: connection_errors_def)

lemma uplink_errors_Nil: "uplink_errors u = [] \<longleftrightarrow> release_uplink_ok u"
  by (auto simp: uplink_errors_def release_uplink_ok_def Let_def)

lemma mapping_address_errors_Nil: "mapping_address_errors from_json p m = [] \<longleftrightarrow> release_address_ok from_json p m"
  by (cases p) (auto simp: mapping_address_errors_def release_address_ok_def Let_def)

lemma mapping_errors_Nil: "mapping_errors from_json p m = [] \<longleftrightarrow> release_mapping_ok from_json p m"
  by (auto simp: mapping_errors_def release_mapping_ok_def mapping_address_errors_Nil Let_def split: option.splits)

lemma task_errors_Nil: "task_errors p t = [] \<longleftrightarrow> release_task_ok p t"
proof -
  have points: "task_point_errors ms t i = [] \<longleftrightarrow>
      (\<exists>m. mapping_by_id ms i = Some m \<and> pm_device_id m = ct_device_id t \<and> is_readable (pm_access m))" for ms i
    by (auto simp: task_point_errors_def Let_def split: option.splits)
  show ?thesis by (auto simp: task_errors_def release_task_ok_def task_ok_def points Let_def)
qed

lemma data_points_errors_Nil:
  "data_points_errors ms c ds seen = [] \<longleftrightarrow>
     (\<forall>d \<in> set ds. trim (dp_point_id d) \<noteq> [] \<and> trim (dp_json_field d) \<noteq> [] \<and> (\<exists>m. mapping_by_id ms (dp_point_id d) = Some m \<and>
        pm_device_id m = cf_device_id c \<and> pm_protocol_connection_id m = cf_protocol_connection_id c \<and> is_readable (pm_access m))) \<and>
     distinct (map dp_json_field ds) \<and> set (map dp_json_field ds) \<inter> set seen = {}"
proof (induction ds arbitrary: seen)
  case (Cons d ds)
  have "data_point_errors ms c d = [] \<longleftrightarrow> trim (dp_point_id d) \<noteq> [] \<and> (\<exists>m. mapping_by_id ms (dp_point_id d) = Some m \<and>
        pm_device_id m = cf_device_id c \<and> pm_protocol_connection_id m = cf_protocol_connection_id c \<and> is_readable (pm_access m))"
    by (auto simp: data_point_errors_def Let_def split: option.splits)
  with Cons.IH show ?case by auto
qed simp

lemma data_config_errors_Nil: "data_config_errors p c = [] \<longleftrightarrow> release_data_config_ok p c"
  by (auto simp: data_config_errors_def release_data_config_ok_def data_points_errors_Nil Let_def not_less)

lemma flow_errors_Nil: "flow_errors js p f = [] \<longleftrightarrow> flow_refs_ok js p f"
  by (auto simp: flow_errors_def flow_refs_ok_def Let_def validate_command_flow_iff [symmetric])

lemma concat_map_Nil: "concat (map f xs) = [] \<longleftrightarrow> (\<forall>x \<in> set xs. f x = [])"
  by auto

lemma package_errors_Nil: "package_errors js from_json p = [] \<longleftrightarrow> release_ok js from_json p"
  unfolding package_errors_def append_is_Nil_conv concat_map_Nil connection_errors_Nil uplink_errors_Nil mapping_errors_Nil
    task_errors_Nil data_config_errors_Nil flow_errors_Nil release_ok_def ..

lemma mapping_panics_errors: "mapping_panics p m \<Longrightarrow> mapping_errors from_json p m \<noteq> []"
  unfolding mapping_errors_Nil by (auto simp: mapping_panics_def release_mapping_ok_def release_address_ok_def split: option.splits)

lemma validate_package_Nil: "validate_package js from_json p = Some [] \<longleftrightarrow> release_ok js from_json p"
proof -
  have "\<not> list_ex (mapping_panics p) (ep_point_mappings p)" if "release_ok js from_json p"
    using that mapping_panics_errors [of p _ from_json] by (auto simp: release_ok_def list_ex_iff mapping_errors_Nil)
  then show ?thesis by (auto simp: validate_package_def package_errors_Nil)
qed

section \<open>Released packages on the edge\<close>

text \<open>What the edge checks and the control plane does not.\<close>

definition edge_address_ok :: "protocol_type \<Rightarrow> telemetry_point_mapping \<Rightarrow> bool" where
  "edge_address_ok p m = (case p of
       Iec101 \<Rightarrow> (\<exists>a. validate_iec101_point (pm_address m) (pm_value_type m) (pm_access m) (pm_iec101 m) = Inr a)
     | Iec104 \<Rightarrow> validate_iec104_point (pm_address m) (pm_value_type m) (pm_access m) (pm_iec104 m) = Inr ()
     | _ \<Rightarrow> True)"

definition edge_only_ok :: "'j edge_config_package \<Rightarrow> bool" where
  "edge_only_ok p = (trim (ep_edge_id p) \<noteq> [] \<and> trim (ep_version p) \<noteq> [] \<and>
     (\<forall>m \<in> set (ep_point_mappings p). validate_point_read_transforms (pm_read_transforms m) (pm_value_type m) = Inr () \<and>
        (\<forall>c. connection_by_id (ep_protocol_connections p) (pm_protocol_connection_id m) = Some c \<longrightarrow> edge_address_ok (pc_protocol c) m)) \<and>
     (\<forall>c \<in> set (ep_data_configs p). validate_data_config_visual_graph c = Inr ()))"

lemma released_address:
  assumes "release_address_ok from_json p m"
  shows "check_mapping_address p m = Inr () \<longleftrightarrow> edge_address_ok p m"
  using assms by (cases p) (auto simp: check_mapping_address_def release_address_ok_def edge_address_ok_def result_simps)

lemma released_mapping:
  assumes "release_mapping_ok from_json p m"
  shows "mapping_ok (ep_protocol_connections p) m \<longleftrightarrow> validate_point_read_transforms (pm_read_transforms m) (pm_value_type m) = Inr () \<and>
    (\<forall>c. connection_by_id (ep_protocol_connections p) (pm_protocol_connection_id m) = Some c \<longrightarrow> edge_address_ok (pc_protocol c) m)"
proof -
  from assms obtain c where c: "connection_by_id (ep_protocol_connections p) (pm_protocol_connection_id m) = Some c"
      "release_address_ok from_json (pc_protocol c) m" by (auto simp: release_mapping_ok_def)
  have "validate_point_access (pm_address m) (pm_access m) = Inr ()"
    using assms by (auto simp: release_mapping_ok_def validate_modbus_point_options_def rbind_Inr)
  with c released_address [OF c(2)] show ?thesis by (auto simp: mapping_ok_def)
qed

lemma released_data_config: "release_data_config_ok p c \<Longrightarrow> data_config_ok p c \<longleftrightarrow> validate_data_config_visual_graph c = Inr ()"
  by (auto simp: release_data_config_ok_def data_config_ok_def)

lemma released_package_ok: "release_ok js from_json p \<Longrightarrow> package_ok js p \<longleftrightarrow> edge_only_ok p"
  using released_mapping [of from_json p] released_data_config [of p]
  by (auto simp: release_ok_def package_ok_def edge_only_ok_def release_task_ok_def)

text \<open>
  C21. The control plane accepts a package for release exactly when it is well formed in the sense of the validator, and then
  the release is pending and asks for the version of the package.\<close>

theorem prepare_release_correct:
  "prepare_release js from_json uid p = Some (Inr r) \<longleftrightarrow> release_ok js from_json p \<and>
     r = \<lparr>rl_release_id = uid, rl_edge_id = ep_edge_id p, rl_desired_version = ep_version p, rl_reported_version = None, rl_status = Pending\<rparr>"
  unfolding validate_package_Nil [of js from_json p, symmetric]
  by (cases "validate_package js from_json p") (auto simp: prepare_release_def)

lemma prepared_release_ok: "prepare_release js from_json uid p = Some (Inr r) \<Longrightarrow> release_ok js from_json p"
  unfolding validate_package_Nil [of js from_json p, symmetric]
  by (cases "validate_package js from_json p") (auto simp: prepare_release_def split: if_splits)

text \<open>
  C9. The edge accepts a released package exactly when the package passes the checks that only the edge makes: a
  name and a version, the read transforms, the IEC 101 addresses, the IEC 104 control types and the visual graphs. Every other check of the edge is implied
  by the release.\<close>

theorem released_package_applied:
  assumes "prepare_release js from_json uid p = Some (Inr r)"
  shows "apply_config js p = Inr a \<longleftrightarrow> edge_only_ok p \<and> a = own_client_ids p"
  using released_package_ok [OF prepared_release_ok [OF assms]] by (auto simp: apply_config_iff)

lemma example_release_ok: "release_ok js from_json example_package"
proof -
  have ok: "package_ok js example_package" by (rule example_package_ok)
  have "release_mapping_ok from_json example_package example_mapping"
    by (simp add: release_mapping_ok_def example_package_def package_new_def example_mapping_def mapping_new_def
        validate_modbus_point_options_def validate_point_access_def connection_by_id_def connection_simulated_def release_address_ok_def)
  moreover have "release_data_config_ok example_package example_data_config"
    by (simp add: release_data_config_ok_def example_data_config_def data_config_new_def data_config_collection_new_def
      data_config_publish_new_def example_package_def package_new_def mqtt_uplink_velamq_def connection_simulated_def
      trim_plain mapping_by_id_def example_mapping_def mapping_new_def is_readable_def)
  moreover have "release_uplink_ok (mqtt_uplink_velamq ''broker'' ''mqtt://b'' ''edge'')"
    by (simp add: release_uplink_ok_def mqtt_uplink_velamq_def blank_option_def)
  moreover have "ep_collection_tasks example_package = []" by (simp add: example_package_def package_new_def)
  ultimately show ?thesis using ok by (auto simp: release_ok_def package_ok_def) (auto simp: example_package_def)
qed

lemma example_prepared: "\<exists>r. prepare_release js from_json uid example_package = Some (Inr r) \<and> rl_release_id r = uid"
  using example_release_ok [of js from_json] by (simp add: prepare_release_def validate_package_Nil [symmetric])

theorem released_package_applied_witness:
  "\<exists>r. prepare_release example_json (\<lambda>_. Inl '''') ''id'' example_package = Some (Inr r) \<and> edge_only_ok example_package"
proof -
  obtain r where r: "prepare_release example_json (\<lambda>_. Inl '''') ''id'' example_package = Some (Inr r)"
    using example_prepared by blast
  from released_package_applied [OF r, of example_package] example_package_applies [of example_json] r show ?thesis by auto
qed

section \<open>Invariants of the store\<close>

inductive store_step :: "'j json_ops \<Rightarrow> (string \<Rightarrow> string + opc_ua_browse_path) \<Rightarrow> ('j, 'n, 'm, 'e, 'd) control_store \<Rightarrow> ('j, 'n, 'm, 'e, 'd) control_store \<Rightarrow> bool"
  for js from_json where
  step_create: "create_release js from_json uid audit_id now p s = Some (res, s') \<Longrightarrow> store_step js from_json s s'"
| step_report: "mark_reported audit_id now rid version s = (res', s') \<Longrightarrow> store_step js from_json s s'"
| step_remove: "remove_edge_node edge s = (res'', s') \<Longrightarrow> store_step js from_json s s'"
| step_credential: "store_step js from_json s (replace_edge_credential c s)"

definition release_backed :: "'j json_ops \<Rightarrow> (string \<Rightarrow> string + opc_ua_browse_path) \<Rightarrow> ('j, 'n, 'm, 'e, 'd) control_store \<Rightarrow> release_record \<Rightarrow> bool" where
  "release_backed js from_json s r = ((\<exists>p. st_config_packages s (rl_edge_id r, rl_desired_version r) = Some p \<and> release_ok js from_json p) \<and>
     (rl_status r = Applied \<longrightarrow> rl_reported_version r = Some (rl_desired_version r)))"

definition store_inv :: "'j json_ops \<Rightarrow> (string \<Rightarrow> string + opc_ua_browse_path) \<Rightarrow> ('j, 'n, 'm, 'e, 'd) control_store \<Rightarrow> bool" where
  "store_inv js from_json s = ((\<forall>k r. st_releases s k = Some r \<longrightarrow> release_backed js from_json s r) \<and>
     (\<forall>e v p. st_config_packages s (e, v) = Some p \<longrightarrow> ep_edge_id p = e \<and> ep_version p = v) \<and>
     (\<forall>k l c d. st_edge_credentials s k = Some c \<and> st_edge_credentials s l = Some d \<and> ec_active c \<and> ec_active d \<and> ec_edge_id c = ec_edge_id d
        \<longrightarrow> k = l))"

lemma retain_Some [simp]: "retain P m k = Some v \<longleftrightarrow> m k = Some v \<and> P k v"
  by (auto simp: retain_def split: option.splits)

lemma create_release_inv:
  assumes inv: "store_inv js from_json s" and c: "create_release js from_json uid audit_id now p s = Some (res, s')"
  shows "store_inv js from_json s'"
proof (cases "prepare_release js from_json uid p")
  case None
  with c show ?thesis by (simp add: create_release_def)
next
  case (Some q)
  show ?thesis
  proof (cases q)
    case (Inl es)
    with c Some have "s' = s" by (simp add: create_release_def)
    with inv show ?thesis by simp
  next
    case (Inr r)
    with c Some have s': "s' = push_audit audit_id now CreateRelease (rl_release_id r) (insert_release r (upsert_config_package p s))"
      by (simp add: create_release_def)
    have r: "prepare_release js from_json uid p = Some (Inr r)" using Some Inr by simp
    have ok: "release_ok js from_json p" by (rule prepared_release_ok [OF r])
    have "r = \<lparr>rl_release_id = uid, rl_edge_id = ep_edge_id p, rl_desired_version = ep_version p, rl_reported_version = None, rl_status = Pending\<rparr>"
      using r by (auto simp: prepare_release_def split: if_splits)
    with inv ok show ?thesis unfolding s' store_inv_def release_backed_def
      by (auto simp: push_audit_def insert_release_def upsert_config_package_def)
  qed
qed

lemma mark_reported_inv: "store_inv js from_json s \<Longrightarrow> mark_reported audit_id now rid version s = (res, s') \<Longrightarrow> store_inv js from_json s'"
  by (auto simp: mark_reported_def store_inv_def release_backed_def push_audit_def Let_def split: option.splits if_splits)

lemma remove_edge_node_inv: "store_inv js from_json s \<Longrightarrow> remove_edge_node edge s = (res, s') \<Longrightarrow> store_inv js from_json s'"
  by (auto simp: remove_edge_node_def store_inv_def release_backed_def split: option.splits)

lemma replaced_credential:
  assumes "st_edge_credentials (replace_edge_credential c s) k = Some d" "ec_active d"
  shows "k = ec_credential_id c \<and> d = c \<or>
    st_edge_credentials s k = Some d \<and> ec_edge_id d \<noteq> ec_edge_id c"
proof (cases "k = ec_credential_id c")
  case True
  then show ?thesis using assms by (simp add: replace_edge_credential_def upsert_edge_credential_def)
next
  case False
  then obtain x where "st_edge_credentials s k = Some x" "d = (if ec_edge_id x = ec_edge_id c then x\<lparr>ec_active := False\<rparr> else x)"
    using assms(1) by (auto simp: replace_edge_credential_def upsert_edge_credential_def)
  with assms(2) show ?thesis by (simp split: if_splits)
qed

lemma replace_credential_inv:
  assumes "store_inv js from_json s"
  shows "store_inv js from_json (replace_edge_credential c s)"
proof -
  let ?s = "replace_edge_credential c s"
  have same: "st_releases ?s = st_releases s" "st_config_packages ?s = st_config_packages s"
    by (simp_all add: replace_edge_credential_def upsert_edge_credential_def)
  have "k = l" if "st_edge_credentials ?s k = Some x" "st_edge_credentials ?s l = Some y" "ec_active x" "ec_active y" "ec_edge_id x = ec_edge_id y" for k l x y
  proof -
    have "k = ec_credential_id c \<and> x = c \<or> st_edge_credentials s k = Some x \<and> ec_edge_id x \<noteq> ec_edge_id c"
      "l = ec_credential_id c \<and> y = c \<or> st_edge_credentials s l = Some y \<and> ec_edge_id y \<noteq> ec_edge_id c"
      using replaced_credential that by blast+
    moreover have "\<lbrakk>st_edge_credentials s k = Some x; st_edge_credentials s l = Some y\<rbrakk> \<Longrightarrow> k = l"
      using assms that(3-5) by (simp add: store_inv_def)
    ultimately show ?thesis using that(5) by auto
  qed
  with assms show ?thesis unfolding store_inv_def release_backed_def same by blast
qed

lemma store_step_inv: "store_step js from_json s s' \<Longrightarrow> store_inv js from_json s \<Longrightarrow> store_inv js from_json s'"
  by (cases rule: store_step.cases) (auto intro: create_release_inv mark_reported_inv remove_edge_node_inv replace_credential_inv)

definition empty_store :: "('j, 'n, 'm, 'e, 'd) control_store" where
  "empty_store = \<lparr>st_edge_nodes = Map.empty, st_edge_credentials = Map.empty, st_config_packages = Map.empty, st_releases = Map.empty,
     st_audit_records = [], st_runtime_metrics = Map.empty, st_runtime_events = [], st_mqtt_uplinks = Map.empty, st_discovery_reports = Map.empty\<rparr>"



text \<open>Removing an edge node leaves nothing of the edge behind.\<close>

lemma remove_edge_node_complete:
  assumes "remove_edge_node edge s = (Some n, s')"
  shows "st_edge_nodes s' edge = None" "st_config_packages s' (edge, v) = None" "st_releases s' k = Some r \<Longrightarrow> rl_edge_id r \<noteq> edge"
    "st_edge_credentials s' k = Some c \<Longrightarrow> ec_edge_id c \<noteq> edge" "st_mqtt_uplinks s' edge = None"
  using assms by (auto simp: remove_edge_node_def retain_def split: option.splits if_splits)

text \<open>The latest package is the one with the greatest version as a text, which for numbered versions need not be the newest.\<close>

lemma latest_config_package_textual:
  "latest_config_package_for_edge ''e'' [package_new ''e'' ''v1.10.0'', package_new ''e'' ''v1.9.0''] = Some (package_new ''e'' ''v1.9.0'')"
  by (simp add: latest_config_package_for_edge_def package_new_def)

end
