(* ===== verification/Siemens_S7.thy ===== *)
theory Siemens_S7
  imports Plc_Points Modbus_Codec Serial_Bus
begin

text \<open>
  The Siemens S7 adapter (crates/edge-runtime/src/siemens_s7.rs): the connection that is kept and opened again after a
  failure, the multi-variable read, the write with its read-modify-write of single bits, and the
  big-endian codec. The S7 client is a library: its operations are the record \<open>s7_ops\<close>, over handles \<open>'k\<close>,
  network addresses \<open>'a\<close> and a state \<open>'w\<close> of the world. The clock readings are an argument. What the theorems rely on is
  \<open>s7_memory_client\<close>: a read that succeeds returns the bytes of the controller's memory, and a write that
  succeeds stores its bytes and nothing else.
\<close>

section \<open>Big-endian numbers\<close>

definition from_be_bytes :: "u8 list \<Rightarrow> 'a::len word" where
  "from_be_bytes bs = foldl (\<lambda>acc b. push_bit 8 acc OR ucast b) 0 bs"

lemma from_be_bytes_word:
  "from_be_bytes (be_bytes a) = a" "from_be_bytes (be_bytes b) = b" "from_be_bytes (be_bytes c) = c" for a :: u8 and b :: u16 and c :: u32
proof -
  show "from_be_bytes (be_bytes a) = a" by (simp add: from_be_bytes_def be_bytes_def)
  have "push_bit 8 (ucast (ucast (drop_bit 8 b) :: u8)) OR ucast (ucast b :: u8) = b"
    by (rule bit_word_eqI) (auto simp: bit_simps)
  then show "from_be_bytes (be_bytes b) = b" by (simp add: from_be_bytes_def be_bytes_def upt_rec)
  have "push_bit 8 (push_bit 8 (push_bit 8 (ucast (ucast (drop_bit 24 c) :: u8)) OR ucast (ucast (drop_bit 16 c) :: u8)) OR
      ucast (ucast (drop_bit 8 c) :: u8)) OR ucast (ucast c :: u8) = c"
    (is "?l = c")
  proof (rule bit_word_eqI)
    fix n
    assume "n < LENGTH(32)"
    then consider "n < 8" | "8 \<le> n" "n < 16" | "16 \<le> n" "n < 24" | "24 \<le> n" "n < 32" by fastforce
    then show "bit ?l n = bit c n" by cases (auto simp: bit_simps)
  qed
  then show "from_be_bytes (be_bytes c) = c" by (simp add: from_be_bytes_def be_bytes_def upt_rec)
qed

lemma be_bytes_length [simp]: "length (be_bytes (w :: 'a::len word)) = LENGTH('a) div 8"
  by (simp add: be_bytes_def)

section \<open>The codec\<close>

definition s7_decode_value :: "telemetry_point_mapping \<Rightarrow> s7_point_address \<Rightarrow> u8 list \<Rightarrow> string + telemetry_value" where
  "s7_decode_value m a bytes = (
     let expected = unat (s7_byte_width (s7_data_type a)) in
     if length bytes < expected
     then Inl (''Siemens S7 point '' @ pm_point_id m @ '' expected '' @ show_nat expected @ '' bytes but received '' @ show_nat (length bytes))
     else (case s7_data_type a of
         S7Bit \<Rightarrow> (case s7_bit_offset a of
             Some b \<Rightarrow> if b < 8 then Inr (Boolean (bytes ! 0 AND push_bit (unat b) 1 \<noteq> 0)) else Inl ''panic''
           | None \<Rightarrow> Inl ''panic'')
       | S7Byte \<Rightarrow> Inr (Integer (ucast (bytes ! 0)))
       | S7Word \<Rightarrow> Inr (Integer (ucast (from_be_bytes (take 2 bytes) :: u16)))
       | S7Int \<Rightarrow> Inr (Integer (scast (from_be_bytes (take 2 bytes) :: u16)))
       | S7DWord \<Rightarrow> Inr (if pm_value_type m = TyFloat then Float (f64_of_f32 (from_be_bytes (take 4 bytes)))
           else Integer (ucast (from_be_bytes (take 4 bytes) :: u32)))
       | S7DInt \<Rightarrow> Inr (Integer (scast (from_be_bytes (take 4 bytes) :: u32)))
       | S7Real \<Rightarrow> Inr (Float (f64_of_f32 (from_be_bytes (take 4 bytes))))))"

definition s7_integer_bytes :: "int \<Rightarrow> int \<Rightarrow> string \<Rightarrow> (int \<Rightarrow> u8 list) \<Rightarrow> i64 \<Rightarrow> string + u8 list" where
  "s7_integer_bytes lo hi err f v = (if lo \<le> sint v \<and> sint v \<le> hi then Inr (f (sint v)) else Inl err)"

definition f32_max :: f32 where
  "f32_max = 0x7F7FFFFF"

definition s7_encode_value :: "s7_data_type \<Rightarrow> telemetry_value \<Rightarrow> string + u8 list" where
  "s7_encode_value t v = (case (t, v) of
       (S7Byte, Integer i) \<Rightarrow> s7_integer_bytes 0 255 ''Siemens S7 BYTE value is outside 0..255'' (\<lambda>n. be_bytes (word_of_int n :: u8)) i
     | (S7Word, Integer i) \<Rightarrow> s7_integer_bytes 0 65535 ''Siemens S7 WORD value is outside 0..65535'' (\<lambda>n. be_bytes (word_of_int n :: u16)) i
     | (S7Int, Integer i) \<Rightarrow>
         s7_integer_bytes (- 32768) 32767 ''Siemens S7 INT value is outside -32768..32767'' (\<lambda>n. be_bytes (word_of_int n :: u16)) i
     | (S7DWord, Integer i) \<Rightarrow>
         s7_integer_bytes 0 4294967295 ''Siemens S7 DWORD value is outside 0..4294967295'' (\<lambda>n. be_bytes (word_of_int n :: u32)) i
     | (S7DInt, Integer i) \<Rightarrow> s7_integer_bytes (- 2147483648) 2147483647
         ''Siemens S7 DINT value is outside the signed 32-bit range'' (\<lambda>n. be_bytes (word_of_int n :: u32)) i
     | (S7Bit, _) \<Rightarrow> Inl ''panic''
     | (_, Float x) \<Rightarrow>
         if t \<notin> {S7DWord, S7Real} then Inl ''telemetry value is incompatible with Siemens S7 data type''
         else if \<not> f64_is_finite x \<or> f64_lt (f64_of_f32 f32_max) x \<or> f64_lt x (f64_neg (f64_of_f32 f32_max))
         then Inl ''Siemens S7 REAL value must be finite and fit in 32 bits''
         else Inr (be_bytes (f32_of_f64 x))
     | _ \<Rightarrow> Inl ''telemetry value is incompatible with Siemens S7 data type'')"

section \<open>The adapter\<close>

record s7_read_item =
  ri_area :: s7_area
  ri_db_number :: u16
  ri_start :: u32
  ri_length :: u16

record ('k, 'a, 'w) s7_ops =
  so_lookup :: "string \<Rightarrow> u16 \<Rightarrow> 'w \<Rightarrow> (string + 'a list) \<times> 'w"
  so_show_address :: "'a \<Rightarrow> string"
  so_connect :: "'a \<Rightarrow> siemens_settings \<Rightarrow> 'w \<Rightarrow> (string + 'k) \<times> 'w"
  so_is_connected :: "'k \<Rightarrow> 'w \<Rightarrow> bool"
  so_read_multi :: "'k \<Rightarrow> s7_read_item list \<Rightarrow> 'w \<Rightarrow> (string + u8 list list) \<times> 'w"
  so_read_area :: "'k \<Rightarrow> s7_area \<Rightarrow> u16 \<Rightarrow> u32 \<Rightarrow> u16 \<Rightarrow> 'w \<Rightarrow> (string + u8 list) \<times> 'w"
  so_write_area :: "'k \<Rightarrow> s7_area \<Rightarrow> u16 \<Rightarrow> u32 \<Rightarrow> u8 list \<Rightarrow> 'w \<Rightarrow> (string + unit) \<times> 'w"

record 'k s7_adapter =
  sx_connection :: protocol_connection
  sx_mappings :: "telemetry_point_mapping list"
  sx_client :: "'k option"
  sx_generation :: u64

type_synonym ('x, 'k, 'w) s7_op = "('x, 'k s7_adapter \<times> 'w) bus_op"

text \<open>The address of a point; an error gets a context, a panic does not.\<close>

definition s7_address :: "telemetry_point_mapping \<Rightarrow> string + s7_point_address" where
  "s7_address m = map_err (\<lambda>e. if e = ''panic'' then e else ''invalid Siemens S7 point '' @ pm_point_id m)
     (validate_siemens_s7_point (pm_address m) (pm_value_type m) (pm_access m))"

definition s7_check_mapping :: "protocol_connection \<Rightarrow> telemetry_point_mapping \<Rightarrow> string + unit" where
  "s7_check_mapping c m =
     (if pm_protocol_connection_id m \<noteq> pc_connection_id c
      then Inl (''Siemens S7 point '' @ pm_point_id m @ '' references connection '' @ pm_protocol_connection_id m @ '' instead of '' @ pc_connection_id c)
      else rbind (s7_address m) (\<lambda>_. Inr ()))"

definition s7_validate_mappings :: "protocol_connection \<Rightarrow> telemetry_point_mapping list \<Rightarrow> string + unit" where
  "s7_validate_mappings c ms = rbind (collect (s7_check_mapping c) ms) (\<lambda>_. Inr ())"

definition s7_adapter_new :: "protocol_connection \<Rightarrow> telemetry_point_mapping list \<Rightarrow> string + 'k s7_adapter" where
  "s7_adapter_new c ms =
     (if pc_protocol c \<noteq> SiemensS7 then Inl ''Siemens S7 adapter requires a Siemens S7 connection''
      else rbind (connection_validate c) (\<lambda>_. rbind (s7_validate_mappings c ms) (\<lambda>_.
        Inr \<lparr>sx_connection = c, sx_mappings = ms, sx_client = None, sx_generation = 0\<rparr>)))"

definition s7_set_mappings :: "telemetry_point_mapping list \<Rightarrow> 'k s7_adapter \<Rightarrow> string + 'k s7_adapter" where
  "s7_set_mappings ms a = rbind (s7_validate_mappings (sx_connection a) ms) (\<lambda>_. Inr (a\<lparr>sx_mappings := ms\<rparr>))"

definition saturating_inc :: "u64 \<Rightarrow> u64" where
  "saturating_inc n = (if n = - 1 then n else n + 1)"

fun s7_connect_first :: "('k, 'a, 'w) s7_ops \<Rightarrow> siemens_settings \<Rightarrow> 'a list \<Rightarrow> string \<Rightarrow> ('k, 'k, 'w) s7_op" where
  "s7_connect_first ops s [] err b = (Inl err, b)"
| "s7_connect_first ops s (x # xs) err (a, w) = (case so_connect ops x s w of
       (Inr k, w') \<Rightarrow> (Inr k, (a\<lparr>sx_client := Some k, sx_generation := saturating_inc (sx_generation a)\<rparr>, w'))
     | (Inl _, w') \<Rightarrow> s7_connect_first ops s xs (''failed to connect Siemens S7 endpoint '' @ so_show_address ops x) (a, w'))"

definition s7_client :: "('k, 'a, 'w) s7_ops \<Rightarrow> ('k, 'k, 'w) s7_op" where
  "s7_client ops = (\<lambda>(a, w).
     case Option.bind (sx_client a) (\<lambda>k. if so_is_connected ops k w then Some k else None) of
       Some k \<Rightarrow> (Inr k, (a, w))
     | None \<Rightarrow> (let a = a\<lparr>sx_client := None\<rparr> in
         case rbind (ok_or ''Siemens S7 endpoint is required'' (pc_endpoint (sx_connection a))) (\<lambda>e.
           rbind (parse_siemens_s7_endpoint e) (\<lambda>hp.
           rbind (ok_or ''Siemens S7 settings are required'' (pc_siemens_s7 (sx_connection a))) (\<lambda>s. Inr (hp, s)))) of
           Inl e \<Rightarrow> (Inl e, (a, w))
         | Inr ((host, port), s) \<Rightarrow> (case so_lookup ops host port w of
             (Inl _, w') \<Rightarrow> (Inl (''failed to resolve Siemens S7 endpoint '' @ host @ '':'' @ show_nat (unat port)), (a, w'))
           | (Inr xs, w') \<Rightarrow>
               if xs = [] then (Inl (''Siemens S7 endpoint '' @ host @ '':'' @ show_nat (unat port) @ '' resolved to no addresses''), (a, w'))
               else s7_connect_first ops s xs ''failed to connect Siemens S7 endpoint'' (a, w'))))"

definition s7_clear_client :: "(unit, 'k, 'w) s7_op" where
  "s7_clear_client = (\<lambda>(a, w). (Inr (), (a\<lparr>sx_client := None\<rparr>, w)))"

text \<open>An operation on the world with the context of its error; the client is dropped when it fails.\<close>

definition s7_try :: "string \<Rightarrow> ('w \<Rightarrow> (string + 'x) \<times> 'w) \<Rightarrow> ('x, 'k, 'w) s7_op" where
  "s7_try context f = (\<lambda>(a, w). case f w of
       (Inr x, w') \<Rightarrow> (Inr x, (a, w'))
     | (Inl e, w') \<Rightarrow> if e = ''panic'' then (Inl e, (a, w')) else (Inl context, (a\<lparr>sx_client := None\<rparr>, w')))"

definition s7_read_item_of :: "s7_point_address \<Rightarrow> s7_read_item" where
  "s7_read_item_of x = \<lparr>ri_area = s7_area x, ri_db_number = s7_db_number x, ri_start = s7_byte_offset x,
     ri_length = s7_byte_width (s7_data_type x)\<rparr>"

definition s7_sample :: "(nat \<Rightarrow> timestamp) \<Rightarrow> nat \<times> (telemetry_point_mapping \<times> s7_point_address) \<times> u8 list \<Rightarrow> string + telemetry_sample" where
  "s7_sample now = (\<lambda>(i, (m, x), bytes). rbind (s7_decode_value m x bytes) (\<lambda>v.
     Inr (sample_new (pm_device_id m) (pm_point_id m) v QGood (now i))))"

definition s7_targets :: "telemetry_point_mapping list \<Rightarrow> string + (telemetry_point_mapping \<times> s7_point_address) list" where
  "s7_targets ms = collect (\<lambda>m. rbind (s7_address m) (\<lambda>x. Inr (m, x))) (filter (\<lambda>m. is_readable (pm_access m)) ms)"

definition s7_read_telemetry :: "('k, 'a, 'w) s7_ops \<Rightarrow> (nat \<Rightarrow> timestamp) \<Rightarrow> (telemetry_sample list, 'k, 'w) s7_op" where
  "s7_read_telemetry ops now = (\<lambda>(a, w).
     bus_bind (bus_lift (s7_targets (sx_mappings a))) (\<lambda>targets.
     if targets = [] then bus_return []
     else bus_bind (s7_client ops) (\<lambda>k.
       bus_bind (s7_try ''Siemens S7 multi-variable read failed'' (so_read_multi ops k (map (\<lambda>(m, x). s7_read_item_of x) targets))) (\<lambda>values.
       bus_lift (if length values \<noteq> length targets
         then Inl (''Siemens S7 read response count mismatch: requested '' @ show_nat (length targets) @ '', received '' @ show_nat (length values))
         else collect (s7_sample now) (enumerate 0 (zip targets values)))))) (a, w))"

definition s7_write_bit :: "('k, 'a, 'w) s7_ops \<Rightarrow> 'k \<Rightarrow> s7_point_address \<Rightarrow> bool \<Rightarrow> 'w \<Rightarrow> (string + unit) \<times> 'w" where
  "s7_write_bit ops k x v w = (case so_read_area ops k (s7_area x) (s7_db_number x) (s7_byte_offset x) 1 w of
       (Inl _, w') \<Rightarrow> (Inl ''Siemens S7 bit read-before-write failed'', w')
     | (Inr [], w') \<Rightarrow> (Inl ''Siemens S7 bit read-before-write returned no data'', w')
     | (Inr (byte # _), w') \<Rightarrow> (case s7_bit_offset x of
           None \<Rightarrow> (Inl ''panic'', w')
         | Some b \<Rightarrow> if \<not> b < 8 then (Inl ''panic'', w')
             else (let mask = push_bit (unat b) 1 in
               case so_write_area ops k (s7_area x) (s7_db_number x) (s7_byte_offset x) [if v then byte OR mask else byte AND NOT mask] w' of
                 (Inl _, w'') \<Rightarrow> (Inl ''Siemens S7 bit write failed'', w'')
               | (Inr _, w'') \<Rightarrow> (Inr (), w''))))"

definition s7_write_value :: "('k, 'a, 'w) s7_ops \<Rightarrow> 'k \<Rightarrow> s7_point_address \<Rightarrow> telemetry_value \<Rightarrow> 'w \<Rightarrow> (string + unit) \<times> 'w" where
  "s7_write_value ops k x v w =
     (if s7_data_type x = S7Bit
      then (case v of Boolean b \<Rightarrow> s7_write_bit ops k x b w | _ \<Rightarrow> (Inl ''Siemens S7 bit write requires a boolean value'', w))
      else (case s7_encode_value (s7_data_type x) v of
          Inl e \<Rightarrow> (Inl e, w)
        | Inr bytes \<Rightarrow> (case so_write_area ops k (s7_area x) (s7_db_number x) (s7_byte_offset x) bytes w of
            (Inl _, w') \<Rightarrow> (Inl ''Siemens S7 value write failed'', w')
          | (Inr _, w') \<Rightarrow> (Inr (), w'))))"

definition s7_write_point :: "('k, 'a, 'w) s7_ops \<Rightarrow> telemetry_point_mapping \<Rightarrow> telemetry_value \<Rightarrow> (protocol_write_result, 'k, 'w) s7_op" where
  "s7_write_point ops m v = (\<lambda>(a, w).
     if pm_protocol_connection_id m \<noteq> pc_connection_id (sx_connection a)
     then (Inl (''Siemens S7 point '' @ pm_point_id m @ '' references connection '' @ pm_protocol_connection_id m @ '' instead of ''
            @ pc_connection_id (sx_connection a)), (a, w))
     else if \<not> is_writable (pm_access m) then (Inl (''Siemens S7 point '' @ pm_point_id m @ '' is not writable''), (a, w))
     else bus_bind (bus_lift (s7_address m)) (\<lambda>x.
       bus_bind (s7_client ops) (\<lambda>k.
       bus_bind (s7_try (''failed to write Siemens S7 point '' @ pm_point_id m) (s7_write_value ops k x v)) (\<lambda>_.
       bus_return \<lparr>wr_point_id = pm_point_id m, wr_value = v, wr_verified = True, wr_readback_value = None\<rparr>))) (a, w))"

section \<open>The codec round-trips\<close>

definition s7_value_fits :: "telemetry_type \<Rightarrow> s7_data_type \<Rightarrow> telemetry_value \<Rightarrow> bool" where
  "s7_value_fits ty t v = (t = S7DWord \<longrightarrow> (ty = TyFloat) = (\<exists>x. v = Float x))"

text \<open>What is read back: the value, for a floating-point number its rounding to 32 bits.\<close>

definition s7_stored :: "telemetry_value \<Rightarrow> telemetry_value" where
  "s7_stored v = (case v of Float x \<Rightarrow> Float (f64_of_f32 (f32_of_f64 x)) | _ \<Rightarrow> v)"

lemma cast_back:
  "0 \<le> sint v \<Longrightarrow> sint v < 2 ^ LENGTH('b) \<Longrightarrow> ucast (scast v :: 'b::len word) = v"
  "- (2 ^ (LENGTH('b) - 1)) \<le> sint v \<Longrightarrow> sint v < 2 ^ (LENGTH('b) - 1) \<Longrightarrow> scast (scast v :: 'b::len word) = v" for v :: i64
proof -
  assume "0 \<le> sint v" "sint v < 2 ^ LENGTH('b)"
  then have "uint (scast v :: 'b word) = sint v" unfolding scast_eq uint_word_of_int_eq by (rule take_bit_int_eq_self)
  then have "ucast (scast v :: 'b word) = (word_of_int (sint v) :: i64)" by (simp only: ucast_eq)
  then show "ucast (scast v :: 'b word) = v" by simp
next
  assume "- (2 ^ (LENGTH('b) - 1)) \<le> sint v" "sint v < 2 ^ (LENGTH('b) - 1)"
  then have "sint (scast v :: 'b word) = sint v"
    unfolding scast_eq [of v] sint_sbintrunc' by (intro signed_take_bit_int_eq_self) auto
  then have "scast (scast v :: 'b word) = (word_of_int (sint v) :: i64)" by (simp only: scast_eq [of "scast v :: 'b word"])
  then show "scast (scast v :: 'b word) = v" by simp
qed

lemma ucast_word_of_int:
  "0 \<le> sint v \<Longrightarrow> sint v \<le> 255 \<Longrightarrow> ucast (scast v :: u8) = v"
  "0 \<le> sint v \<Longrightarrow> sint v \<le> 65535 \<Longrightarrow> ucast (scast v :: u16) = v"
  "0 \<le> sint v \<Longrightarrow> sint v \<le> 4294967295 \<Longrightarrow> ucast (scast v :: u32) = v"
  "- 32768 \<le> sint v \<Longrightarrow> sint v \<le> 32767 \<Longrightarrow> scast (scast v :: u16) = v"
  "- 2147483648 \<le> sint v \<Longrightarrow> sint v \<le> 2147483647 \<Longrightarrow> scast (scast v :: u32) = v"
  for v :: i64
  by (rule cast_back; simp)+

lemma s7_encode_length: "s7_encode_value t v = Inr bytes \<Longrightarrow> length bytes = unat (s7_byte_width t)"
  by (cases t; cases v) (auto simp: s7_encode_value_def s7_integer_bytes_def s7_byte_width_def split: if_splits)

lemma s7_decode_encode:
  assumes "s7_encode_value (s7_data_type x) v = Inr bytes" "s7_value_fits (pm_value_type m) (s7_data_type x) v"
  shows "s7_decode_value m x bytes = Inr (s7_stored v)"
proof -
  have be8: "be_bytes w = [w]" for w :: u8 by (simp add: be_bytes_def)
  have l: "length bytes = unat (s7_byte_width (s7_data_type x))" by (rule s7_encode_length [OF assms(1)])
  show ?thesis using assms l
    by (cases "s7_data_type x"; cases v)
      (auto simp: s7_decode_value_def s7_encode_value_def s7_integer_bytes_def s7_byte_width_def s7_value_fits_def s7_stored_def
        from_be_bytes_word ucast_word_of_int be8 Let_def split: if_splits)
qed

section \<open>The controller's memory\<close>

text \<open>The memory of a controller: bytes by area, data block and address. What the S7 client is relied on for.\<close>

type_synonym s7_memory = "s7_area \<Rightarrow> u16 \<Rightarrow> nat \<Rightarrow> u8"

definition s7_bytes :: "s7_memory \<Rightarrow> s7_point_address \<Rightarrow> u8 list" where
  "s7_bytes mem x = map (\<lambda>i. mem (s7_area x) (s7_db_number x) (unat (s7_byte_offset x) + i)) [0 ..< unat (s7_byte_width (s7_data_type x))]"

definition s7_store :: "s7_memory \<Rightarrow> s7_area \<Rightarrow> u16 \<Rightarrow> nat \<Rightarrow> u8 list \<Rightarrow> s7_memory" where
  "s7_store mem a d i bytes = (\<lambda>a' d' j. if a' = a \<and> d' = d \<and> i \<le> j \<and> j < i + length bytes then bytes ! (j - i) else mem a' d' j)"

definition s7_item_bytes :: "s7_memory \<Rightarrow> s7_read_item \<Rightarrow> u8 list" where
  "s7_item_bytes mem r = map (\<lambda>i. mem (ri_area r) (ri_db_number r) (unat (ri_start r) + i)) [0 ..< unat (ri_length r)]"

definition s7_memory_client :: "('k, 'a, 'w) s7_ops \<Rightarrow> ('w \<Rightarrow> s7_memory) \<Rightarrow> bool" where
  "s7_memory_client ops mem = (
     (\<forall>h p w. mem (snd (so_lookup ops h p w)) = mem w) \<and>
     (\<forall>x s w. mem (snd (so_connect ops x s w)) = mem w) \<and>
     (\<forall>k items w r w'. so_read_multi ops k items w = (r, w') \<longrightarrow> mem w' = mem w \<and> (\<forall>vs. r = Inr vs \<longrightarrow> vs = map (s7_item_bytes (mem w)) items)) \<and>
     (\<forall>k a d i n w r w'. so_read_area ops k a d i n w = (r, w') \<longrightarrow> mem w' = mem w \<and>
        (\<forall>bs. r = Inr bs \<longrightarrow> bs = map (\<lambda>j. mem w a d (unat i + j)) [0 ..< unat n])) \<and>
     (\<forall>k a d i bs w w'. so_write_area ops k a d i bs w = (Inr (), w') \<longrightarrow> mem w' = s7_store (mem w) a d (unat i) bs))"

lemma s7_item_bytes_of: "s7_item_bytes mem (s7_read_item_of x) = s7_bytes mem x"
  by (simp add: s7_item_bytes_def s7_read_item_of_def s7_bytes_def)

lemma s7_store_bytes:
  assumes "length bytes = unat (s7_byte_width (s7_data_type x))"
  shows "s7_bytes (s7_store mem (s7_area x) (s7_db_number x) (unat (s7_byte_offset x)) bytes) x = bytes"
  by (rule nth_equalityI) (auto simp: s7_bytes_def s7_store_def assms)

lemma s7_connect_first_mem:
  assumes "s7_memory_client ops mem" "s7_connect_first ops s xs e (a, w) = (r, (a', w'))"
  shows "mem w' = mem w \<and> sx_mappings a' = sx_mappings a \<and> sx_connection a' = sx_connection a"
  using assms(2)
proof (induction xs arbitrary: e a w)
  case (Cons x xs)
  obtain q w1 where q: "so_connect ops x s w = (q, w1)" by fastforce
  have m: "mem w1 = mem w" using assms(1) q unfolding s7_memory_client_def by (metis snd_conv)
  show ?case
  proof (cases q)
    case (Inl f)
    with Cons q have "mem w' = mem w1 \<and> sx_mappings a' = sx_mappings a \<and> sx_connection a' = sx_connection a" by auto
    with m show ?thesis by simp
  next
    case (Inr k)
    with Cons.prems q m show ?thesis by auto
  qed
qed simp

lemma s7_client_mem:
  assumes "s7_memory_client ops mem" "s7_client ops (a, w) = (r, (a', w'))"
  shows "mem w' = mem w \<and> sx_mappings a' = sx_mappings a \<and> sx_connection a' = sx_connection a"
proof -
  have l: "mem (snd (so_lookup ops h p w)) = mem w" for h p using assms(1) by (simp add: s7_memory_client_def)
  have look: "mem w1 = mem w" if "so_lookup ops h p w = (q, w1)" for h p q w1 using l [of h p] that by simp
  show ?thesis using assms(2)
    by (auto simp: s7_client_def Let_def look split: option.splits sum.splits prod.splits if_splits
        dest: look s7_connect_first_mem [OF assms(1)])
qed

text \<open>What a write leaves as it was: every byte but those of the point, and in the byte of a single bit every other bit.\<close>

definition s7_only_changes :: "s7_point_address \<Rightarrow> s7_memory \<Rightarrow> s7_memory \<Rightarrow> bool" where
  "s7_only_changes x mem mem' = ((\<forall>a d j. (a, d) \<noteq> (s7_area x, s7_db_number x) \<or> j < unat (s7_byte_offset x) \<or>
        unat (s7_byte_offset x) + unat (s7_byte_width (s7_data_type x)) \<le> j \<longrightarrow> mem' a d j = mem a d j) \<and>
     (s7_data_type x = S7Bit \<longrightarrow> (\<forall>n. Some n \<noteq> map_option unat (s7_bit_offset x) \<longrightarrow>
        bit (mem' (s7_area x) (s7_db_number x) (unat (s7_byte_offset x))) n = bit (mem (s7_area x) (s7_db_number x) (unat (s7_byte_offset x))) n)))"

lemma s7_store_only_changes:
  assumes "length bytes = unat (s7_byte_width (s7_data_type x))" "s7_data_type x \<noteq> S7Bit"
  shows "s7_only_changes x mem (s7_store mem (s7_area x) (s7_db_number x) (unat (s7_byte_offset x)) bytes)"
  using assms by (auto simp: s7_only_changes_def s7_store_def)

lemma s7_write_bit_stores:
  assumes client: "s7_memory_client ops mem" and w: "s7_write_bit ops k x v w = (Inr (), w')" and t: "s7_data_type x = S7Bit"
  shows "s7_decode_value m x (s7_bytes (mem w') x) = Inr (Boolean v) \<and> s7_only_changes x (mem w) (mem w')"
proof -
  obtain r w1 where r: "so_read_area ops k (s7_area x) (s7_db_number x) (s7_byte_offset x) 1 w = (r, w1)" by fastforce
  have m1: "mem w1 = mem w" "\<And>bs. r = Inr bs \<Longrightarrow> bs = [mem w (s7_area x) (s7_db_number x) (unat (s7_byte_offset x))]"
    using client r unfolding s7_memory_client_def by fastforce+
  let ?old = "mem w (s7_area x) (s7_db_number x) (unat (s7_byte_offset x))"
  obtain bs where bs: "r = Inr bs" using w r by (cases r) (auto simp: s7_write_bit_def)
  then have bs1: "bs = [?old]" using m1(2) by blast
  obtain b where b: "s7_bit_offset x = Some b" "b < 8" using w r bs bs1 by (auto simp: s7_write_bit_def split: option.splits if_splits)
  let ?mask = "push_bit (unat b) 1 :: u8"
  let ?new = "if v then ?old OR ?mask else ?old AND NOT ?mask"
  have wr: "so_write_area ops k (s7_area x) (s7_db_number x) (s7_byte_offset x) [?new] w1 = (Inr (), w')"
    using w r bs bs1 b by (auto simp: s7_write_bit_def Let_def split: prod.splits sum.splits)
  have mem': "mem w' = s7_store (mem w) (s7_area x) (s7_db_number x) (unat (s7_byte_offset x)) [?new]"
    using client wr m1(1) unfolding s7_memory_client_def by metis
  have nb: "unat b < 8" using b(2) by (simp add: word_less_nat_alt)
  have set: "(y AND ?mask \<noteq> 0) = bit y (unat b)" for y :: u8
    using nb by (metis and_exp_eq_0_iff_not_bit push_bit_of_1)
  have "bit ?new (unat b) = v" using nb by (auto simp: bit_simps)
  moreover have "bit ?new n = bit ?old n" if "n \<noteq> unat b" for n
    using that by (auto simp: bit_simps dest: bit_imp_le_length)
  moreover have bytes: "s7_bytes (mem w') x = [?new]"
    unfolding mem' by (rule s7_store_bytes) (simp add: t s7_byte_width_def)
  ultimately show ?thesis using b t set [of ?new]
    by (auto simp: s7_decode_value_def s7_byte_width_def s7_only_changes_def mem' s7_store_def)
qed

lemma s7_write_value_stores:
  assumes client: "s7_memory_client ops mem" and w: "s7_write_value ops k x v w = (Inr (), w')"
    and fits: "s7_value_fits (pm_value_type m) (s7_data_type x) v"
  shows "s7_decode_value m x (s7_bytes (mem w') x) = Inr (s7_stored v) \<and> s7_only_changes x (mem w) (mem w')"
proof (cases "s7_data_type x = S7Bit")
  case True
  then obtain b where v: "v = Boolean b" "s7_write_bit ops k x b w = (Inr (), w')" using w by (cases v) (auto simp: s7_write_value_def)
  with s7_write_bit_stores [OF client v(2) True] show ?thesis by (simp add: s7_stored_def)
next
  case False
  then obtain bytes where e: "s7_encode_value (s7_data_type x) v = Inr bytes" using w
    by (cases "s7_encode_value (s7_data_type x) v") (auto simp: s7_write_value_def)
  then have "so_write_area ops k (s7_area x) (s7_db_number x) (s7_byte_offset x) bytes w = (Inr (), w')"
    using w False by (auto simp: s7_write_value_def split: prod.splits sum.splits)
  then have mem': "mem w' = s7_store (mem w) (s7_area x) (s7_db_number x) (unat (s7_byte_offset x)) bytes"
    using client unfolding s7_memory_client_def by metis
  note l = s7_encode_length [OF e]
  show ?thesis unfolding mem' s7_store_bytes [OF l]
    using s7_decode_encode [OF e fits] s7_store_only_changes [OF l False] by blast
qed

lemma s7_try_Inr: "s7_try c f (a, w) = (Inr y, (a', w')) \<longleftrightarrow> f w = (Inr y, w') \<and> a' = a"
  by (auto simp: s7_try_def split: prod.splits sum.splits if_splits)

lemma s7_address_Inr: "s7_address m = Inr x \<longleftrightarrow> validate_siemens_s7_point (pm_address m) (pm_value_type m) (pm_access m) = Inr x"
  by (simp add: s7_address_def map_err_Inr)

section \<open>The properties of the adapter\<close>

text \<open>
  C19. With a client that reads and writes the controller's memory, a write that succeeds leaves the value in memory in such a way that reading the point
  returns it (a floating-point number rounded to 32 bits), and changes nothing else: no byte outside of the point, and for a
  single bit no other bit of its byte.\<close>

theorem s7_write_point_correct:
  assumes "s7_memory_client ops mem" "s7_write_point ops m v (a, w) = (Inr res, (a', w'))"
    "\<And>x. validate_siemens_s7_point (pm_address m) (pm_value_type m) (pm_access m) = Inr x \<Longrightarrow> s7_value_fits (pm_value_type m) (s7_data_type x) v"
  shows "\<exists>x. validate_siemens_s7_point (pm_address m) (pm_value_type m) (pm_access m) = Inr x \<and>
    s7_decode_value m x (s7_bytes (mem w') x) = Inr (s7_stored v) \<and> s7_only_changes x (mem w) (mem w')"
proof -
  obtain x k a1 w1 where x: "s7_address m = Inr x" and c: "s7_client ops (a, w) = (Inr k, (a1, w1))"
      and wv: "s7_write_value ops k x v w1 = (Inr (), w')"
    using assms(2) by (auto simp: s7_write_point_def bus_bind_Inr bus_lift_def bus_return_def s7_try_Inr split: if_splits)
  have "mem w1 = mem w" using s7_client_mem [OF assms(1) c] by simp
  with s7_write_value_stores [OF assms(1) wv, of m] assms(3) x show ?thesis by (auto simp: s7_address_Inr)
qed

text \<open>
  C20. A successful read returns, for every readable point in order, the value that its bytes in memory have, and changes no memory.\<close>

theorem s7_read_telemetry_correct:
  assumes "s7_memory_client ops mem" "s7_read_telemetry ops now (a, w) = (Inr ss, (a', w'))"
  shows "mem w' = mem w \<and> list_all2 (\<lambda>m s. \<exists>x v. validate_siemens_s7_point (pm_address m) (pm_value_type m) (pm_access m) = Inr x \<and>
      s7_decode_value m x (s7_bytes (mem w) x) = Inr v \<and> ts_device_id s = pm_device_id m \<and> ts_telemetry_id s = pm_point_id m \<and> ts_value s = v)
    (filter (\<lambda>m. is_readable (pm_access m)) (sx_mappings a)) ss"
proof -
  from assms(2) obtain ts where ts: "s7_targets (sx_mappings a) = Inr ts"
    by (cases "s7_targets (sx_mappings a)") (auto simp: s7_read_telemetry_def bus_bind_def bus_lift_def)
  then have l: "list_all2 (\<lambda>m t. \<exists>x. s7_address m = Inr x \<and> t = (m, x)) (filter (\<lambda>m. is_readable (pm_access m)) (sx_mappings a)) ts"
    by (auto simp: s7_targets_def collect_Inr rbind_Inr elim!: list_all2_mono)
  show ?thesis
  proof (cases "ts = []")
    case True
    with assms(2) ts l show ?thesis by (auto simp: s7_read_telemetry_def bus_bind_def bus_lift_def bus_return_def)
  next
    case False
    let ?items = "map (\<lambda>(m, x). s7_read_item_of x) ts"
    obtain k a1 w1 vs where c: "s7_client ops (a, w) = (Inr k, (a1, w1))" and r: "so_read_multi ops k ?items w1 = (Inr vs, w')"
        and s: "collect (s7_sample now) (enumerate 0 (zip ts vs)) = Inr ss" "length vs = length ts"
      using assms(2) ts False
      by (auto simp: s7_read_telemetry_def bus_bind_Inr bus_lift_def s7_try_Inr split: if_splits)
    have m1: "mem w1 = mem w" using s7_client_mem [OF assms(1) c] by simp
    have "mem w' = mem w1 \<and> vs = map (s7_item_bytes (mem w1)) ?items"
      using assms(1) r unfolding s7_memory_client_def by metis
    then have m': "mem w' = mem w" and vs: "vs = map (\<lambda>(m, x). s7_bytes (mem w) x) ts"
      using m1 by (auto simp: s7_item_bytes_of)
    have "length ss = length ts" using collect_length [OF s(1)] s(2) by simp
    moreover have "s7_sample now (i, ts ! i, s7_bytes (mem w) (snd (ts ! i))) = Inr (ss ! i)" if "i < length ts" for i
      using s that unfolding collect_Inr list_all2_conv_all_nth by (auto simp: vs nth_enumerate_eq case_prod_beta)
    moreover have "\<exists>x v. validate_siemens_s7_point (pm_address m) (pm_value_type m) (pm_access m) = Inr x \<and>
        s7_decode_value m x (s7_bytes (mem w) x) = Inr v \<and> ts_device_id s = pm_device_id m \<and> ts_telemetry_id s = pm_point_id m \<and> ts_value s = v"
      if "s7_address m = Inr x" "s7_sample now (i, (m, x), s7_bytes (mem w) x) = Inr s" for m x i s
      using that by (auto simp: s7_sample_def rbind_Inr s7_address_Inr sample_new_def)
    ultimately show ?thesis using m' l unfolding list_all2_conv_all_nth by (metis snd_conv)
  qed
qed

section \<open>Failures\<close>

lemma s7_connect_first_Inr:
  "s7_connect_first ops s xs e (a, w) = (Inr k, (a', w')) \<Longrightarrow>
    sx_client a' = Some k \<and> sx_generation a' = saturating_inc (sx_generation a)"
  by (induction xs arbitrary: e a w) (auto split: prod.splits sum.splits)

text \<open>A read that fails drops the client, so that the next operation opens a new connection and counts it.\<close>

lemma s7_failure_reconnects:
  assumes "so_read_multi ops k items w = (Inl e, w1)" "e \<noteq> ''panic''"
    "s7_try context (so_read_multi ops k items) (a, w) = (r, (a1, w1))" "s7_client ops (a1, w1) = (Inr k', (a2, w2))"
  shows "r = Inl context \<and> sx_client a1 = None \<and> sx_client a2 = Some k' \<and> sx_generation a2 = saturating_inc (sx_generation a)"
proof -
  have a1: "r = Inl context" "a1 = a\<lparr>sx_client := None\<rparr>" using assms(1-3) by (auto simp: s7_try_def)
  then obtain s xs e' w3 where "s7_connect_first ops s xs e' (a\<lparr>sx_client := None\<rparr>, w3) = (Inr k', (a2, w2))"
    using assms(4) by (auto simp: s7_client_def Let_def split: option.splits sum.splits prod.splits if_splits)
  from s7_connect_first_Inr [OF this] a1 show ?thesis by simp
qed

section \<open>A controller in memory\<close>

definition memory_ops :: "(unit, unit, s7_memory) s7_ops" where
  "memory_ops = \<lparr>so_lookup = \<lambda>_ _ w. (Inr [()], w), so_show_address = \<lambda>_. ''plc'', so_connect = \<lambda>_ _ w. (Inr (), w),
     so_is_connected = \<lambda>_ _. True, so_read_multi = \<lambda>_ items w. (Inr (map (s7_item_bytes w) items), w),
     so_read_area = \<lambda>_ a d i n w. (Inr (map (\<lambda>j. w a d (unat i + j)) [0 ..< unat n]), w),
     so_write_area = \<lambda>_ a d i bytes w. (Inr (), s7_store w a d (unat i) bytes)\<rparr>"

lemma memory_ops_client: "s7_memory_client memory_ops (\<lambda>w. w)"
  by (auto simp: s7_memory_client_def memory_ops_def)

definition example_s7_address :: s7_point_address where
  "example_s7_address = \<lparr>s7_area = Marker, s7_db_number = 0, s7_byte_offset = 0, s7_bit_offset = Some 3, s7_data_type = S7Bit\<rparr>"

definition example_s7_point :: telemetry_point_mapping where
  "example_s7_point = (mapping_new ''p'' ''d'' ''s'' ''c''
       \<lparr>pa_kind = ''s7_address'', pa_value = s7_canonical example_s7_address, pa_modbus = None\<rparr> TyBoolean)\<lparr>pm_access := ReadWrite\<rparr>"

definition example_s7_adapter :: "unit s7_adapter" where
  "example_s7_adapter = \<lparr>sx_connection = connection_simulated ''c'', sx_mappings = [example_s7_point], sx_client = Some (), sx_generation = 0\<rparr>"

lemma example_s7_valid:
  "validate_siemens_s7_point (pm_address example_s7_point) (pm_value_type example_s7_point) (pm_access example_s7_point) = Inr example_s7_address"
proof -
  have "parse_siemens_s7_point_address (s7_canonical example_s7_address) = Inr example_s7_address"
    by (rule parse_s7_canonical) (simp add: s7_wf_def example_s7_address_def)
  then show ?thesis
    by (simp add: validate_siemens_s7_point_def example_s7_point_def mapping_new_def) (simp add: example_s7_address_def s7_protocol_writable_def)
qed

lemma example_s7_bytes: "s7_bytes (\<lambda>_ _ _. c) example_s7_address = [c]"
  by (simp add: s7_bytes_def s7_byte_width_def example_s7_address_def)

theorem s7_write_point_correct_witness:
  "\<exists>res a' w'. s7_write_point memory_ops example_s7_point (Boolean True) (example_s7_adapter, \<lambda>_ _ _. 1) = (Inr res, (a', w')) \<and>
     bit (w' Marker 0 0) 0 = bit (1 :: u8) 0"
proof -
  have ready: "s7_address example_s7_point = Inr example_s7_address" "pm_protocol_connection_id example_s7_point = pc_connection_id (sx_connection example_s7_adapter)"
      "is_writable (pm_access example_s7_point)" "s7_client memory_ops (example_s7_adapter, w) = (Inr (), (example_s7_adapter, w))" for w
    using example_s7_valid
    by (simp_all add: s7_address_Inr example_s7_adapter_def example_s7_point_def mapping_new_def connection_simulated_def is_writable_def
        s7_client_def memory_ops_def)
  have "\<exists>w'. s7_write_value memory_ops () example_s7_address (Boolean True) (\<lambda>_ _ _. 1) = (Inr (), w')"
    by (simp add: s7_write_value_def s7_write_bit_def memory_ops_def example_s7_address_def)
  then obtain res a' w' where w: "s7_write_point memory_ops example_s7_point (Boolean True) (example_s7_adapter, \<lambda>_ _ _. 1) = (Inr res, (a', w'))"
    using ready by (auto simp: s7_write_point_def bus_bind_def bus_lift_def bus_return_def s7_try_def)
  from s7_write_point_correct [OF memory_ops_client w] example_s7_valid
  have "s7_only_changes example_s7_address (\<lambda>_ _ _. 1) w'" by (auto simp: s7_value_fits_def example_s7_address_def)
  with w show ?thesis by (auto simp: s7_only_changes_def example_s7_address_def)
qed

theorem s7_read_telemetry_correct_witness:
  "\<exists>ss a' w'. s7_read_telemetry memory_ops (\<lambda>_. 0) (example_s7_adapter, \<lambda>_ _ _. 8) = (Inr ss, (a', w')) \<and> map ts_value ss = [Boolean True]"
proof -
  have decode: "s7_decode_value example_s7_point example_s7_address [8] = Inr (Boolean True)"
    by (simp add: s7_decode_value_def s7_byte_width_def example_s7_address_def)
  have readable: "filter (\<lambda>m. is_readable (pm_access m)) (sx_mappings example_s7_adapter) = [example_s7_point]"
    by (simp add: example_s7_adapter_def example_s7_point_def mapping_new_def is_readable_def)
  have "s7_targets (sx_mappings example_s7_adapter) = Inr [(example_s7_point, example_s7_address)]"
    unfolding s7_targets_def readable using example_s7_valid by (simp add: s7_address_Inr [THEN iffD2])
  moreover have "s7_client memory_ops (example_s7_adapter, w) = (Inr (), (example_s7_adapter, w))" for w
    by (simp add: s7_client_def memory_ops_def example_s7_adapter_def)
  moreover have "so_read_multi memory_ops () [s7_read_item_of example_s7_address] (\<lambda>_ _ _. 8) = (Inr [[8]], \<lambda>_ _ _. 8)"
    by (simp add: memory_ops_def s7_item_bytes_of example_s7_bytes)
  ultimately obtain ss a' w' where r: "s7_read_telemetry memory_ops (\<lambda>_. 0) (example_s7_adapter, \<lambda>_ _ _. 8) = (Inr ss, (a', w'))"
    using decode by (simp add: s7_read_telemetry_def bus_bind_def bus_lift_def s7_try_def s7_sample_def)
  from s7_read_telemetry_correct [OF memory_ops_client r] example_s7_valid example_s7_bytes decode r show ?thesis
    unfolding readable by (auto simp: list_all2_Cons1)
qed

end
